theory Spec2Isabelle
  imports Complex_Main "HOL-Library.Sublist" "HOL-Library.AList"
begin

section \<open>JavaScript values shared by the modules\<close>

text \<open>
  A JavaScript string is modelled as a \<^typ>\<open>string\<close> whose characters are the code
  units \<open>0..255\<close> (Latin-1 text).  A JavaScript number is modelled by the real number
  it denotes; \<open>NaN\<close> and the infinities appear only where the source can produce them
  from text (see \<open>jsnumber\<close> below).  Rounding of IEEE doubles is not part of the model.
\<close>

text \<open>\<open>String.prototype.includes\<close>: the argument occurs as a contiguous substring.\<close>

definition includes_str :: "string \<Rightarrow> string \<Rightarrow> bool" where
  "includes_str s k = sublist k s"

text \<open>\<open>Array.prototype.join\<close> on an array of strings.\<close>

fun join :: "string \<Rightarrow> string list \<Rightarrow> string" where
  "join sep [] = []"
| "join sep [x] = x"
| "join sep (x # y # ys) = x @ sep @ join sep (y # ys)"

text \<open>
  \<open>String.prototype.toLowerCase\<close> on Latin-1 text: the letters \<open>A..Z\<close> and the
  accented capitals \<open>0xC0..0xDE\<close> (without the multiplication sign \<open>0xD7\<close>) move up
  by 32; every other character is unchanged.
\<close>

definition toLowerChar :: "char \<Rightarrow> char" where
  "toLowerChar c =
     (let n = (of_char c :: nat)
      in if (65 \<le> n \<and> n \<le> 90) \<or> (192 \<le> n \<and> n \<le> 222 \<and> n \<noteq> 215)
         then char_of (n + 32) else c)"

definition toLowerCase :: "string \<Rightarrow> string" where
  "toLowerCase s = map toLowerChar s"

text \<open>Decimal digits of a natural number, as \<open>String(n)\<close> prints a non-negative integer.\<close>

fun digitsOf :: "nat \<Rightarrow> string" where
  "digitsOf n = (if n < 10 then [char_of (48 + n)] else digitsOf (n div 10) @ [char_of (48 + n mod 10)])"

declare digitsOf.simps [simp del]

text \<open>
  \<open>[...new Set(xs)]\<close>: the elements of \<open>xs\<close> in the order of their first occurrence.
\<close>

fun setInsertAll :: "'a list \<Rightarrow> 'a list \<Rightarrow> 'a list" where
  "setInsertAll seen [] = seen"
| "setInsertAll seen (x # xs) = setInsertAll (if x \<in> set seen then seen else seen @ [x]) xs"

definition newSet :: "'a list \<Rightarrow> 'a list" where
  "newSet xs = setInsertAll [] xs"

text \<open>
  A plain object \<open>{}\<close> used as a dictionary.  Its own properties are an association list
  in insertion order; a key that is not an own property is looked up in
  \<open>Object.prototype\<close>, whose members are listed here.
\<close>

definition objectPrototypeKeys :: "string list" where
  "objectPrototypeKeys =
    [''constructor'', ''__defineGetter__'', ''__defineSetter__'', ''hasOwnProperty'',
     ''__lookupGetter__'', ''__lookupSetter__'', ''isPrototypeOf'', ''propertyIsEnumerable'',
     ''toString'', ''valueOf'', ''__proto__'', ''toLocaleString'']"

text \<open>
  An array index is the canonical decimal text of an integer in \<open>0..2^32-2\<close>.
  \<open>Object.entries\<close> lists the array-index keys first, in ascending numeric order, and
  then the other keys in insertion order.
\<close>

definition isDigit :: "char \<Rightarrow> bool" where
  "isDigit c = (48 \<le> (of_char c :: nat) \<and> (of_char c :: nat) \<le> 57)"

definition decimalValue :: "string \<Rightarrow> int" where
  "decimalValue ds = foldl (\<lambda>acc c. 10 * acc + ((of_char c :: int) - 48)) 0 ds"

definition isArrayIndex :: "string \<Rightarrow> bool" where
  "isArrayIndex s =
     (s \<noteq> [] \<and> list_all isDigit s \<and> (s = ''0'' \<or> hd s \<noteq> CHR ''0'')
      \<and> decimalValue s \<le> 4294967294)"

definition objectEntries :: "(string \<times> 'v) list \<Rightarrow> (string \<times> 'v) list" where
  "objectEntries props =
     sort_key (\<lambda>p. decimalValue (fst p)) (filter (\<lambda>p. isArrayIndex (fst p)) props)
     @ filter (\<lambda>p. \<not> isArrayIndex (fst p)) props"

text \<open>
  Numbers that text can denote: \<open>parseFloat\<close> yields \<open>NaN\<close>, a finite value or an
  infinity.  \<open>truthyNumber\<close> is the condition \<open>if (x)\<close>; \<open>lessNumber a b\<close> is \<open>a < b\<close>,
  false whenever an operand is \<open>NaN\<close>.
\<close>

datatype jsnumber = NaN | Num real | PosInfinity | NegInfinity

fun truthyNumber :: "jsnumber \<Rightarrow> bool" where
  "truthyNumber NaN = False"
| "truthyNumber (Num r) = (r \<noteq> 0)"
| "truthyNumber PosInfinity = True"
| "truthyNumber NegInfinity = True"

fun lessNumber :: "jsnumber \<Rightarrow> jsnumber \<Rightarrow> bool" where
  "lessNumber (Num a) (Num b) = (a < b)"
| "lessNumber (Num a) PosInfinity = True"
| "lessNumber NegInfinity (Num b) = True"
| "lessNumber NegInfinity PosInfinity = True"
| "lessNumber a b = False"

text \<open>White space and line terminators within Latin-1, as skipped by \<open>trim\<close> and by the
  number parsers and matched by \<open>\s\<close>.\<close>

definition isWhiteSpace :: "char \<Rightarrow> bool" where
  "isWhiteSpace c = ((of_char c :: nat) \<in> {9, 10, 11, 12, 13, 32, 160})"

definition trimStart :: "string \<Rightarrow> string" where
  "trimStart s = dropWhile isWhiteSpace s"

definition trim :: "string \<Rightarrow> string" where
  "trim s = rev (dropWhile isWhiteSpace (rev (dropWhile isWhiteSpace s)))"

text \<open>An optional leading sign: whether it is a minus, and the rest of the text.\<close>

fun splitSign :: "string \<Rightarrow> bool \<times> string" where
  "splitSign [] = (False, [])"
| "splitSign (c # cs) =
     (if c = CHR ''-'' then (True, cs) else if c = CHR ''+'' then (False, cs) else (False, c # cs))"

text \<open>Hexadecimal digits and their values.\<close>

definition isHexDigit :: "char \<Rightarrow> bool" where
  "isHexDigit c =
     (let n = (of_char c :: nat)
      in (48 \<le> n \<and> n \<le> 57) \<or> (65 \<le> n \<and> n \<le> 70) \<or> (97 \<le> n \<and> n \<le> 102))"

definition hexDigitValue :: "char \<Rightarrow> int" where
  "hexDigitValue c =
     (let n = (of_char c :: int)
      in if n \<le> 57 then n - 48 else if n \<le> 70 then n - 55 else n - 87)"

definition hexValue :: "string \<Rightarrow> int" where
  "hexValue ds = foldl (\<lambda>acc c. 16 * acc + hexDigitValue c) 0 ds"

text \<open>
  \<open>parseInt(s)\<close> without a radix: leading white space is skipped, a sign is read, the
  prefix \<open>0x\<close> or \<open>0X\<close> selects radix 16, and the longest run of digits is the value;
  \<open>None\<close> is \<open>NaN\<close> (no digit).  Zero stands for both \<open>0\<close> and \<open>-0\<close>.  The value is
  the exact integer: the rounding to the nearest double, which changes integers beyond
  \<open>2^53\<close>, is not modelled.
\<close>

definition parseInt :: "string \<Rightarrow> int option" where
  "parseInt s =
     (let (neg, u) = splitSign (trimStart s);
          hex = (take 2 u = ''0x'' \<or> take 2 u = ''0X'');
          z = (if hex then takeWhile isHexDigit (drop 2 u) else takeWhile isDigit u);
          v = (if hex then hexValue z else decimalValue z)
      in if z = [] then None else Some (if neg then - v else v))"

text \<open>The exponent part \<open>e\<close>, \<open>e+\<close> or \<open>e-\<close> followed by digits; 0 when there is none.\<close>

definition exponentOf :: "string \<Rightarrow> int" where
  "exponentOf r =
     (case r of
        [] \<Rightarrow> 0
      | c # cs \<Rightarrow>
          if c = CHR ''e'' \<or> c = CHR ''E''
          then (let (neg, ds) = splitSign cs; z = takeWhile isDigit ds
                in if z = [] then 0 else if neg then - decimalValue z else decimalValue z)
          else 0)"

definition scale10 :: "real \<Rightarrow> int \<Rightarrow> real" where
  "scale10 m e = (if e \<ge> 0 then m * 10 ^ nat e else m / 10 ^ nat (- e))"

text \<open>
  \<open>parseFloat(s)\<close>: leading white space is skipped and the longest prefix that is a
  decimal literal (sign, \<open>Infinity\<close>, or digits with an optional fraction and exponent) is
  the value; \<open>NaN\<close> when there is none.  The value is the exact real number of the
  literal: the rounding to the nearest double, and with it overflow and underflow, is not
  modelled.
\<close>

definition parseFloat :: "string \<Rightarrow> jsnumber" where
  "parseFloat s =
     (let (neg, u) = splitSign (trimStart s)
      in if prefix ''Infinity'' u then (if neg then NegInfinity else PosInfinity)
         else
           (let ip = takeWhile isDigit u;
                r1 = dropWhile isDigit u;
                (fp, r2) = (case r1 of
                              [] \<Rightarrow> ([], r1)
                            | c # cs \<Rightarrow>
                                if c = CHR ''.'' then (takeWhile isDigit cs, dropWhile isDigit cs)
                                else ([], r1));
                m = real_of_int (decimalValue ip)
                      + real_of_int (decimalValue fp) / 10 ^ length fp;
                v = scale10 m (exponentOf r2)
            in if ip = [] \<and> fp = [] then NaN else Num (if neg then - v else v)))"

text \<open>
  A thrown error object: its \<open>name\<close> and \<open>message\<close>, and the \<open>code\<close>, \<open>retryable\<close> and
  \<open>originalError\<close> properties that \<open>createError\<close> attaches.
\<close>

datatype jsError =
  JsError (errName: string) (errMessage: string) (errCode: "string option")
    (errRetryable: "bool option") (errOriginal: "jsError option")

text \<open>\<open>new Error(message)\<close>.\<close>

definition newError :: "string \<Rightarrow> jsError" where
  "newError msg = JsError ''Error'' msg None None None"

text \<open>\<open>String(error)\<close>, as \<open>Error.prototype.toString\<close> prints an error.\<close>

definition errorToString :: "jsError \<Rightarrow> string" where
  "errorToString e =
     (if errName e = [] then errMessage e
      else if errMessage e = [] then errName e
      else errName e @ '': '' @ errMessage e)"

text \<open>\<open>x || d\<close> for an optional string: \<open>d\<close> when \<open>x\<close> is undefined or empty.\<close>

definition orElse :: "string option \<Rightarrow> string \<Rightarrow> string" where
  "orElse x d = (case x of None \<Rightarrow> d | Some v \<Rightarrow> if v = [] then d else v)"

section \<open>Tool chain orchestrator\<close>

subsection \<open>Data model\<close>

text \<open>\<open>ToolChainStepSchema\<close>; \<open>parameters\<close> is an opaque record of values.\<close>

record 'p ToolChainStep =
  toolName :: string
  parameters :: 'p
  description :: string
  dependsOn :: "string list option"
  stepId :: string
  conditional :: bool
  retryable :: bool

text \<open>\<open>ToolChainPlanSchema\<close>.\<close>

record 'p ToolChainPlan =
  planId :: string
  userIntent :: string
  confidence :: real
  estimatedDuration :: string
  steps :: "'p ToolChainStep list"
  fallbackSteps :: "'p ToolChainStep list option"
  prerequisites :: "string list option"
  expectedOutputs :: "string list"

text \<open>The \<open>constraints\<close> object of \<open>ToolChainOrchestratorSchema\<close>; the whole object is optional.\<close>

record constraints =
  maxSteps :: "real option"
  timeLimit :: "string option"
  excludeTools :: "string list option"
  prioritizeSpeed :: bool

text \<open>
  \<open>McpAdrError(message, code)\<close> as raised by \<open>validatePlanSafety\<close>.  Each constructor
  stands for one \<open>code\<close> and carries the values its message interpolates.
\<close>

datatype McpAdrError =
    PLAN_TOO_COMPLEX nat real
  | EXCLUDED_TOOLS_USED "string list"
  | UNKNOWN_TOOLS "string list"
  | INVALID_DEPENDENCY string string
  | LOW_CONFIDENCE_PLAN real

fun code :: "McpAdrError \<Rightarrow> string" where
  "code (PLAN_TOO_COMPLEX n m) = ''PLAN_TOO_COMPLEX''"
| "code (EXCLUDED_TOOLS_USED ts) = ''EXCLUDED_TOOLS_USED''"
| "code (UNKNOWN_TOOLS ts) = ''UNKNOWN_TOOLS''"
| "code (INVALID_DEPENDENCY s d) = ''INVALID_DEPENDENCY''"
| "code (LOW_CONFIDENCE_PLAN c) = ''LOW_CONFIDENCE_PLAN''"

definition AVAILABLE_TOOLS :: "string list" where
  "AVAILABLE_TOOLS =
    [''analyze_project_ecosystem'', ''generate_adrs_from_prd'', ''suggest_adrs'',
     ''analyze_content_security'', ''generate_rules'', ''generate_adr_todo'',
     ''compare_adr_progress'', ''manage_todo'', ''generate_deployment_guidance'',
     ''smart_score'', ''troubleshoot_guided_workflow'', ''smart_git_push'',
     ''generate_research_questions'', ''validate_rules'', ''analyze_code_patterns'',
     ''suggest_improvements'', ''generate_test_scenarios'', ''create_documentation'',
     ''security_audit'', ''performance_analysis'', ''dependency_analysis'',
     ''refactoring_suggestions'', ''api_documentation'', ''deployment_checklist'',
     ''release_notes'']"

subsection \<open>validatePlanSafety\<close>

text \<open>\<open>constraints?.maxSteps\<close> and \<open>constraints?.excludeTools\<close>.\<close>

definition maxStepsOf :: "constraints option \<Rightarrow> real option" where
  "maxStepsOf cs = (case cs of None \<Rightarrow> None | Some c \<Rightarrow> maxSteps c)"

definition excludeToolsOf :: "constraints option \<Rightarrow> string list option" where
  "excludeToolsOf cs = (case cs of None \<Rightarrow> None | Some c \<Rightarrow> excludeTools c)"

text \<open>
  The inner loop \<open>for (const depId of step.dependsOn)\<close>: the first \<open>depId\<close> that is not
  in \<open>stepIds\<close>.
\<close>

fun firstMissingDep :: "string list \<Rightarrow> string list \<Rightarrow> string option" where
  "firstMissingDep ids [] = None"
| "firstMissingDep ids (d # ds) = (if d \<in> set ids then firstMissingDep ids ds else Some d)"

text \<open>
  The outer loop \<open>for (const step of plan.steps)\<close>, guarded by \<open>if (step.dependsOn)\<close>:
  the first step with a missing dependency, and that dependency.
\<close>

fun firstInvalidDependency ::
  "string list \<Rightarrow> ('p, 'z) ToolChainStep_scheme list \<Rightarrow> (string \<times> string) option" where
  "firstInvalidDependency ids [] = None"
| "firstInvalidDependency ids (s # ss) =
     (case dependsOn s of
        None \<Rightarrow> firstInvalidDependency ids ss
      | Some deps \<Rightarrow>
          (case firstMissingDep ids deps of
             Some d \<Rightarrow> Some (stepId s, d)
           | None \<Rightarrow> firstInvalidDependency ids ss))"

text \<open>
  \<open>validatePlanSafety(plan, constraints)\<close>: \<open>Inl\<close> is the thrown error, \<open>Inr ()\<close> the normal
  return.  \<open>constraints?.maxSteps && ...\<close> is a truthiness test: an absent and a zero
  \<open>maxSteps\<close> both skip the step-count check.  An array is truthy even when empty.
\<close>

definition validatePlanSafety ::
  "('p, 'z) ToolChainPlan_scheme \<Rightarrow> constraints option \<Rightarrow> McpAdrError + unit" where
  "validatePlanSafety plan cs =
    (let n = length (steps plan);
         tooMany = (case maxStepsOf cs of
                      None \<Rightarrow> None
                    | Some m \<Rightarrow> if m \<noteq> 0 \<and> real n > m then Some m else None);
         usedExcludedTools = (case excludeToolsOf cs of
                      None \<Rightarrow> []
                    | Some ex \<Rightarrow> filter (\<lambda>s. toolName s \<in> set ex) (steps plan));
         invalidTools = filter (\<lambda>s. toolName s \<notin> set AVAILABLE_TOOLS) (steps plan);
         stepIds = map stepId (steps plan)
     in case tooMany of
          Some m \<Rightarrow> Inl (PLAN_TOO_COMPLEX n m)
        | None \<Rightarrow>
            if length usedExcludedTools > 0
            then Inl (EXCLUDED_TOOLS_USED (map toolName usedExcludedTools))
            else if length invalidTools > 0
            then Inl (UNKNOWN_TOOLS (map toolName invalidTools))
            else (case firstInvalidDependency stepIds (steps plan) of
                    Some (sid, d) \<Rightarrow> Inl (INVALID_DEPENDENCY sid d)
                  | None \<Rightarrow>
                      if confidence plan < 0.6
                      then Inl (LOW_CONFIDENCE_PLAN (confidence plan))
                      else Inr ()))"



subsection \<open>The safety rules in the words of the specification\<close>

text \<open>
  The five rules of the Plan Validator, each as a predicate on the plan and the optional
  constraints; \<open>first_violation\<close> is the code of the first rule violated in the
  fixed priority order.  Rule 1 applies when \<open>maxSteps\<close> is supplied and is not zero.
\<close>

definition rule_step_count :: "('p, 'z) ToolChainPlan_scheme \<Rightarrow> constraints option \<Rightarrow> bool" where
  "rule_step_count plan cs =
     (case maxStepsOf cs of None \<Rightarrow> False | Some m \<Rightarrow> m \<noteq> 0 \<and> real (length (steps plan)) > m)"

definition rule_excluded_tool :: "('p, 'z) ToolChainPlan_scheme \<Rightarrow> constraints option \<Rightarrow> bool" where
  "rule_excluded_tool plan cs =
     (case excludeToolsOf cs of None \<Rightarrow> False
      | Some ex \<Rightarrow> \<exists>s \<in> set (steps plan). toolName s \<in> set ex)"

definition rule_unknown_tool :: "('p, 'z) ToolChainPlan_scheme \<Rightarrow> bool" where
  "rule_unknown_tool plan = (\<exists>s \<in> set (steps plan). toolName s \<notin> set AVAILABLE_TOOLS)"

definition rule_dangling_dependency :: "('p, 'z) ToolChainPlan_scheme \<Rightarrow> bool" where
  "rule_dangling_dependency plan =
     (\<exists>s \<in> set (steps plan).
        case dependsOn s of None \<Rightarrow> False
        | Some ds \<Rightarrow> \<exists>d \<in> set ds. d \<notin> set (map stepId (steps plan)))"

definition rule_low_confidence :: "('p, 'z) ToolChainPlan_scheme \<Rightarrow> bool" where
  "rule_low_confidence plan = (confidence plan < 0.6)"

definition first_violation :: "('p, 'z) ToolChainPlan_scheme \<Rightarrow> constraints option \<Rightarrow> string option" where
  "first_violation plan cs =
     (if rule_step_count plan cs then Some ''PLAN_TOO_COMPLEX''
      else if rule_excluded_tool plan cs then Some ''EXCLUDED_TOOLS_USED''
      else if rule_unknown_tool plan then Some ''UNKNOWN_TOOLS''
      else if rule_dangling_dependency plan then Some ''INVALID_DEPENDENCY''
      else if rule_low_confidence plan then Some ''LOW_CONFIDENCE_PLAN''
      else None)"


text \<open>The \<open>code\<close> of the error a call raises, if it raises one.\<close>

definition thrownCode :: "McpAdrError + unit \<Rightarrow> string option" where
  "thrownCode r = (case r of Inl e \<Rightarrow> Some (code e) | Inr u \<Rightarrow> None)"

text \<open>Example inputs: a two-step plan, and a one-step plan under a zero step limit.\<close>

definition exampleStep1 :: "unit ToolChainStep" where
  "exampleStep1 = \<lparr>toolName = ''analyze_project_ecosystem'', parameters = (),
     description = ''Analyze the project'', dependsOn = Some [], stepId = ''step1'',
     conditional = False, retryable = True\<rparr>"

definition exampleStep2 :: "unit ToolChainStep" where
  "exampleStep2 = \<lparr>toolName = ''suggest_adrs'', parameters = (),
     description = ''Suggest ADRs'', dependsOn = Some [''step1''], stepId = ''step2'',
     conditional = False, retryable = True\<rparr>"

definition examplePlan :: "unit ToolChainPlan" where
  "examplePlan = \<lparr>planId = ''plan-1'', userIntent = ''analyze and suggest'',
     confidence = 0.9, estimatedDuration = ''2-5 minutes'',
     steps = [exampleStep1, exampleStep2], fallbackSteps = None, prerequisites = None,
     expectedOutputs = [''analysis'']\<rparr>"

definition exampleConstraints :: constraints where
  "exampleConstraints = \<lparr>maxSteps = Some 3, timeLimit = None,
     excludeTools = Some [''smart_git_push''], prioritizeSpeed = False\<rparr>"

definition oneStepPlan :: "unit ToolChainPlan" where
  "oneStepPlan = \<lparr>planId = ''plan-2'', userIntent = ''score the project'',
     confidence = 0.9, estimatedDuration = ''1 minute'',
     steps = [\<lparr>toolName = ''smart_score'', parameters = (), description = ''Score'',
       dependsOn = None, stepId = ''step1'', conditional = False, retryable = True\<rparr>],
     fallbackSteps = None, prerequisites = None, expectedOutputs = []\<rparr>"

definition zeroLimit :: constraints where
  "zeroLimit = \<lparr>maxSteps = Some 0, timeLimit = None, excludeTools = None,
     prioritizeSpeed = False\<rparr>"


subsection \<open>Arguments of the orchestrator\<close>

datatype operation =
  generate_plan | analyze_intent | suggest_tools | validate_plan | reality_check | session_guidance

record projectContext =
  projectPath :: string
  adrDirectory :: string
  todoPath :: string
  hasADRs :: "bool option"
  hasTODO :: "bool option"
  projectType :: "string option"

text \<open>The \<open>sessionContext\<close> object; every field is optional.\<close>

record sessionContext =
  conversationLength :: "real option"
  previousActions :: "string list option"
  confusionIndicators :: "string list option"
  lastSuccessfulAction :: "string option"
  stuckOnTask :: "string option"

record ToolChainOrchestratorArgs =
  operation :: operation
  userRequest :: string
  projectContext :: projectContext
  constraints :: "constraints option"
  customInstructions :: "string option"
  sessionContext :: "sessionContext option"

subsection \<open>performRealityCheck\<close>

datatype riskLevel = low | medium | high

record realityCheck =
  hallucinationRisk :: riskLevel
  confusionIndicators :: "string list"
  recommendations :: "string list"
  suggestedActions :: "string list"

text \<open>
  A value stored in \<open>toolCounts\<close>: a number, or the string that
  \<open>(acc[tool] || 0) + 1\<close> produces when \<open>acc[tool]\<close> is a member inherited from
  \<open>Object.prototype\<close> (a function or object concatenated with \<open>1\<close>).
\<close>

datatype countValue = Count nat | NotNumeric

text \<open>
  One step of the \<open>reduce\<close>: \<open>acc[tool] = (acc[tool] || 0) + 1\<close>.  A stored count is
  never zero.  Assigning a string to \<open>__proto__\<close> is ignored by its setter, so that key
  never becomes an own property.
\<close>

definition countTool :: "(string \<times> countValue) list \<Rightarrow> string \<Rightarrow> (string \<times> countValue) list" where
  "countTool acc tool =
     (case map_of acc tool of
        Some (Count n) \<Rightarrow> AList.update tool (Count (n + 1)) acc
      | Some NotNumeric \<Rightarrow> AList.update tool NotNumeric acc
      | None \<Rightarrow>
          if tool = ''__proto__'' then acc
          else if tool \<in> set objectPrototypeKeys then AList.update tool NotNumeric acc
          else AList.update tool (Count 1) acc)"

text \<open>
  \<open>count > 3\<close> on an entry of \<open>toolCounts\<close>; a non-numeric string compares as
  \<open>NaN\<close>, which is never greater.  A repeated entry keeps its tool and its count.
\<close>

definition repeatedEntry :: "string \<times> countValue \<Rightarrow> (string \<times> nat) option" where
  "repeatedEntry p =
     (case snd p of Count n \<Rightarrow> if n > 3 then Some (fst p, n) else None | NotNumeric \<Rightarrow> None)"

definition confusionKeywords :: "string list" where
  "confusionKeywords =
    [''confused'', ''not working'', ''stuck'', ''help'', ''what should'', ''don't know'',
     ''error'', ''failed'']"

text \<open>\<open>sessionCtx?.conversationLength && sessionCtx.conversationLength > 20\<close>.\<close>

definition longConversation :: "sessionContext option \<Rightarrow> bool" where
  "longConversation ctx =
     (case ctx of None \<Rightarrow> False
      | Some c \<Rightarrow> (case conversationLength c of None \<Rightarrow> False
                    | Some n \<Rightarrow> n \<noteq> 0 \<and> n > 20))"

text \<open>
  \<open>repeatedTools\<close>: the entries of \<open>toolCounts\<close> whose count exceeds 3; empty when
  \<open>previousActions\<close> is absent.
\<close>

definition repeatedTools :: "sessionContext option \<Rightarrow> (string \<times> nat) list" where
  "repeatedTools ctx =
     (case ctx of None \<Rightarrow> []
      | Some c \<Rightarrow> (case previousActions c of None \<Rightarrow> []
                    | Some acts \<Rightarrow>
                        List.map_filter repeatedEntry (objectEntries (foldl countTool [] acts))))"

definition foundKeywords :: "string \<Rightarrow> string list" where
  "foundKeywords request = filter (\<lambda>keyword. includes_str request keyword) confusionKeywords"

text \<open>\<open>sessionCtx?.stuckOnTask\<close> as a condition: present and not the empty string.\<close>

definition stuckTask :: "sessionContext option \<Rightarrow> string option" where
  "stuckTask ctx =
     (case ctx of None \<Rightarrow> None
      | Some c \<Rightarrow> (case stuckOnTask c of None \<Rightarrow> None
                    | Some t \<Rightarrow> if t \<noteq> [] then Some t else None))"

text \<open>The value of the local variable \<open>riskScore\<close> when the risk level is computed.\<close>

definition riskScore :: "('z) ToolChainOrchestratorArgs_scheme \<Rightarrow> nat" where
  "riskScore args =
     (let sessionCtx = sessionContext args;
          request = toLowerCase (userRequest args)
      in (if longConversation sessionCtx then 2 else 0)
         + length (repeatedTools sessionCtx)
         + length (foundKeywords request)
         + (if stuckTask sessionCtx \<noteq> None then 3 else 0))"

definition performRealityCheck :: "('z) ToolChainOrchestratorArgs_scheme \<Rightarrow> realityCheck" where
  "performRealityCheck args =
     (let sessionCtx = sessionContext args;
          request = toLowerCase (userRequest args);
          repeated = repeatedTools sessionCtx;
          found = foundKeywords request;
          risk = (if riskScore args \<ge> 5 then high else if riskScore args \<ge> 2 then medium else low)
      in \<lparr>hallucinationRisk = risk,
          confusionIndicators =
            (if longConversation sessionCtx
             then [''Very long conversation - potential confusion accumulation''] else [])
            @ (if length repeated > 0
               then [''Excessive repetition of tools: ''
                     @ join '', '' (map (\<lambda>(tool, count). tool @ ''('' @ digitsOf count @ ''x)'') repeated)]
               else [])
            @ (if length found > 0
               then [''Confusion keywords detected: '' @ join '', '' found] else [])
            @ (case stuckTask sessionCtx of
                 Some t \<Rightarrow> [''Stuck on task: '' @ t] | None \<Rightarrow> []),
          recommendations =
            (if longConversation sessionCtx
             then [''Consider starting fresh with human override''] else [])
            @ (if length repeated > 0
               then [''Break the repetition cycle with human override or different approach'']
               else [])
            @ (if length found > 0
               then [''LLM expressing uncertainty - human override recommended''] else [])
            @ (if stuckTask sessionCtx \<noteq> None
               then [''Use human override to force progress on stuck task''] else []),
          suggestedActions =
            (if risk = high
             then [''IMMEDIATE: Start fresh session with analyze_project_ecosystem to reload context'',
                   ''Avoid further AI planning - use predefined task patterns'',
                   ''Consider resetting the conversation context'']
             else if risk = medium
             then [''Use predefined task patterns for critical tasks'',
                   ''Limit AI planning to simple operations'',
                   ''Monitor for increasing confusion indicators'']
             else [''Continue with AI-assisted planning'',
                   ''Monitor session for confusion indicators'',
                   ''Keep human override available as backup''])\<rparr>)"

subsection \<open>fallbackIntentAnalysis\<close>

datatype complexity = simple | moderate | complex

record intentAnalysis =
  intent :: string
  category :: string
  complexity :: complexity
  suggestedTools :: "string list"
  confidence :: real

definition keywordMap :: "(string \<times> string list) list" where
  "keywordMap =
    [(''analyze'', [''analyze_project_ecosystem'', ''analyze_content_security'']),
     (''generate'', [''generate_adrs_from_prd'', ''generate_adr_todo'', ''generate_deployment_guidance'']),
     (''todo'', [''manage_todo'', ''generate_adr_todo'']),
     (''adr'', [''suggest_adrs'', ''generate_adrs_from_prd'', ''compare_adr_progress'']),
     (''deploy'', [''generate_deployment_guidance'', ''smart_git_push'']),
     (''score'', [''smart_score'']),
     (''troubleshoot'', [''troubleshoot_guided_workflow'']),
     (''security'', [''analyze_content_security'', ''security_audit''])]"

text \<open>
  The loop over \<open>Object.entries(keywordMap)\<close>: the tools of every keyword the request
  includes, in table order, duplicates kept.
\<close>

definition matchedTools :: "string \<Rightarrow> string list" where
  "matchedTools request =
     concat (map snd (filter (\<lambda>(keyword, tools). includes_str request keyword) keywordMap))"

definition fallbackIntentAnalysis :: "string \<Rightarrow> intentAnalysis" where
  "fallbackIntentAnalysis userRequest' =
     (let request = toLowerCase userRequest';
          suggested = matchedTools request;
          (cat, cpx) =
            (if includes_str request ''generate'' \<or> includes_str request ''create''
             then (''generation'', moderate)
             else if includes_str request ''troubleshoot'' \<or> includes_str request ''debug''
             then (''troubleshooting'', complex)
             else if includes_str request ''deploy'' \<or> includes_str request ''release''
             then (''deployment'', complex)
             else (''analysis'', simple))
      in \<lparr>intent = ''User wants to ''
                  @ (if includes_str request ''analyze'' then ''analyze''
                     else if includes_str request ''generate'' then ''generate'' else ''manage'')
                  @ '' project elements'',
          category = cat,
          complexity = cpx,
          suggestedTools = take 5 (newSet suggested),
          confidence = (if length suggested > 0 then 0.7 else 0.3)\<rparr>)"


subsection \<open>The risk score in the words of the specification\<close>

text \<open>A field of the optional session context (\<open>sessionCtx?.field\<close>).\<close>

definition sessionField ::
  "(sessionContext \<Rightarrow> 'a option) \<Rightarrow> ('z) ToolChainOrchestratorArgs_scheme \<Rightarrow> 'a option" where
  "sessionField f args = (case sessionContext args of None \<Rightarrow> None | Some c \<Rightarrow> f c)"

text \<open>
  The additive score: 2 for a conversation longer than 20, 1 for every distinct tool used
  more than 3 times, 1 for every confusion keyword found in the lowercased request, 3 for
  a non-empty \<open>stuckOnTask\<close>.
\<close>

definition expectedRiskScore :: "('z) ToolChainOrchestratorArgs_scheme \<Rightarrow> nat" where
  "expectedRiskScore args =
     (case sessionField conversationLength args of
        Some n \<Rightarrow> if n > 20 then 2 else 0 | None \<Rightarrow> 0)
     + (case sessionField previousActions args of
        Some acts \<Rightarrow> card {t \<in> set acts. 3 < count_list acts t} | None \<Rightarrow> 0)
     + card {k \<in> set confusionKeywords. includes_str (toLowerCase (userRequest args)) k}
     + (case sessionField stuckOnTask args of
        Some t \<Rightarrow> if t \<noteq> [] then 3 else 0 | None \<Rightarrow> 0)"

text \<open>
  The invariant of the \<open>reduce\<close> over \<open>previousActions\<close>: after the actions \<open>xs\<close> the
  accumulator has one entry per tool, holding the number of its occurrences.
\<close>

definition countsFor :: "(string \<times> countValue) list \<Rightarrow> string list \<Rightarrow> bool" where
  "countsFor acc xs \<longleftrightarrow>
     distinct (map fst acc) \<and> fst ` set acc = set xs
     \<and> (\<forall>t \<in> set xs. map_of acc t = Some (Count (count_list xs t)))"

text \<open>Example arguments for the reality check.\<close>

definition exampleProject :: projectContext where
  "exampleProject = \<lparr>projectPath = ''/project'', adrDirectory = ''docs/adrs'',
     todoPath = ''TODO.md'', hasADRs = None, hasTODO = None, projectType = None\<rparr>"

definition realityArgs ::
  "string \<Rightarrow> real option \<Rightarrow> string list option \<Rightarrow> string option \<Rightarrow> ToolChainOrchestratorArgs" where
  "realityArgs request len acts stuck =
     \<lparr>operation = reality_check, userRequest = request, projectContext = exampleProject,
      constraints = None, customInstructions = None,
      sessionContext = Some \<lparr>conversationLength = len, previousActions = acts,
        sessionContext.confusionIndicators = None, lastSuccessfulAction = None,
        stuckOnTask = stuck\<rparr>\<rparr>"


section \<open>AI configuration\<close>

text \<open>
  \<open>AIConfig\<close>.  \<open>provider\<close> and \<open>executionMode\<close> are the strings read from the
  environment (the casts do not check them).  Counts and durations are integers.
\<close>

record AIConfig =
  provider :: string
  apiKey :: string
  baseURL :: string
  defaultModel :: string
  executionMode :: string
  siteUrl :: "string option"
  siteName :: "string option"
  timeout :: int
  maxRetries :: int
  temperature :: jsnumber
  maxTokens :: int
  cacheEnabled :: bool
  cacheTTL :: int
  azureEndpoint :: "string option"
  azureDeployment :: "string option"
  azureApiVersion :: "string option"

record ModelConfig =
  modelId :: string
  name :: string
  modelProvider :: string
  inputCost :: real
  outputCost :: real
  contextLength :: nat
  useCases :: "string list"

text \<open>\<open>AVAILABLE_MODELS\<close>, in the order of its keys.\<close>

definition AVAILABLE_MODELS :: "(string \<times> ModelConfig) list" where
  "AVAILABLE_MODELS =
    [(''claude-3-sonnet'',
        \<lparr>modelId = ''anthropic/claude-3-sonnet'', name = ''Claude 3 Sonnet'',
         modelProvider = ''anthropic'', inputCost = 3, outputCost = 15,
         contextLength = 200000, useCases = [''analysis'', ''reasoning'', ''code-generation'']\<rparr>),
     (''claude-3-haiku'',
        \<lparr>modelId = ''anthropic/claude-3-haiku'', name = ''Claude 3 Haiku'',
         modelProvider = ''anthropic'', inputCost = 0.25, outputCost = 1.25,
         contextLength = 200000, useCases = [''quick-analysis'', ''simple-tasks'']\<rparr>),
     (''gpt-4o'',
        \<lparr>modelId = ''openai/gpt-4o'', name = ''GPT-4 Omni'',
         modelProvider = ''openai'', inputCost = 5, outputCost = 15,
         contextLength = 128000, useCases = [''analysis'', ''reasoning'', ''creative-tasks'']\<rparr>),
     (''gpt-4o-mini'',
        \<lparr>modelId = ''openai/gpt-4o-mini'', name = ''GPT-4 Omni Mini'',
         modelProvider = ''openai'', inputCost = 0.15, outputCost = 0.6,
         contextLength = 128000,
         useCases = [''quick-analysis'', ''simple-tasks'', ''cost-effective'']\<rparr>)]"

text \<open>\<open>DEFAULT_AI_CONFIG\<close>; three of its strings are named, for use as defaults.\<close>

definition defaultSiteUrl :: string where
  "defaultSiteUrl = ''https://github.com/tosin2013/mcp-adr-analysis-server''"

definition defaultSiteName :: string where
  "defaultSiteName = ''MCP ADR Analysis Server''"

definition defaultAzureApiVersion :: string where
  "defaultAzureApiVersion = ''2024-08-01-preview''"

definition DEFAULT_AI_CONFIG :: AIConfig where
  "DEFAULT_AI_CONFIG =
    \<lparr>provider = ''openrouter'', apiKey = '''', baseURL = ''https://openrouter.ai/api/v1'',
     defaultModel = ''anthropic/claude-3-sonnet'', executionMode = ''full'',
     siteUrl = Some defaultSiteUrl,
     siteName = Some defaultSiteName,
     timeout = 60000, maxRetries = 3, temperature = Num 0.1, maxTokens = 4000,
     cacheEnabled = True, cacheTTL = 3600,
     azureEndpoint = None, azureDeployment = None,
     azureApiVersion = Some defaultAzureApiVersion\<rparr>"

text \<open>\<open>process.env\<close>.\<close>

type_synonym env = "string \<rightharpoonup> string"

text \<open>\<open>parseInt(process.env[k] || '') || d\<close>: \<open>NaN\<close> and zero both give the default.\<close>

definition intSetting :: "env \<Rightarrow> string \<Rightarrow> int \<Rightarrow> int" where
  "intSetting e k d =
     (case parseInt (orElse (e k) '''') of
        None \<Rightarrow> d
      | Some v \<Rightarrow> if v \<noteq> 0 then v else d)"

text \<open>\<open>parseFloat(process.env[k] || '') || d\<close>.\<close>

definition floatSetting :: "env \<Rightarrow> string \<Rightarrow> jsnumber \<Rightarrow> jsnumber" where
  "floatSetting e k d =
     (let v = parseFloat (orElse (e k) '''') in if truthyNumber v then v else d)"

text \<open>\<open>s.replace(/\/$/, '')\<close>: one trailing slash is removed.\<close>

definition stripTrailingSlash :: "string \<Rightarrow> string" where
  "stripTrailingSlash s = (if s \<noteq> [] \<and> last s = CHR ''/'' then butlast s else s)"

text \<open>An optional property that is present only for a non-empty value.\<close>

definition whenNonEmpty :: "string \<Rightarrow> string option" where
  "whenNonEmpty s = (if s \<noteq> [] then Some s else None)"

text \<open>
  \<open>validateProviderConfig\<close>: \<open>Inl\<close> is the thrown \<open>Error\<close>.  A field is missing when it
  is undefined or the empty string.
\<close>

definition validateProviderConfig :: "AIConfig \<Rightarrow> jsError + unit" where
  "validateProviderConfig config =
     (if executionMode config \<noteq> ''full'' then Inr ()
      else if provider config = ''azure'' then
        (let missingAzureVars =
               (if orElse (azureEndpoint config) '''' = [] then [''AZURE_OPENAI_ENDPOINT''] else [])
               @ (if apiKey config = [] then [''AZURE_OPENAI_API_KEY''] else [])
               @ (if orElse (azureDeployment config) '''' = [] then [''AZURE_OPENAI_DEPLOYMENT'']
                  else [])
         in if length missingAzureVars > 0
            then Inl (newError
              (''Azure AI Foundry requires the following environment variables: ''
               @ join '', '' missingAzureVars @ ''. ''
               @ ''Set AI_PROVIDER=openrouter or AI_PROVIDER=openai to use a different provider, ''
               @ ''or set EXECUTION_MODE=prompt-only to disable AI execution.''))
            else Inr ())
      else if provider config = ''openai'' then
        (if apiKey config = []
         then Inl (newError
           (''OpenAI requires OPENAI_API_KEY environment variable. ''
            @ ''Set AI_PROVIDER=openrouter or AI_PROVIDER=azure to use a different provider, ''
            @ ''or set EXECUTION_MODE=prompt-only to disable AI execution.''))
         else Inr ())
      else
        (if apiKey config = []
         then Inl (newError
           (''OpenRouter requires OPENROUTER_API_KEY environment variable. ''
            @ ''Get your API key at https://openrouter.ai/keys. ''
            @ ''Set AI_PROVIDER=azure or AI_PROVIDER=openai to use a different provider, ''
            @ ''or set EXECUTION_MODE=prompt-only to disable AI execution.''))
         else Inr ()))"

text \<open>
  The configuration object that \<open>loadAIConfig\<close> builds from the environment, before it
  is validated.
\<close>

definition configFromEnv :: "env \<Rightarrow> AIConfig" where
  "configFromEnv e =
     (let provider' = orElse (e ''AI_PROVIDER'') ''openrouter'';
          azureEndpoint' = orElse (e ''AZURE_OPENAI_ENDPOINT'') '''';
          azureDeployment' = orElse (e ''AZURE_OPENAI_DEPLOYMENT'') '''';
          (apiKey', baseURL', defaultModel') =
            (if provider' = ''azure'' then
               (orElse (e ''AZURE_OPENAI_API_KEY'') '''',
                (if azureEndpoint' \<noteq> []
                 then stripTrailingSlash azureEndpoint' @ ''/openai/deployments/'' @ azureDeployment'
                 else ''''),
                (if azureDeployment' \<noteq> [] then azureDeployment'
                 else orElse (e ''AI_MODEL'') ''gpt-4''))
             else if provider' = ''openai'' then
               (orElse (e ''OPENAI_API_KEY'') '''', ''https://api.openai.com/v1'',
                orElse (e ''AI_MODEL'') ''gpt-4o'')
             else
               (orElse (e ''OPENROUTER_API_KEY'') '''', ''https://openrouter.ai/api/v1'',
                orElse (e ''AI_MODEL'') (defaultModel DEFAULT_AI_CONFIG)))
      in \<lparr>provider = provider',
          apiKey = apiKey',
          baseURL = baseURL',
          defaultModel = defaultModel',
          executionMode = orElse (e ''EXECUTION_MODE'') (executionMode DEFAULT_AI_CONFIG),
          siteUrl = Some (orElse (e ''SITE_URL'') defaultSiteUrl),
          siteName = Some (orElse (e ''SITE_NAME'') defaultSiteName),
          timeout = intSetting e ''AI_TIMEOUT'' (timeout DEFAULT_AI_CONFIG),
          maxRetries = intSetting e ''AI_MAX_RETRIES'' (maxRetries DEFAULT_AI_CONFIG),
          temperature = floatSetting e ''AI_TEMPERATURE'' (temperature DEFAULT_AI_CONFIG),
          maxTokens = intSetting e ''AI_MAX_TOKENS'' (maxTokens DEFAULT_AI_CONFIG),
          cacheEnabled = (e ''AI_CACHE_ENABLED'' \<noteq> Some ''false''),
          cacheTTL = intSetting e ''AI_CACHE_TTL'' (cacheTTL DEFAULT_AI_CONFIG),
          azureEndpoint = (if provider' = ''azure'' then whenNonEmpty azureEndpoint' else None),
          azureDeployment = (if provider' = ''azure'' then whenNonEmpty azureDeployment' else None),
          azureApiVersion =
            (if provider' = ''azure''
             then Some (orElse (e ''AZURE_OPENAI_API_VERSION'') defaultAzureApiVersion)
             else None)\<rparr>)"

text \<open>\<open>loadAIConfig()\<close>: the configuration, or the error of \<open>validateProviderConfig\<close>.\<close>

definition loadAIConfig :: "env \<Rightarrow> jsError + AIConfig" where
  "loadAIConfig e =
     (let config = configFromEnv e
      in case validateProviderConfig config of
           Inl err \<Rightarrow> Inl err
         | Inr u \<Rightarrow> Inr config)"

text \<open>
  \<open>validateAIConfig\<close>; the warning about an unknown model is console output and is not
  modelled.
\<close>

definition validateAIConfig :: "AIConfig \<Rightarrow> jsError + unit" where
  "validateAIConfig config =
     (if lessNumber (temperature config) (Num 0) \<or> lessNumber (Num 1) (temperature config)
      then Inl (newError ''Temperature must be between 0 and 1'')
      else if maxTokens config < 100 \<or> maxTokens config > 8000
      then Inl (newError ''Max tokens must be between 100 and 8000'')
      else if timeout config < 1000 \<or> timeout config > 300000
      then Inl (newError ''Timeout must be between 1000ms and 300000ms'')
      else Inr ())"

definition isAIExecutionEnabled :: "AIConfig \<Rightarrow> bool" where
  "isAIExecutionEnabled config = (executionMode config = ''full'' \<and> apiKey config \<noteq> [])"

text \<open>
  \<open>getRecommendedModel(useCase, costSensitive)\<close>; \<open>Array.prototype.sort\<close> is stable, as
  \<open>sort_key\<close> is.
\<close>

definition getRecommendedModel :: "string \<Rightarrow> bool \<Rightarrow> string" where
  "getRecommendedModel useCase costSensitive =
     (let models = map snd AVAILABLE_MODELS;
          suitableModels =
            filter (\<lambda>m. useCase \<in> set (useCases m) \<or> ''analysis'' \<in> set (useCases m)) models;
          sorted = (if costSensitive
                    then sort_key (\<lambda>m. inputCost m + outputCost m) suitableModels
                    else suitableModels)
      in case sorted of
           [] \<Rightarrow> defaultModel DEFAULT_AI_CONFIG
         | m # ms \<Rightarrow> modelId m)"


subsection \<open>Required fields in the words of the specification\<close>

text \<open>
  The required fields of the active provider, each with the environment variable that
  supplies it and its value in the configuration (empty when undefined); the missing ones
  are those whose value is empty.
\<close>

definition requiredFields :: "AIConfig \<Rightarrow> (string \<times> string) list" where
  "requiredFields config =
     (if provider config = ''azure''
      then [(''AZURE_OPENAI_ENDPOINT'', orElse (azureEndpoint config) ''''),
            (''AZURE_OPENAI_API_KEY'', apiKey config),
            (''AZURE_OPENAI_DEPLOYMENT'', orElse (azureDeployment config) '''')]
      else if provider config = ''openai'' then [(''OPENAI_API_KEY'', apiKey config)]
      else [(''OPENROUTER_API_KEY'', apiKey config)])"

definition missingFields :: "AIConfig \<Rightarrow> string list" where
  "missingFields config = map fst (filter (\<lambda>p. snd p = []) (requiredFields config))"

definition providerTitle :: "AIConfig \<Rightarrow> string" where
  "providerTitle config =
     (if provider config = ''azure'' then ''Azure AI Foundry''
      else if provider config = ''openai'' then ''OpenAI'' else ''OpenRouter'')"

text \<open>The environment variables a provider requires.\<close>

definition requiredEnv :: "string \<Rightarrow> string list" where
  "requiredEnv p =
     (if p = ''azure''
      then [''AZURE_OPENAI_ENDPOINT'', ''AZURE_OPENAI_API_KEY'', ''AZURE_OPENAI_DEPLOYMENT'']
      else if p = ''openai'' then [''OPENAI_API_KEY''] else [''OPENROUTER_API_KEY''])"

text \<open>Example environments.\<close>

definition azureNoCredentials :: env where
  "azureNoCredentials = [''AI_PROVIDER'' \<mapsto> ''azure'', ''AZURE_OPENAI_API_KEY'' \<mapsto> ''key'']"

definition zeroSettings :: env where
  "zeroSettings = [''OPENROUTER_API_KEY'' \<mapsto> ''key'', ''AI_TEMPERATURE'' \<mapsto> ''0'',
     ''AI_MAX_RETRIES'' \<mapsto> ''0'']"


section \<open>AI executor\<close>

subsection \<open>Results, requests and the world outside the executor\<close>

record tokenUsage =
  promptTokens :: int
  completionTokens :: int
  totalTokens :: int

text \<open>
  The \<open>metadata\<close> of a result; \<open>timestamp\<close> keeps the clock reading that
  \<open>new Date().toISOString()\<close> formats.
\<close>

record resultMetadata =
  executionTime :: int
  cached :: bool
  retryCount :: nat
  timestamp :: int

record AIExecutionResult =
  content :: string
  model :: string
  usage :: "tokenUsage option"
  metadata :: resultMetadata

text \<open>The \<open>options\<close> argument of \<open>executePrompt\<close>.\<close>

record promptOptions =
  model :: "string option"
  temperature :: "jsnumber option"
  maxTokens :: "int option"
  systemPrompt :: "string option"

text \<open>The body of a chat-completion request: \<open>messages\<close> are pairs of role and content.\<close>

record chatRequest =
  requestModel :: string
  messages :: "(string \<times> string) list"
  requestTemperature :: jsnumber
  max_tokens :: int

text \<open>
  What the executor reads of a completion: \<open>choices[0]?.message?.content\<close>,
  \<open>model\<close> and \<open>usage\<close>.
\<close>

record completion =
  choiceContent :: "string option"
  completionModel :: string
  completionUsage :: "tokenUsage option"

text \<open>What the executor does to the outside, in order: a provider call or a timed wait.\<close>

datatype event = Call chatRequest | Sleep int

text \<open>
  The world outside the executor.  \<open>processEnv\<close> is \<open>process.env\<close>.  \<open>clock\<close> gives the
  successive readings of \<open>Date.now()\<close> and \<open>ticks\<close> counts the readings taken.
  \<open>respond n request\<close> is the outcome of the provider call number \<open>n\<close>: a completion, or
  the error thrown inside the \<open>try\<close> block.  \<open>trace\<close> records the calls and waits made so
  far.  \<open>numberToString\<close> is the text \<open>JSON.stringify\<close> prints for a finite number.
\<close>

record world =
  processEnv :: env
  clock :: "nat \<Rightarrow> int"
  ticks :: nat
  respond :: "nat \<Rightarrow> chatRequest \<Rightarrow> jsError + completion"
  trace :: "event list"
  numberToString :: "real \<Rightarrow> string"

text \<open>\<open>Date.now()\<close>: the next reading of the clock.\<close>

definition dateNow :: "world \<Rightarrow> int \<times> world" where
  "dateNow w = (clock w (ticks w), w\<lparr>ticks := ticks w + 1\<rparr>)"

text \<open>The number of provider calls in a trace.\<close>

fun isCall :: "event \<Rightarrow> bool" where
  "isCall (Call r) = True"
| "isCall (Sleep d) = False"

definition callCount :: "world \<Rightarrow> nat" where
  "callCount w = length (filter isCall (trace w))"

text \<open>
  \<open>await this.client.chat.completions.create(request)\<close>: the call is recorded and its
  outcome is the one the world holds for this call number.
\<close>

definition createCompletion :: "world \<Rightarrow> chatRequest \<Rightarrow> (jsError + completion) \<times> world" where
  "createCompletion w request =
     (respond w (callCount w) request, w\<lparr>trace := trace w @ [Call request]\<rparr>)"

text \<open>\<open>await new Promise(resolve => setTimeout(resolve, delay))\<close>.\<close>

definition sleep :: "world \<Rightarrow> int \<Rightarrow> world" where
  "sleep w delay = w\<lparr>trace := trace w @ [Sleep delay]\<rparr>"

subsection \<open>The executor object\<close>

text \<open>The provider client, with the options it was constructed from.\<close>

datatype client =
    AzureOpenAIClient "string option" string string "string option" int int
  | OpenAIClient "string option" string int int "(string \<times> string) list"

record cacheEntry =
  result :: AIExecutionResult
  expiry :: int

text \<open>
  The fields of \<open>AIExecutor\<close>.  The \<open>Map\<close> is an association list in insertion order;
  \<open>set\<close> on a present key replaces the value in place, as \<open>AList.update\<close> does.
\<close>

record AIExecutor =
  client :: "client option"
  config :: AIConfig
  cache :: "(string \<times> cacheEntry) list"

text \<open>\<open>createError(message, code, retryable, originalError)\<close>.\<close>

definition createError :: "string \<Rightarrow> string \<Rightarrow> bool \<Rightarrow> jsError option \<Rightarrow> jsError" where
  "createError msg c r orig = JsError ''Error'' msg (Some c) (Some r) orig"

text \<open>
  \<open>initializeClient\<close>: nothing changes when execution is disabled; a failed validation
  is caught and clears the client; otherwise the client of the provider is constructed.
\<close>

definition initializeClient :: "AIExecutor \<Rightarrow> AIExecutor" where
  "initializeClient ex =
     (let c = config ex
      in if \<not> isAIExecutionEnabled c then ex
         else (case validateAIConfig c of
                 Inl err \<Rightarrow> ex\<lparr>client := None\<rparr>
               | Inr u \<Rightarrow>
                   if provider c = ''azure''
                   then ex\<lparr>client := Some (AzureOpenAIClient (azureEndpoint c) (apiKey c)
                          (orElse (azureApiVersion c) ''2024-08-01-preview'') (azureDeployment c)
                          (timeout c) (maxRetries c))\<rparr>
                   else if provider c = ''openai''
                   then ex\<lparr>client := Some (OpenAIClient None (apiKey c) (timeout c)
                          (maxRetries c) [])\<rparr>
                   else ex\<lparr>client := Some (OpenAIClient (Some (baseURL c)) (apiKey c)
                          (timeout c) (maxRetries c)
                          [(''HTTP-Referer'', orElse (siteUrl c) ''''),
                           (''X-Title'', orElse (siteName c) '''')])\<rparr>))"

text \<open>\<open>new AIExecutor(config)\<close> with a given configuration.\<close>

definition newAIExecutor :: "AIConfig \<Rightarrow> AIExecutor" where
  "newAIExecutor c = initializeClient \<lparr>client = None, config = c, cache = []\<rparr>"

text \<open>
  \<open>updateConfig(newConfig)\<close>: the partial configuration overrides fields of the current
  one, which is the effect of a function on configurations.
\<close>

definition updateConfig :: "AIExecutor \<Rightarrow> (AIConfig \<Rightarrow> AIConfig) \<Rightarrow> AIExecutor" where
  "updateConfig ex newConfig = initializeClient (ex\<lparr>config := newConfig (config ex)\<rparr>)"

text \<open>
  \<open>reloadConfigIfNeeded\<close>: \<open>loadAIConfig\<close> may throw; the configuration is replaced and
  the client reinitialized only when the key, the mode or the default model changed.
\<close>

definition reloadConfigIfNeeded :: "world \<Rightarrow> AIExecutor \<Rightarrow> jsError + AIExecutor" where
  "reloadConfigIfNeeded w ex =
     (case loadAIConfig (processEnv w) of
        Inl err \<Rightarrow> Inl err
      | Inr currentConfig \<Rightarrow>
          if apiKey (config ex) \<noteq> apiKey currentConfig
             \<or> executionMode (config ex) \<noteq> executionMode currentConfig
             \<or> defaultModel (config ex) \<noteq> defaultModel currentConfig
          then Inr (initializeClient (ex\<lparr>config := currentConfig\<rparr>))
          else Inr ex)"

definition isAvailable :: "world \<Rightarrow> AIExecutor \<Rightarrow> jsError + (bool \<times> AIExecutor)" where
  "isAvailable w ex =
     (case reloadConfigIfNeeded w ex of
        Inl err \<Rightarrow> Inl err
      | Inr ex' \<Rightarrow> Inr (client ex' \<noteq> None \<and> isAIExecutionEnabled (config ex'), ex'))"

subsection \<open>The cache key\<close>

text \<open>Two lowercase hexadecimal digits of a byte.\<close>

definition hexDigit :: "nat \<Rightarrow> char" where
  "hexDigit n = (if n < 10 then char_of (48 + n) else char_of (87 + n))"

text \<open>
  \<open>JSON.stringify\<close> of a string: quotes around the characters, with the quote, the
  backslash and the control characters escaped.
\<close>

definition escapeChar :: "char \<Rightarrow> string" where
  "escapeChar c =
     (let n = (of_char c :: nat)
      in if n = 34 then [CHR 0x5C, CHR 0x22]
         else if n = 92 then [CHR 0x5C, CHR 0x5C]
         else if n = 8 then [CHR 0x5C, CHR ''b'']
         else if n = 12 then [CHR 0x5C, CHR ''f'']
         else if n = 10 then [CHR 0x5C, CHR ''n'']
         else if n = 13 then [CHR 0x5C, CHR ''r'']
         else if n = 9 then [CHR 0x5C, CHR ''t'']
         else if n < 32 then [CHR 0x5C, CHR ''u'', CHR ''0'', CHR ''0'',
                              hexDigit (n div 16), hexDigit (n mod 16)]
         else [c])"

definition quoteJSONString :: "string \<Rightarrow> string" where
  "quoteJSONString s = [CHR 0x22] @ concat (map escapeChar s) @ [CHR 0x22]"

text \<open>\<open>JSON.stringify\<close> of a number: \<open>null\<close> unless it is finite.\<close>

definition stringifyNumber :: "(real \<Rightarrow> string) \<Rightarrow> jsnumber \<Rightarrow> string" where
  "stringifyNumber toStr n = (case n of Num r \<Rightarrow> toStr r | _ \<Rightarrow> ''null'')"

text \<open>A decimal integer with its sign.\<close>

definition showInt :: "int \<Rightarrow> string" where
  "showInt i = (if i < 0 then ''-'' @ digitsOf (nat (- i)) else digitsOf (nat i))"

text \<open>
  \<open>JSON.stringify(options)\<close>: the defined properties, here in the order \<open>model\<close>,
  \<open>temperature\<close>, \<open>maxTokens\<close>, \<open>systemPrompt\<close>; undefined properties are left out.
\<close>

definition stringifyOptions :: "(real \<Rightarrow> string) \<Rightarrow> promptOptions \<Rightarrow> string" where
  "stringifyOptions toStr options =
     ''{'' @ join '',''
       ((case promptOptions.model options of
           Some m \<Rightarrow> [quoteJSONString ''model'' @ '':'' @ quoteJSONString m] | None \<Rightarrow> [])
        @ (case promptOptions.temperature options of
           Some t \<Rightarrow> [quoteJSONString ''temperature'' @ '':'' @ stringifyNumber toStr t]
         | None \<Rightarrow> [])
        @ (case promptOptions.maxTokens options of
           Some n \<Rightarrow> [quoteJSONString ''maxTokens'' @ '':'' @ showInt n] | None \<Rightarrow> [])
        @ (case systemPrompt options of
           Some p \<Rightarrow> [quoteJSONString ''systemPrompt'' @ '':'' @ quoteJSONString p] | None \<Rightarrow> []))
     @ ''}''"

text \<open>\<open>Buffer.from(s)\<close>: the UTF-8 bytes of the text.\<close>

definition utf8 :: "string \<Rightarrow> nat list" where
  "utf8 s = concat (map (\<lambda>c. let n = (of_char c :: nat)
                              in if n < 128 then [n] else [192 + n div 64, 128 + n mod 64]) s)"

definition base64Alphabet :: string where
  "base64Alphabet = ''ABCDEFGHIJKLMNOPQRSTUVWXYZabcdefghijklmnopqrstuvwxyz0123456789+/''"

definition base64Char :: "nat \<Rightarrow> char" where
  "base64Char n = base64Alphabet ! n"

text \<open>\<open>toString('base64')\<close>: three bytes give four characters, with \<open>=\<close> padding.\<close>

fun base64 :: "nat list \<Rightarrow> string" where
  "base64 [] = []"
| "base64 [a] = [base64Char (a div 4), base64Char ((a mod 4) * 16), CHR ''='', CHR ''='']"
| "base64 [a, b] =
     [base64Char (a div 4), base64Char ((a mod 4) * 16 + b div 16),
      base64Char ((b mod 16) * 4), CHR ''='']"
| "base64 (a # b # c # bs) =
     [base64Char (a div 4), base64Char ((a mod 4) * 16 + b div 16),
      base64Char ((b mod 16) * 4 + c div 64), base64Char (c mod 64)] @ base64 bs"

text \<open>\<open>generateCacheKey(prompt, model, options)\<close>.\<close>

definition generateCacheKey :: "(real \<Rightarrow> string) \<Rightarrow> string \<Rightarrow> string \<Rightarrow> promptOptions \<Rightarrow> string" where
  "generateCacheKey toStr prompt model' options =
     (let key = ''{'' @ quoteJSONString ''prompt'' @ '':'' @ quoteJSONString prompt
                @ '','' @ quoteJSONString ''model'' @ '':'' @ quoteJSONString model'
                @ '','' @ quoteJSONString ''options'' @ '':'' @ stringifyOptions toStr options
                @ ''}''
      in take 32 (base64 (utf8 key)))"

subsection \<open>The cache\<close>

text \<open>
  \<open>getCachedResult\<close>: the clock is read only when the key is present; an expired entry
  is deleted; a live one is returned as a copy marked \<open>cached\<close>.
\<close>

definition getCachedResult ::
  "world \<Rightarrow> AIExecutor \<Rightarrow> string \<Rightarrow> AIExecutionResult option \<times> world \<times> AIExecutor" where
  "getCachedResult w ex cacheKey =
     (case map_of (cache ex) cacheKey of
        None \<Rightarrow> (None, w, ex)
      | Some entry \<Rightarrow>
          (let (now, w') = dateNow w
           in if now > expiry entry
              then (None, w', ex\<lparr>cache := AList.delete cacheKey (cache ex)\<rparr>)
              else (Some ((result entry)\<lparr>metadata := (metadata (result entry))\<lparr>cached := True\<rparr>\<rparr>),
                    w', ex)))"

text \<open>\<open>cleanupCache\<close>: every entry whose expiry lies before the reading is deleted.\<close>

definition cleanupCache :: "world \<Rightarrow> AIExecutor \<Rightarrow> world \<times> AIExecutor" where
  "cleanupCache w ex =
     (let (now, w') = dateNow w
      in (w', ex\<lparr>cache := filter (\<lambda>(key, value). \<not> now > expiry value) (cache ex)\<rparr>))"

definition setCachedResult ::
  "world \<Rightarrow> AIExecutor \<Rightarrow> string \<Rightarrow> AIExecutionResult \<Rightarrow> world \<times> AIExecutor" where
  "setCachedResult w ex cacheKey res =
     (let (now, w') = dateNow w;
          expiry' = now + cacheTTL (config ex) * 1000;
          ex' = ex\<lparr>cache := AList.update cacheKey \<lparr>result = res, expiry = expiry'\<rparr> (cache ex)\<rparr>
      in if length (cache ex') > 100 then cleanupCache w' ex' else (w', ex'))"

definition clearCache :: "AIExecutor \<Rightarrow> AIExecutor" where
  "clearCache ex = ex\<lparr>cache := []\<rparr>"

subsection \<open>executePrompt\<close>

text \<open>The request of one attempt.\<close>

definition buildRequest :: "AIExecutor \<Rightarrow> string \<Rightarrow> string \<Rightarrow> promptOptions \<Rightarrow> chatRequest" where
  "buildRequest ex prompt model' options =
     \<lparr>requestModel = model',
      messages =
        (case systemPrompt options of
           None \<Rightarrow> []
         | Some p \<Rightarrow> if p \<noteq> [] then [(''system'', p)] else [])
        @ [(''user'', prompt)],
      requestTemperature =
        (case promptOptions.temperature options of
           Some t \<Rightarrow> t | None \<Rightarrow> AIConfig.temperature (config ex)),
      max_tokens =
        (case promptOptions.maxTokens options of
           Some n \<Rightarrow> n | None \<Rightarrow> AIConfig.maxTokens (config ex))\<rparr>"

text \<open>\<open>Math.min(1000 * Math.pow(2, retryCount - 1), 10000)\<close>.\<close>

definition backoffDelay :: "nat \<Rightarrow> int" where
  "backoffDelay retryCount' = min (1000 * 2 ^ (retryCount' - 1)) 10000"

text \<open>
  The loop \<open>while (retryCount <= maxRetries)\<close> from the state in which \<open>retryCount\<close>
  attempts have failed, and the \<open>throw\<close> that follows the loop.
\<close>

function attemptLoop ::
  "world \<Rightarrow> AIExecutor \<Rightarrow> string \<Rightarrow> string \<Rightarrow> promptOptions \<Rightarrow> string \<Rightarrow> int \<Rightarrow> nat
   \<Rightarrow> (jsError + AIExecutionResult) \<times> world \<times> AIExecutor" where
  "attemptLoop w ex prompt model' options cacheKey startTime retryCount' =
     (let maxRetries' = maxRetries (config ex)
      in if int retryCount' \<le> maxRetries' then
           (case createCompletion w (buildRequest ex prompt model' options) of
              (Inr completion', w1) \<Rightarrow>
                (let (t1, w2) = dateNow w1;
                     (t2, w3) = dateNow w2;
                     res = \<lparr>content = orElse (choiceContent completion') '''',
                            AIExecutionResult.model = completionModel completion',
                            usage = completionUsage completion',
                            metadata = \<lparr>executionTime = t1 - startTime, cached = False,
                                        retryCount = retryCount', timestamp = t2\<rparr>\<rparr>;
                     (w4, ex') = (if cacheEnabled (config ex)
                                  then setCachedResult w3 ex cacheKey res else (w3, ex))
                 in (Inr res, w4, ex'))
            | (Inl error, w1) \<Rightarrow>
                if int (retryCount' + 1) > maxRetries'
                then (Inl (createError
                             (''AI execution failed after '' @ showInt maxRetries'
                              @ '' retries: '' @ errorToString error)
                             ''AI_EXECUTION_FAILED'' False (Some error)),
                      w1, ex)
                else attemptLoop (sleep w1 (backoffDelay (retryCount' + 1))) ex prompt model'
                       options cacheKey startTime (retryCount' + 1))
         else (Inl (createError ''Unexpected error in AI execution'' ''AI_UNEXPECTED_ERROR''
                      False None),
               w, ex))"
  by pat_completeness auto
termination
  by (relation "measure (\<lambda>(w, ex, prompt, model', options, cacheKey, startTime, retryCount').
        nat (maxRetries (config ex) + 1 - int retryCount'))") auto

declare attemptLoop.simps [simp del]

text \<open>
  \<open>executePrompt(prompt, options)\<close>.  An error of \<open>loadAIConfig\<close> propagates; an executor
  that is not available throws \<open>AI_UNAVAILABLE\<close>; a cache hit returns before any attempt.
\<close>

definition executePrompt ::
  "world \<Rightarrow> AIExecutor \<Rightarrow> string \<Rightarrow> promptOptions
   \<Rightarrow> (jsError + AIExecutionResult) \<times> world \<times> AIExecutor" where
  "executePrompt w ex prompt options =
     (case reloadConfigIfNeeded w ex of
        Inl err \<Rightarrow> (Inl err, w, ex)
      | Inr ex1 \<Rightarrow>
          (case isAvailable w ex1 of
             Inl err \<Rightarrow> (Inl err, w, ex1)
           | Inr (available, ex2) \<Rightarrow>
               if \<not> available
               then (Inl (createError ''AI execution not available - check configuration''
                            ''AI_UNAVAILABLE'' False None),
                     w, ex2)
               else
                 (let (startTime, w1) = dateNow w;
                      model' = orElse (promptOptions.model options) (defaultModel (config ex2));
                      cacheKey = generateCacheKey (numberToString w) prompt model' options
                  in if cacheEnabled (config ex2)
                     then (case getCachedResult w1 ex2 cacheKey of
                             (Some cached', w2, ex3) \<Rightarrow> (Inr cached', w2, ex3)
                           | (None, w2, ex3) \<Rightarrow>
                               attemptLoop w2 ex3 prompt model' options cacheKey startTime 0)
                     else attemptLoop w1 ex2 prompt model' options cacheKey startTime 0)))"


subsection \<open>Expected behaviour of a failing execution, and example worlds\<close>

text \<open>
  What a continuously failing execution with \<open>n\<close> retries does to the outside: the first
  attempt, then for each retry \<open>k = 1..n\<close> a wait of \<open>min(1000 * 2^(k-1), 10000)\<close>
  milliseconds followed by the next attempt.
\<close>

definition failingTrace :: "chatRequest \<Rightarrow> nat \<Rightarrow> event list" where
  "failingTrace request n =
     Call request
     # concat (map (\<lambda>k. [Sleep (min (1000 * 2 ^ (k - 1)) 10000), Call request]) [1..<Suc n])"

text \<open>The part of \<open>failingTrace\<close> that remains after \<open>r\<close> failed attempts and their waits.\<close>

definition remainingTrace :: "chatRequest \<Rightarrow> nat \<Rightarrow> nat \<Rightarrow> event list" where
  "remainingTrace request r n =
     Call request
     # concat (map (\<lambda>k. [Sleep (backoffDelay k), Call request]) [Suc r..<Suc n])"

text \<open>The waits in a trace.\<close>

fun sleepsOf :: "event list \<Rightarrow> int list" where
  "sleepsOf [] = []"
| "sleepsOf (Call r # es) = sleepsOf es"
| "sleepsOf (Sleep d # es) = d # sleepsOf es"

text \<open>
  Example worlds: an environment with an OpenRouter key, a clock that advances by one
  millisecond per reading, a provider that answers with the text of the prompt, and a
  provider whose every call fails.
\<close>

definition keyEnv :: env where
  "keyEnv = [''OPENROUTER_API_KEY'' \<mapsto> ''key'']"

definition noOptions :: promptOptions where
  "noOptions = \<lparr>promptOptions.model = None, promptOptions.temperature = None,
     promptOptions.maxTokens = None, systemPrompt = None\<rparr>"

definition echoProvider :: "nat \<Rightarrow> chatRequest \<Rightarrow> jsError + completion" where
  "echoProvider n request =
     Inr \<lparr>choiceContent = Some (snd (last (messages request))),
          completionModel = requestModel request, completionUsage = None\<rparr>"

definition failingProvider :: "nat \<Rightarrow> chatRequest \<Rightarrow> jsError + completion" where
  "failingProvider n request =
     Inl (JsError ''APIError'' (''attempt '' @ digitsOf n @ '' failed'') None None None)"

definition exampleWorld :: "env \<Rightarrow> (nat \<Rightarrow> chatRequest \<Rightarrow> jsError + completion) \<Rightarrow> world" where
  "exampleWorld e r =
     \<lparr>processEnv = e, clock = (\<lambda>n. 1000 + int n), ticks = 0, respond = r, trace = [],
      numberToString = (\<lambda>x. ''0'')\<rparr>"

definition exampleExecutor :: "env \<Rightarrow> AIExecutor" where
  "exampleExecutor e = newAIExecutor (configFromEnv e)"

text \<open>The error a failing execution raises after its last attempt failed with \<open>error\<close>.\<close>

definition executionFailed :: "int \<Rightarrow> jsError \<Rightarrow> jsError" where
  "executionFailed maxRetries' error =
     createError
       (''AI execution failed after '' @ showInt maxRetries' @ '' retries: '' @ errorToString error)
       ''AI_EXECUTION_FAILED'' False (Some error)"

text \<open>
  The entry of \<open>executePrompt\<close>: the configuration is reloaded and the availability
  checked; \<open>Inr\<close> is the executor with which the execution proceeds, \<open>Inl\<close> the error
  thrown before the cache is consulted.
\<close>

definition gate :: "world \<Rightarrow> AIExecutor \<Rightarrow> jsError + AIExecutor" where
  "gate w ex =
     (case reloadConfigIfNeeded w ex of
        Inl err \<Rightarrow> Inl err
      | Inr ex1 \<Rightarrow>
          (case isAvailable w ex1 of
             Inl err \<Rightarrow> Inl err
           | Inr (available, ex2) \<Rightarrow>
               if available then Inr ex2
               else Inl (createError ''AI execution not available - check configuration''
                           ''AI_UNAVAILABLE'' False None)))"

text \<open>The model name, the cache key and the request of an execution that has passed the gate.\<close>

definition promptModel :: "AIExecutor \<Rightarrow> promptOptions \<Rightarrow> string" where
  "promptModel ex options = orElse (promptOptions.model options) (defaultModel (config ex))"

definition promptKey :: "world \<Rightarrow> AIExecutor \<Rightarrow> string \<Rightarrow> promptOptions \<Rightarrow> string" where
  "promptKey w ex prompt options =
     generateCacheKey (numberToString w) prompt (promptModel ex options) options"

definition promptRequest :: "AIExecutor \<Rightarrow> string \<Rightarrow> promptOptions \<Rightarrow> chatRequest" where
  "promptRequest ex prompt options = buildRequest ex prompt (promptModel ex options) options"

text \<open>A stored result as a cache hit returns it.\<close>

definition asCached :: "AIExecutionResult \<Rightarrow> AIExecutionResult" where
  "asCached r = r\<lparr>metadata := (metadata r)\<lparr>cached := True\<rparr>\<rparr>"

text \<open>
  An execution that starts in world \<open>w\<close> reads the clock for its start time and, when the
  key is present, once more for the lookup.  \<open>cacheHit\<close>: caching is enabled and the entry
  of the key is not expired at that second reading.
\<close>

definition cacheHit :: "world \<Rightarrow> AIExecutor \<Rightarrow> string \<Rightarrow> bool" where
  "cacheHit w ex key =
     (cacheEnabled (config ex)
      \<and> (case map_of (cache ex) key of
            None \<Rightarrow> False
          | Some entry \<Rightarrow> \<not> clock w (Suc (ticks w)) > expiry entry))"

text \<open>
  Example runs: a first execution against the echoing provider, and a second execution
  with a different prompt on the world and the executor that the first one leaves.
\<close>

definition firstRun :: "(jsError + AIExecutionResult) \<times> world \<times> AIExecutor" where
  "firstRun = executePrompt (exampleWorld keyEnv echoProvider) (exampleExecutor keyEnv)
                ''Analyze this ADR: one'' noOptions"

definition firstResult :: AIExecutionResult where
  "firstResult =
     \<lparr>content = ''Analyze this ADR: one'',
      AIExecutionResult.model = ''anthropic/claude-3-sonnet'', usage = None,
      metadata = \<lparr>executionTime = 1, cached = False, retryCount = 0, timestamp = 1002\<rparr>\<rparr>"

definition repeatedRun :: "(jsError + AIExecutionResult) \<times> world \<times> AIExecutor" where
  "repeatedRun = executePrompt (fst (snd firstRun)) (snd (snd firstRun))
                   ''Analyze this ADR: one'' noOptions"

definition otherRun :: "(jsError + AIExecutionResult) \<times> world \<times> AIExecutor" where
  "otherRun = executePrompt (fst (snd firstRun)) (snd (snd firstRun))
                ''Analyze this ADR: two'' noOptions"

text \<open>
  Two further executions of the first prompt on what the first run leaves.  Before the one,
  the environment is replaced by one that sets \<open>EXECUTION_MODE=prompt-only\<close>; before the
  other, \<open>updateConfig\<close> sets a temperature that \<open>validateAIConfig\<close> rejects, while the
  environment stays as it was.  \<open>unavailable\<close> is the error of an executor that is not
  available.
\<close>

definition promptOnlyEnv :: env where
  "promptOnlyEnv = [''EXECUTION_MODE'' \<mapsto> ''prompt-only'']"

definition switchedOffRun :: "(jsError + AIExecutionResult) \<times> world \<times> AIExecutor" where
  "switchedOffRun = executePrompt ((fst (snd firstRun))\<lparr>processEnv := promptOnlyEnv\<rparr>)
                      (snd (snd firstRun)) ''Analyze this ADR: one'' noOptions"

definition invalidTemperature :: "AIConfig \<Rightarrow> AIConfig" where
  "invalidTemperature c = c\<lparr>AIConfig.temperature := Num 5\<rparr>"

definition reconfiguredExecutor :: AIExecutor where
  "reconfiguredExecutor = updateConfig (snd (snd firstRun)) invalidTemperature"

definition reconfiguredRun :: "(jsError + AIExecutionResult) \<times> world \<times> AIExecutor" where
  "reconfiguredRun = executePrompt (fst (snd firstRun)) reconfiguredExecutor
                       ''Analyze this ADR: one'' noOptions"

definition unavailable :: jsError where
  "unavailable = createError ''AI execution not available - check configuration''
                   ''AI_UNAVAILABLE'' False None"

text \<open>
  An executor whose cache holds 101 entries, under the keys \<open>0\<close> to \<open>100\<close>, entry \<open>i\<close>
  expiring at \<open>950 + i\<close>.
\<close>

definition fullCacheExecutor :: AIExecutor where
  "fullCacheExecutor =
     (exampleExecutor keyEnv)
       \<lparr>cache := map (\<lambda>i. (digitsOf i, \<lparr>result = firstResult, expiry = 950 + int i\<rparr>))
                    [0..<101]\<rparr>"

text \<open>The bytes that a prompt contributes to the text the cache key is derived from.\<close>

definition escapedBytes :: "string \<Rightarrow> nat list" where
  "escapedBytes prompt = utf8 (concat (map escapeChar prompt))"

section \<open>Structured responses\<close>

subsection \<open>Regular expressions\<close>

text \<open>
  The regular expressions of \<open>extractJsonFromResponse\<close> are built from literal text,
  a greedy \<open>c*\<close> and a lazy \<open>c*?\<close> over a character class, a greedy \<open>r?\<close>, sequence,
  alternative, the capture group 1 and the anchors \<open>^\<close> and \<open>$\<close>.
\<close>

datatype regex =
    Lit string
  | Star "char \<Rightarrow> bool"
  | LazyStar "char \<Rightarrow> bool"
  | Opt regex
  | Seq regex regex
  | Alt regex regex
  | Group regex
  | Bol
  | Eol

text \<open>
  Backtracking matching, as the regular expression engine does it.  \<open>matchRe r n s g k\<close>
  matches \<open>r\<close> at the front of the rest \<open>s\<close> of an input of length \<open>n\<close>, with \<open>g\<close> the
  current capture of group 1, and continues with \<open>k\<close> on what is left; the first choice
  for which the continuation succeeds is taken.  A greedy star tries the longest run first,
  a lazy star the shortest, an optional part is tried before its omission, and the left
  alternative before the right one.
\<close>

fun matchRe ::
  "regex \<Rightarrow> nat \<Rightarrow> string \<Rightarrow> string option \<Rightarrow> (string \<Rightarrow> string option \<Rightarrow> 'a option)
   \<Rightarrow> 'a option" where
  "matchRe (Lit l) n s g k = (if prefix l s then k (drop (length l) s) g else None)"
| "matchRe (Star p) n [] g k = k [] g"
| "matchRe (Star p) n (c # cs) g k =
     (if p c
      then (case matchRe (Star p) n cs g k of Some r \<Rightarrow> Some r | None \<Rightarrow> k (c # cs) g)
      else k (c # cs) g)"
| "matchRe (LazyStar p) n [] g k = k [] g"
| "matchRe (LazyStar p) n (c # cs) g k =
     (case k (c # cs) g of
        Some r \<Rightarrow> Some r
      | None \<Rightarrow> if p c then matchRe (LazyStar p) n cs g k else None)"
| "matchRe (Opt r) n s g k =
     (case matchRe r n s g k of Some x \<Rightarrow> Some x | None \<Rightarrow> k s g)"
| "matchRe (Seq a b) n s g k = matchRe a n s g (\<lambda>s' g'. matchRe b n s' g' k)"
| "matchRe (Alt a b) n s g k =
     (case matchRe a n s g k of Some x \<Rightarrow> Some x | None \<Rightarrow> matchRe b n s g k)"
| "matchRe (Group r) n s g k =
     matchRe r n s g (\<lambda>s' g'. k s' (Some (take (length s - length s') s)))"
| "matchRe Bol n s g k = (if length s = n then k s g else None)"
| "matchRe Eol n s g k = (if s = [] then k s g else None)"

text \<open>
  \<open>content.match(r)\<close> for a regular expression without the \<open>g\<close> flag: the match is tried
  at every position from the left, and the first success gives the match array, of which
  only the capture of group 1 is kept (\<open>None\<close> when the group took no part).
\<close>

fun searchFrom :: "regex \<Rightarrow> nat \<Rightarrow> string \<Rightarrow> string option option" where
  "searchFrom r n [] = matchRe r n [] None (\<lambda>s' g. Some g)"
| "searchFrom r n (c # cs) =
     (case matchRe r n (c # cs) None (\<lambda>s' g. Some g) of
        Some g \<Rightarrow> Some g
      | None \<Rightarrow> searchFrom r n cs)"

definition regexMatch :: "regex \<Rightarrow> string \<Rightarrow> string option option" where
  "regexMatch r s = searchFrom r (length s) s"

text \<open>\<open>m && m[1]\<close>: the capture of a match, when there is a match and the capture is not empty.\<close>

definition capture1 :: "string option option \<Rightarrow> string option" where
  "capture1 m = (case m of Some (Some g) \<Rightarrow> if g \<noteq> [] then Some g else None | _ \<Rightarrow> None)"

text \<open>A sequence of parts.\<close>

definition seqs :: "regex list \<Rightarrow> regex" where
  "seqs rs = foldr Seq rs (Lit [])"

text \<open>The class \<open>[\s\S]\<close> holds every character.\<close>

definition anyChar :: "char \<Rightarrow> bool" where
  "anyChar c = True"

subsection \<open>extractJsonFromResponse\<close>

definition backtick :: char where
  "backtick = CHR 0x60"

definition newline :: char where
  "newline = CHR 0x0A"

text \<open>\<open>/^```(?:json)?\s*\n?([\s\S]*?)\n?```$/\<close>\<close>

definition codeBlockPattern :: regex where
  "codeBlockPattern =
     seqs [Bol, Lit (replicate 3 backtick), Opt (Lit ''json''), Star isWhiteSpace,
           Opt (Lit [newline]), Group (LazyStar anyChar), Opt (Lit [newline]),
           Lit (replicate 3 backtick), Eol]"

text \<open>\<open>/^`([\s\S]*?)`$/\<close>\<close>

definition inlineCodePattern :: regex where
  "inlineCodePattern = seqs [Bol, Lit [backtick], Group (LazyStar anyChar), Lit [backtick], Eol]"

text \<open>\<open>/(\{[\s\S]*\}|\[[\s\S]*\])/\<close>\<close>

definition jsonPattern :: regex where
  "jsonPattern =
     Group (Alt (seqs [Lit ''{'', Star anyChar, Lit ''}''])
                (seqs [Lit ''['', Star anyChar, Lit '']'']))"

definition extractJsonFromResponse :: "string \<Rightarrow> string" where
  "extractJsonFromResponse content0 =
     (let content' = trim content0
      in case capture1 (regexMatch codeBlockPattern content') of
           Some codeBlock \<Rightarrow> trim codeBlock
         | None \<Rightarrow>
             (case capture1 (regexMatch inlineCodePattern content') of
                Some inlineCode \<Rightarrow> trim inlineCode
              | None \<Rightarrow>
                  (case capture1 (regexMatch jsonPattern content') of
                     Some json \<Rightarrow> trim json
                   | None \<Rightarrow> content')))"

text \<open>The three forms in which a response may carry a text.\<close>

definition fenced :: "string \<Rightarrow> string" where
  "fenced s = replicate 3 backtick @ ''json'' @ [newline] @ s @ [newline] @ replicate 3 backtick"

definition inlined :: "string \<Rightarrow> string" where
  "inlined s = [backtick] @ s @ [backtick]"

text \<open>A text that opens with a brace and closes with one, or does so with brackets.\<close>

definition bracketed :: "string \<Rightarrow> bool" where
  "bracketed s =
     (2 \<le> length s
      \<and> (hd s = CHR ''{'' \<and> last s = CHR ''}'' \<or> hd s = CHR ''['' \<and> last s = CHR '']''))"

subsection \<open>executeStructuredPrompt\<close>

definition structuredSystemPrompt :: string where
  "structuredSystemPrompt =
     ''You are a helpful assistant that responds with valid JSON. ''
     @ ''Always return properly formatted JSON that matches the requested schema. ''
     @ ''Do not wrap the JSON in markdown code blocks.''"

text \<open>The error that the \<open>catch\<close> of \<open>executeStructuredPrompt\<close> throws for a caught \<open>error\<close>.\<close>

definition jsonParseError :: "jsError \<Rightarrow> jsError" where
  "jsonParseError error =
     createError (''Failed to parse JSON response: '' @ errorToString error)
       ''AI_JSON_PARSE_ERROR'' False (Some error)"

text \<open>
  The \<open>try\<close> block of \<open>executeStructuredPrompt\<close> on the result of the execution.
  \<open>jsonParse\<close> is \<open>JSON.parse\<close>, which returns a value or throws.  \<open>schema\<close> is the
  \<open>parse\<close> function of the schema, \<open>None\<close> when no schema is given or it has no such
  function.
\<close>

definition parseStructuredResponse ::
  "(string \<Rightarrow> jsError + 'j) \<Rightarrow> ('j \<Rightarrow> jsError + unit) option \<Rightarrow> AIExecutionResult
   \<Rightarrow> jsError + ('j \<times> AIExecutionResult)" where
  "parseStructuredResponse jsonParse schema result' =
     (let jsonContent = extractJsonFromResponse (content result')
      in case jsonParse jsonContent of
           Inl error \<Rightarrow> Inl (jsonParseError error)
         | Inr data \<Rightarrow>
             (case schema of
                None \<Rightarrow> Inr (data, result')
              | Some parse \<Rightarrow>
                  (case parse data of
                     Inl error \<Rightarrow> Inl (jsonParseError error)
                   | Inr u \<Rightarrow> Inr (data, result'))))"

text \<open>
  \<open>executeStructuredPrompt(prompt, schema, options)\<close>: the system prompt defaults to the
  one above, the temperature to 0.1; an error of \<open>executePrompt\<close> propagates.
\<close>

definition executeStructuredPrompt ::
  "world \<Rightarrow> AIExecutor \<Rightarrow> (string \<Rightarrow> jsError + 'j) \<Rightarrow> ('j \<Rightarrow> jsError + unit) option
   \<Rightarrow> string \<Rightarrow> promptOptions
   \<Rightarrow> (jsError + ('j \<times> AIExecutionResult)) \<times> world \<times> AIExecutor" where
  "executeStructuredPrompt w ex jsonParse schema prompt options =
     (let systemPrompt' = orElse (systemPrompt options) structuredSystemPrompt;
          (res, w', ex') =
            executePrompt w ex prompt
              (options\<lparr>systemPrompt := Some systemPrompt',
                 promptOptions.temperature :=
                   Some (case promptOptions.temperature options of
                           None \<Rightarrow> Num (1 / 10) | Some t \<Rightarrow> t)\<rparr>)
      in case res of
           Inl err \<Rightarrow> (Inl err, w', ex')
         | Inr result' \<Rightarrow> (parseStructuredResponse jsonParse schema result', w', ex'))"

text \<open>
  The parsed data of a response, or the error: what \<open>executeStructuredPrompt\<close> yields
  apart from the raw result it passes on.
\<close>

definition structuredData ::
  "(string \<Rightarrow> jsError + 'j) \<Rightarrow> ('j \<Rightarrow> jsError + unit) option \<Rightarrow> AIExecutionResult
   \<Rightarrow> jsError + 'j" where
  "structuredData jsonParse schema result' =
     map_sum id fst (parseStructuredResponse jsonParse schema result')"

text \<open>A JSON string whose characters are a pair of braces.\<close>

definition quotedBraces :: string where
  "quotedBraces = [CHR 0x22] @ ''{}'' @ [CHR 0x22]"
section \<open>Intent analysis\<close>

subsection \<open>The global executor\<close>

text \<open>
  \<open>getAIExecutor()\<close> on the module variable \<open>globalExecutor\<close>: the executor is created
  on first use, and \<open>new AIExecutor()\<close> then calls \<open>loadAIConfig\<close>, which may throw.
\<close>

definition getAIExecutor :: "world \<Rightarrow> AIExecutor option \<Rightarrow> jsError + AIExecutor" where
  "getAIExecutor w globalExecutor =
     (case globalExecutor of
        Some executor \<Rightarrow> Inr executor
      | None \<Rightarrow>
          (case loadAIConfig (processEnv w) of
             Inl err \<Rightarrow> Inl err
           | Inr c \<Rightarrow> Inr (newAIExecutor c)))"

subsection \<open>analyzeUserIntent\<close>

definition intentSystemPrompt :: string where
  "intentSystemPrompt =
     join [newline]
       [''Analyze the user'' @ [CHR 0x27] @ ''s intent and suggest relevant MCP tools.'',
        '''',
        ''Available Tools: '' @ join '', '' AVAILABLE_TOOLS,
        '''',
        ''Return JSON with:'',
        ''{'',
        ''  \"intent\": \"clear description of what user wants to accomplish\",'',
        ''  \"category\": \"analysis|generation|management|troubleshooting|deployment\",'',
        ''  \"complexity\": \"simple|moderate|complex\",'',
        ''  \"suggestedTools\": [\"tool1\", \"tool2\"],'',
        ''  \"confidence\": 0.85'',
        ''}'']"

definition intentPrompt :: "ToolChainOrchestratorArgs \<Rightarrow> string" where
  "intentPrompt args = ''Analyze this request: \"'' @ userRequest args @ ''\"''"

definition intentOptions :: promptOptions where
  "intentOptions =
     \<lparr>promptOptions.model = Some (getRecommendedModel ''quick-analysis'' True),
      promptOptions.temperature = Some (Num (1 / 10)),
      promptOptions.maxTokens = Some 500,
      systemPrompt = Some intentSystemPrompt\<rparr>"

text \<open>
  \<open>analyzeUserIntent(args)\<close> in a world \<open>w\<close> with the module variable \<open>globalExecutor\<close>.
  An error of \<open>loadAIConfig\<close> is thrown to the caller.  The result is the keyword
  analysis (\<open>Inl\<close>) or the value that \<open>JSON.parse\<close> gives for the raw content of the
  response (\<open>Inr\<close>), which is returned unchecked.  Everything thrown inside the \<open>try\<close>
  block, by \<open>getAIExecutor\<close>, by \<open>executeStructuredPrompt\<close> or by \<open>JSON.parse\<close>, ends in
  the keyword analysis, as does an empty content.
\<close>

definition analyzeUserIntent ::
  "world \<Rightarrow> AIExecutor option \<Rightarrow> (string \<Rightarrow> jsError + 'j) \<Rightarrow> ToolChainOrchestratorArgs
   \<Rightarrow> (jsError + (intentAnalysis + 'j)) \<times> world \<times> AIExecutor option" where
  "analyzeUserIntent w globalExecutor jsonParse args =
     (case loadAIConfig (processEnv w) of
        Inl err \<Rightarrow> (Inl err, w, globalExecutor)
      | Inr aiConfig \<Rightarrow>
          if \<not> isAIExecutionEnabled aiConfig
          then (Inr (Inl (fallbackIntentAnalysis (userRequest args))), w, globalExecutor)
          else
            (case getAIExecutor w globalExecutor of
               Inl err \<Rightarrow>
                 (Inr (Inl (fallbackIntentAnalysis (userRequest args))), w, globalExecutor)
             | Inr executor \<Rightarrow>
                 (case executeStructuredPrompt w executor jsonParse None (intentPrompt args)
                         intentOptions of
                    (Inl err, w', executor') \<Rightarrow>
                      (Inr (Inl (fallbackIntentAnalysis (userRequest args))), w', Some executor')
                  | (Inr (data, raw), w', executor') \<Rightarrow>
                      if content raw \<noteq> []
                      then (case jsonParse (content raw) of
                              Inl err \<Rightarrow>
                                (Inr (Inl (fallbackIntentAnalysis (userRequest args))), w',
                                 Some executor')
                            | Inr analysis \<Rightarrow> (Inr (Inr analysis), w', Some executor'))
                      else (Inr (Inl (fallbackIntentAnalysis (userRequest args))), w',
                            Some executor'))))"

subsection \<open>Expected behaviour of the keyword analysis, and example worlds\<close>

text \<open>Whether the lowercased request includes a keyword of the table.\<close>

definition keywordMatched :: "string \<Rightarrow> bool" where
  "keywordMatched userRequest' =
     (\<exists>keyword \<in> set (map fst keywordMap). includes_str (toLowerCase userRequest') keyword)"

text \<open>An environment without any setting, and the arguments of an intent analysis.\<close>

definition noKeyEnv :: env where
  "noKeyEnv = Map.empty"

definition intentArgs :: "string \<Rightarrow> ToolChainOrchestratorArgs" where
  "intentArgs request =
     \<lparr>operation = analyze_intent, userRequest = request, projectContext = exampleProject,
      constraints = None, customInstructions = None, sessionContext = None\<rparr>"

text \<open>The keyword analysis of the request \<open>analyze this project\<close>.\<close>

definition analyzeThisProject :: intentAnalysis where
  "analyzeThisProject =
     \<lparr>intent = ''User wants to analyze project elements'', category = ''analysis'',
      complexity = simple,
      suggestedTools = [''analyze_project_ecosystem'', ''analyze_content_security''],
      confidence = 7 / 10\<rparr>"
section \<open>Verified properties\<close>

subsection \<open>Plan validation\<close>

lemma firstMissingDep_None: "firstMissingDep ids ds = None \<longleftrightarrow> set ds \<subseteq> set ids"
  by (induction ds) auto

lemma firstInvalidDependency_None:
  "firstInvalidDependency ids ss = None \<longleftrightarrow>
     (\<forall>s \<in> set ss. \<forall>ds. dependsOn s = Some ds \<longrightarrow> set ds \<subseteq> set ids)"
proof (induction ss)
  case Nil
  show ?case by simp
next
  case (Cons s ss)
  show ?case
  proof (cases "dependsOn s")
    case None
    with Cons show ?thesis by simp
  next
    case (Some deps)
    show ?thesis
    proof (cases "firstMissingDep ids deps")
      case None
      then have "set deps \<subseteq> set ids" by (simp add: firstMissingDep_None)
      with Cons Some None show ?thesis by simp
    next
      case (Some d)
      then have "\<not> set deps \<subseteq> set ids" using firstMissingDep_None [of ids deps] by simp
      with \<open>dependsOn s = Some deps\<close> Some show ?thesis by auto
    qed
  qed
qed

lemma dangling_iff:
  "rule_dangling_dependency plan \<longleftrightarrow> firstInvalidDependency (map stepId (steps plan)) (steps plan) \<noteq> None"
proof -
  have "rule_dangling_dependency plan \<longleftrightarrow>
      \<not> (\<forall>s \<in> set (steps plan). \<forall>ds. dependsOn s = Some ds \<longrightarrow> set ds \<subseteq> set (map stepId (steps plan)))"
    unfolding rule_dangling_dependency_def
  proof
    assume "\<exists>s\<in>set (steps plan). case dependsOn s of None \<Rightarrow> False
               | Some ds \<Rightarrow> \<exists>d\<in>set ds. d \<notin> set (map stepId (steps plan))"
    then obtain s where s: "s \<in> set (steps plan)"
      and c: "case dependsOn s of None \<Rightarrow> False
               | Some ds \<Rightarrow> \<exists>d\<in>set ds. d \<notin> set (map stepId (steps plan))" by blast
    from c obtain ds where ds: "dependsOn s = Some ds"
      and "\<exists>d\<in>set ds. d \<notin> set (map stepId (steps plan))"
      by (cases "dependsOn s") auto
    then have "\<not> set ds \<subseteq> set (map stepId (steps plan))" by blast
    with s ds show "\<not> (\<forall>s\<in>set (steps plan). \<forall>ds. dependsOn s = Some ds \<longrightarrow>
        set ds \<subseteq> set (map stepId (steps plan)))" by blast
  next
    assume "\<not> (\<forall>s\<in>set (steps plan). \<forall>ds. dependsOn s = Some ds \<longrightarrow>
        set ds \<subseteq> set (map stepId (steps plan)))"
    then obtain s ds where s: "s \<in> set (steps plan)" and ds: "dependsOn s = Some ds"
      and "\<not> set ds \<subseteq> set (map stepId (steps plan))" by blast
    then have "\<exists>d\<in>set ds. d \<notin> set (map stepId (steps plan))" by blast
    with ds have "case dependsOn s of None \<Rightarrow> False
               | Some ds \<Rightarrow> \<exists>d\<in>set ds. d \<notin> set (map stepId (steps plan))" by simp
    with s show "\<exists>s\<in>set (steps plan). case dependsOn s of None \<Rightarrow> False
               | Some ds \<Rightarrow> \<exists>d\<in>set ds. d \<notin> set (map stepId (steps plan))" by blast
  qed
  then show ?thesis by (simp only: firstInvalidDependency_None)
qed

lemma filter_nonempty_iff: "length (filter P xs) > 0 \<longleftrightarrow> (\<exists>x \<in> set xs. P x)"
  by (induction xs) auto

lemma validate_step_count:
  "rule_step_count plan cs \<Longrightarrow> thrownCode (validatePlanSafety plan cs) = Some ''PLAN_TOO_COMPLEX''"
  unfolding rule_step_count_def thrownCode_def validatePlanSafety_def Let_def
  by (cases "maxStepsOf cs") auto

lemma validate_skip_step_count:
  "\<not> rule_step_count plan cs \<Longrightarrow> validatePlanSafety plan cs =
    (let usedExcludedTools = (case excludeToolsOf cs of
                      None \<Rightarrow> []
                    | Some ex \<Rightarrow> filter (\<lambda>s. toolName s \<in> set ex) (steps plan));
         invalidTools = filter (\<lambda>s. toolName s \<notin> set AVAILABLE_TOOLS) (steps plan);
         stepIds = map stepId (steps plan)
     in if length usedExcludedTools > 0
            then Inl (EXCLUDED_TOOLS_USED (map toolName usedExcludedTools))
            else if length invalidTools > 0
            then Inl (UNKNOWN_TOOLS (map toolName invalidTools))
            else (case firstInvalidDependency stepIds (steps plan) of
                    Some (sid, d) \<Rightarrow> Inl (INVALID_DEPENDENCY sid d)
                  | None \<Rightarrow>
                      if ToolChainPlan.confidence plan < 0.6
                      then Inl (LOW_CONFIDENCE_PLAN (ToolChainPlan.confidence plan))
                      else Inr ()))"
  unfolding rule_step_count_def validatePlanSafety_def Let_def
  by (cases "maxStepsOf cs") auto

lemma excluded_iff:
  "rule_excluded_tool plan cs \<longleftrightarrow>
    length (case excludeToolsOf cs of None \<Rightarrow> []
            | Some ex \<Rightarrow> filter (\<lambda>s. toolName s \<in> set ex) (steps plan)) > 0"
  unfolding rule_excluded_tool_def
  by (cases "excludeToolsOf cs") (auto simp: filter_empty_conv)

lemma unknown_iff:
  "rule_unknown_tool plan \<longleftrightarrow>
    length (filter (\<lambda>s. toolName s \<notin> set AVAILABLE_TOOLS) (steps plan)) > 0"
  unfolding rule_unknown_tool_def by (auto simp: filter_empty_conv)

lemma thrownCode_validate: "thrownCode (validatePlanSafety plan cs) = first_violation plan cs"
proof (cases "rule_step_count plan cs")
  case True
  then show ?thesis by (simp add: validate_step_count first_violation_def)
next
  case False
  note r1 = this
  show ?thesis
  proof (cases "rule_excluded_tool plan cs")
    case True
    with r1 show ?thesis
      using excluded_iff [of plan cs]
      by (simp add: validate_skip_step_count first_violation_def thrownCode_def Let_def)
  next
    case False
    note r2 = this
    show ?thesis
    proof (cases "rule_unknown_tool plan")
      case True
      with r1 r2 show ?thesis
        using excluded_iff [of plan cs] unknown_iff [of plan]
        by (simp add: validate_skip_step_count first_violation_def thrownCode_def Let_def)
    next
      case False
      note r3 = this
      show ?thesis
      proof (cases "firstInvalidDependency (map stepId (steps plan)) (steps plan)")
        case None
        then have "\<not> rule_dangling_dependency plan" by (simp add: dangling_iff)
        with r1 r2 r3 None show ?thesis
          using excluded_iff [of plan cs] unknown_iff [of plan]
          by (simp add: validate_skip_step_count first_violation_def thrownCode_def Let_def
              rule_low_confidence_def)
      next
        case (Some p)
        then have "rule_dangling_dependency plan" by (simp add: dangling_iff)
        with r1 r2 r3 Some show ?thesis
          using excluded_iff [of plan cs] unknown_iff [of plan]
          by (cases p)
            (simp add: validate_skip_step_count first_violation_def thrownCode_def Let_def)
      qed
    qed
  qed
qed

lemma validate_returns_iff:
  "validatePlanSafety plan cs = Inr () \<longleftrightarrow> first_violation plan cs = None"
proof -
  have "validatePlanSafety plan cs = Inr () \<longleftrightarrow> thrownCode (validatePlanSafety plan cs) = None"
    by (cases "validatePlanSafety plan cs") (simp_all add: thrownCode_def)
  then show ?thesis by (simp only: thrownCode_validate)
qed

lemma rules_ignore_confidence:
  "rule_step_count (plan\<lparr>ToolChainPlan.confidence := c\<rparr>) cs = rule_step_count plan cs"
  "rule_excluded_tool (plan\<lparr>ToolChainPlan.confidence := c\<rparr>) cs = rule_excluded_tool plan cs"
  "rule_unknown_tool (plan\<lparr>ToolChainPlan.confidence := c\<rparr>) = rule_unknown_tool plan"
  "rule_dangling_dependency (plan\<lparr>ToolChainPlan.confidence := c\<rparr>) = rule_dangling_dependency plan"
  by (simp_all add: rule_step_count_def rule_excluded_tool_def rule_unknown_tool_def
      rule_dangling_dependency_def cong: option.case_cong)

lemma validate_confidence_gate:
  assumes "\<not> rule_step_count plan cs" "\<not> rule_excluded_tool plan cs"
    "\<not> rule_unknown_tool plan" "\<not> rule_dangling_dependency plan"
  shows "validatePlanSafety plan cs =
    (if ToolChainPlan.confidence plan < 0.6 then Inl (LOW_CONFIDENCE_PLAN (ToolChainPlan.confidence plan)) else Inr ())"
proof -
  have "firstInvalidDependency (map stepId (steps plan)) (steps plan) = None"
    using assms(4) dangling_iff [of plan] by blast
  then show ?thesis
    using assms(1-3) excluded_iff [of plan cs] unknown_iff [of plan]
    by (simp add: validate_skip_step_count Let_def)
qed

text \<open>
  C1 (as amended).  \<open>validatePlanSafety\<close> raises the error of the first violated rule in the
  order step count, excluded tool, unknown tool, dangling dependency, low confidence, where
  the step-count rule applies when \<open>maxSteps\<close> is supplied and non-zero; the five codes
  are pairwise distinct; it returns normally exactly when no rule is violated; and a plan
  that passes the first four rules is rejected with \<open>LOW_CONFIDENCE_PLAN\<close> at confidence
  0.59 and accepted at confidence 0.60.
\<close>

theorem validatePlanSafety_priority_order:
  "thrownCode (validatePlanSafety plan cs) = first_violation plan cs
   \<and> (validatePlanSafety plan cs = Inr () \<longleftrightarrow>
        \<not> rule_step_count plan cs \<and> \<not> rule_excluded_tool plan cs \<and> \<not> rule_unknown_tool plan
        \<and> \<not> rule_dangling_dependency plan \<and> \<not> rule_low_confidence plan)
   \<and> distinct (map code [PLAN_TOO_COMPLEX n m, EXCLUDED_TOOLS_USED ts, UNKNOWN_TOOLS us,
        INVALID_DEPENDENCY sid d, LOW_CONFIDENCE_PLAN c])
   \<and> (\<not> rule_step_count plan cs \<and> \<not> rule_excluded_tool plan cs \<and> \<not> rule_unknown_tool plan
        \<and> \<not> rule_dangling_dependency plan \<longrightarrow>
        validatePlanSafety (plan\<lparr>ToolChainPlan.confidence := 0.59\<rparr>) cs = Inl (LOW_CONFIDENCE_PLAN 0.59)
        \<and> validatePlanSafety (plan\<lparr>ToolChainPlan.confidence := 0.6\<rparr>) cs = Inr ())"
proof (intro conjI impI)
  show "thrownCode (validatePlanSafety plan cs) = first_violation plan cs"
    by (rule thrownCode_validate)
  show "validatePlanSafety plan cs = Inr () \<longleftrightarrow>
        \<not> rule_step_count plan cs \<and> \<not> rule_excluded_tool plan cs \<and> \<not> rule_unknown_tool plan
        \<and> \<not> rule_dangling_dependency plan \<and> \<not> rule_low_confidence plan"
    unfolding validate_returns_iff first_violation_def by simp
  show "distinct (map code [PLAN_TOO_COMPLEX n m, EXCLUDED_TOOLS_USED ts, UNKNOWN_TOOLS us,
        INVALID_DEPENDENCY sid d, LOW_CONFIDENCE_PLAN c])"
    by simp
next
  assume a: "\<not> rule_step_count plan cs \<and> \<not> rule_excluded_tool plan cs
    \<and> \<not> rule_unknown_tool plan \<and> \<not> rule_dangling_dependency plan"
  show "validatePlanSafety (plan\<lparr>ToolChainPlan.confidence := 0.59\<rparr>) cs = Inl (LOW_CONFIDENCE_PLAN 0.59)"
    using a by (subst validate_confidence_gate) (simp_all add: rules_ignore_confidence)
  show "validatePlanSafety (plan\<lparr>ToolChainPlan.confidence := 0.6\<rparr>) cs = Inr ()"
    using a by (subst validate_confidence_gate) (simp_all add: rules_ignore_confidence)
qed

lemma examplePlan_rules:
  "\<not> rule_step_count examplePlan (Some exampleConstraints)"
  "\<not> rule_excluded_tool examplePlan (Some exampleConstraints)"
  "\<not> rule_unknown_tool examplePlan"
  "\<not> rule_dangling_dependency examplePlan"
  by (simp_all add: rule_step_count_def rule_excluded_tool_def rule_unknown_tool_def
      rule_dangling_dependency_def maxStepsOf_def excludeToolsOf_def examplePlan_def
      exampleConstraints_def exampleStep1_def exampleStep2_def AVAILABLE_TOOLS_def)

theorem validatePlanSafety_priority_order_witness:
  "\<not> rule_step_count examplePlan (Some exampleConstraints)
   \<and> \<not> rule_excluded_tool examplePlan (Some exampleConstraints)
   \<and> \<not> rule_unknown_tool examplePlan \<and> \<not> rule_dangling_dependency examplePlan
   \<and> validatePlanSafety (examplePlan\<lparr>ToolChainPlan.confidence := 0.59\<rparr>) (Some exampleConstraints)
       = Inl (LOW_CONFIDENCE_PLAN 0.59)
   \<and> validatePlanSafety (examplePlan\<lparr>ToolChainPlan.confidence := 0.6\<rparr>) (Some exampleConstraints) = Inr ()
   \<and> validatePlanSafety examplePlan (Some exampleConstraints) = Inr ()"
  using validatePlanSafety_priority_order [of examplePlan "Some exampleConstraints"]
    examplePlan_rules
  by (simp add: rule_low_confidence_def examplePlan_def)

text \<open>
  C1 as stated fails when the supplied \<open>maxSteps\<close> is zero: a one-step plan exceeds a
  limit of zero steps, and the call returns normally.
\<close>

theorem validatePlanSafety_zero_maxSteps_counterexample:
  "maxStepsOf (Some zeroLimit) = Some 0
   \<and> (0::real) < real (length (steps oneStepPlan))
   \<and> validatePlanSafety oneStepPlan (Some zeroLimit) = Inr ()"
  by (simp add: validatePlanSafety_def maxStepsOf_def excludeToolsOf_def zeroLimit_def
      oneStepPlan_def AVAILABLE_TOOLS_def Let_def)

subsection \<open>Session health: the risk score\<close>

lemma countsFor_Nil: "countsFor [] []"
  by (simp add: countsFor_def)

lemma count_list_pos: "t \<in> set xs \<Longrightarrow> count_list xs t > 0"
  by (induction xs) auto

lemma countsFor_update:
  assumes inv: "countsFor acc xs"
    and v: "v = Count (count_list (xs @ [t]) t)"
    and ct: "countTool acc t = AList.update t v acc"
  shows "countsFor (countTool acc t) (xs @ [t])"
proof -
  from inv have d: "distinct (map fst acc)" and k: "fst ` set acc = set xs"
    and m: "\<And>u. u \<in> set xs \<Longrightarrow> map_of acc u = Some (Count (count_list xs u))"
    by (simp_all add: countsFor_def)
  have d': "distinct (map fst (AList.update t v acc))" using d by (rule distinct_update)
  have k': "fst ` set (AList.update t v acc) = set (xs @ [t])"
    using k by (simp add: dom_update)
  have m': "map_of (AList.update t v acc) u = Some (Count (count_list (xs @ [t]) u))"
    if "u \<in> set (xs @ [t])" for u
  proof (cases "u = t")
    case True
    then show ?thesis by (simp add: update_conv' v)
  next
    case False
    with that have "u \<in> set xs" by simp
    with False show ?thesis by (simp add: update_conv' m)
  qed
  show ?thesis
    unfolding ct countsFor_def using d' k' m' by blast
qed

lemma countsFor_step:
  assumes inv: "countsFor acc xs" and t: "t \<notin> set objectPrototypeKeys"
  shows "countsFor (countTool acc t) (xs @ [t])"
proof (cases "t \<in> set xs")
  case True
  with inv have m: "map_of acc t = Some (Count (count_list xs t))"
    by (simp add: countsFor_def)
  then have ct: "countTool acc t = AList.update t (Count (count_list xs t + 1)) acc"
    by (simp add: countTool_def)
  show ?thesis
    by (rule countsFor_update [OF inv _ ct]) simp
next
  case False
  with inv have "t \<notin> fst ` set acc" by (simp add: countsFor_def)
  then have m: "map_of acc t = None" by (simp add: map_of_eq_None_iff)
  from t have "t \<noteq> ''__proto__''" by (auto simp: objectPrototypeKeys_def)
  with m t have ct: "countTool acc t = AList.update t (Count 1) acc"
    by (simp add: countTool_def)
  show ?thesis
    by (rule countsFor_update [OF inv _ ct]) (use False in simp)
qed

lemma countsFor_foldl:
  "set xs \<inter> set objectPrototypeKeys = {} \<Longrightarrow> countsFor (foldl countTool [] xs) xs"
proof (induction xs rule: rev_induct)
  case Nil
  show ?case by (simp add: countsFor_Nil)
next
  case (snoc x xs)
  then have "countsFor (foldl countTool [] xs) xs" and "x \<notin> set objectPrototypeKeys" by auto
  then show ?case by (simp add: countsFor_step)
qed

lemma length_filter_objectEntries:
  "length (filter Q (objectEntries props)) = length (filter Q props)"
proof -
  have "length (filter Q (objectEntries props)) =
      length (filter (\<lambda>p. isArrayIndex (fst p)) (filter Q props))
      + length (filter (\<lambda>p. \<not> isArrayIndex (fst p)) (filter Q props))"
    unfolding objectEntries_def
    by (simp add: filter_sort conj_commute)
  then show ?thesis by (simp only: sum_length_filter_compl)
qed

lemma length_filter_distinct_keys:
  assumes "distinct (map fst acc)"
  shows "length (filter Q acc) = card (fst ` {p \<in> set acc. Q p})"
proof -
  have d: "distinct (map fst (filter Q acc))" using assms by (rule distinct_map_filter)
  have "length (filter Q acc) = length (map fst (filter Q acc))" by simp
  also have "\<dots> = card (set (map fst (filter Q acc)))" using d by (simp only: distinct_card)
  also have "set (map fst (filter Q acc)) = fst ` {p \<in> set acc. Q p}" by auto
  finally show ?thesis .
qed

lemma repeated_count:
  assumes "set acts \<inter> set objectPrototypeKeys = {}"
  shows "length (List.map_filter repeatedEntry (objectEntries (foldl countTool [] acts)))
    = card {t \<in> set acts. 3 < count_list acts t}"
proof -
  have l: "length (List.map_filter repeatedEntry xs)
      = length (filter (\<lambda>p. repeatedEntry p \<noteq> None) xs)" for xs
    by (simp add: List.map_filter_def)
  let ?acc = "foldl countTool [] acts"
  have inv: "countsFor ?acc acts" using assms by (rule countsFor_foldl)
  then have d: "distinct (map fst ?acc)" by (simp add: countsFor_def)
  have "fst ` {p \<in> set ?acc. repeatedEntry p \<noteq> None} = {t \<in> set acts. 3 < count_list acts t}"
  proof (intro set_eqI iffI)
    fix t assume "t \<in> fst ` {p \<in> set ?acc. repeatedEntry p \<noteq> None}"
    then obtain v where p: "(t, v) \<in> set ?acc" and v: "repeatedEntry (t, v) \<noteq> None" by auto
    from p inv have ts: "t \<in> set acts" by (force simp: countsFor_def)
    with inv have "map_of ?acc t = Some (Count (count_list acts t))" by (simp add: countsFor_def)
    moreover from d p have "map_of ?acc t = Some v" by simp
    ultimately have "v = Count (count_list acts t)" by simp
    with v ts show "t \<in> {t \<in> set acts. 3 < count_list acts t}"
      by (simp add: repeatedEntry_def split: if_splits)
  next
    fix t assume "t \<in> {t \<in> set acts. 3 < count_list acts t}"
    then have ts: "t \<in> set acts" and c: "3 < count_list acts t" by auto
    with inv have "map_of ?acc t = Some (Count (count_list acts t))" by (simp add: countsFor_def)
    then have "(t, Count (count_list acts t)) \<in> set ?acc" by (rule map_of_SomeD)
    moreover from c have "repeatedEntry (t, Count (count_list acts t)) \<noteq> None"
      by (simp add: repeatedEntry_def)
    ultimately show "t \<in> fst ` {p \<in> set ?acc. repeatedEntry p \<noteq> None}" by force
  qed
  then show ?thesis
    by (simp only: l length_filter_objectEntries length_filter_distinct_keys [OF d])
qed

lemma longConversation_score:
  "(if longConversation (sessionContext args) then 2 else 0) =
   (case sessionField conversationLength args of
      Some n \<Rightarrow> if n > 20 then 2 else (0::nat) | None \<Rightarrow> 0)"
  by (auto simp: longConversation_def sessionField_def split: option.splits)

lemma repeatedTools_score:
  assumes "\<forall>acts. sessionField previousActions args = Some acts \<longrightarrow>
             set acts \<inter> set objectPrototypeKeys = {}"
  shows "length (repeatedTools (sessionContext args)) =
    (case sessionField previousActions args of
       Some acts \<Rightarrow> card {t \<in> set acts. 3 < count_list acts t} | None \<Rightarrow> 0)"
proof (cases "sessionField previousActions args")
  case None
  then show ?thesis
    by (auto simp: repeatedTools_def sessionField_def split: option.splits)
next
  case (Some acts)
  with assms have "set acts \<inter> set objectPrototypeKeys = {}" by blast
  then have "length (List.map_filter repeatedEntry (objectEntries (foldl countTool [] acts)))
    = card {t \<in> set acts. 3 < count_list acts t}" by (rule repeated_count)
  with Some show ?thesis
    by (auto simp: repeatedTools_def sessionField_def split: option.splits)
qed

lemma foundKeywords_score:
  "length (foundKeywords request) = card {k \<in> set confusionKeywords. includes_str request k}"
proof -
  have "distinct confusionKeywords" by (simp add: confusionKeywords_def)
  then have "length (foundKeywords request)
      = card ({k. includes_str request k} \<inter> set confusionKeywords)"
    unfolding foundKeywords_def by (rule distinct_length_filter)
  also have "{k. includes_str request k} \<inter> set confusionKeywords
      = {k \<in> set confusionKeywords. includes_str request k}" by blast
  finally show ?thesis .
qed

lemma stuckTask_score:
  "(if stuckTask (sessionContext args) \<noteq> None then 3 else 0) =
   (case sessionField stuckOnTask args of
      Some t \<Rightarrow> if t \<noteq> [] then 3 else (0::nat) | None \<Rightarrow> 0)"
  by (auto simp: stuckTask_def sessionField_def split: option.splits)

lemma riskScore_expected:
  assumes "\<forall>acts. sessionField previousActions args = Some acts \<longrightarrow>
             set acts \<inter> set objectPrototypeKeys = {}"
  shows "riskScore args = expectedRiskScore args"
  unfolding riskScore_def expectedRiskScore_def Let_def
  by (simp only: longConversation_score repeatedTools_score [OF assms] foundKeywords_score
      stuckTask_score)

lemma hallucinationRisk_bucket:
  "hallucinationRisk (performRealityCheck args) =
     (if riskScore args \<ge> 5 then high else if riskScore args \<ge> 2 then medium else low)"
  by (simp add: performRealityCheck_def Let_def)

text \<open>
  C7 (as amended).  When no previous action bears the name of a member of
  \<open>Object.prototype\<close>, the risk score is the additive score of the specification, with 3
  added for a non-empty \<open>stuckOnTask\<close>; the risk is high iff the score is at least 5,
  medium iff it is at least 2 and below 5, else low.  Hence a context with
  \<open>conversationLength = 25\<close>, no previous actions, no \<open>stuckOnTask\<close> and a request
  without confusion keywords has risk medium, and the same context with a non-empty
  \<open>stuckOnTask\<close> has risk high.
\<close>

theorem performRealityCheck_risk:
  assumes "\<forall>acts. sessionField previousActions args = Some acts \<longrightarrow>
             set acts \<inter> set objectPrototypeKeys = {}"
  shows "riskScore args = expectedRiskScore args
    \<and> (hallucinationRisk (performRealityCheck args) = high \<longleftrightarrow> expectedRiskScore args \<ge> 5)
    \<and> (hallucinationRisk (performRealityCheck args) = medium \<longleftrightarrow>
          expectedRiskScore args \<ge> 2 \<and> expectedRiskScore args < 5)
    \<and> (hallucinationRisk (performRealityCheck args) = low \<longleftrightarrow> expectedRiskScore args < 2)
    \<and> (sessionField conversationLength args = Some 25
        \<and> (sessionField previousActions args = None \<or> sessionField previousActions args = Some [])
        \<and> foundKeywords (toLowerCase (userRequest args)) = []
        \<longrightarrow> (sessionField stuckOnTask args = None \<longrightarrow>
               hallucinationRisk (performRealityCheck args) = medium)
          \<and> (\<forall>t. sessionField stuckOnTask args = Some t \<and> t \<noteq> [] \<longrightarrow>
               hallucinationRisk (performRealityCheck args) = high))"
proof -
  have e: "riskScore args = expectedRiskScore args" using assms by (rule riskScore_expected)
  have b: "hallucinationRisk (performRealityCheck args) =
     (if expectedRiskScore args \<ge> 5 then high
      else if expectedRiskScore args \<ge> 2 then medium else low)"
    by (simp only: hallucinationRisk_bucket e)
  have c: "expectedRiskScore args =
      2 + (case sessionField stuckOnTask args of
             Some t \<Rightarrow> if t \<noteq> [] then 3 else 0 | None \<Rightarrow> 0)"
    if h: "sessionField conversationLength args = Some 25"
      "sessionField previousActions args = None \<or> sessionField previousActions args = Some []"
      "foundKeywords (toLowerCase (userRequest args)) = []"
  proof -
    have "card {k \<in> set confusionKeywords. includes_str (toLowerCase (userRequest args)) k} = 0"
      using h(3) foundKeywords_score [of "toLowerCase (userRequest args)"] by simp
    moreover have "(case sessionField previousActions args of
        Some acts \<Rightarrow> card {t \<in> set acts. 3 < count_list acts t} | None \<Rightarrow> 0) = 0"
      using h(2) by auto
    ultimately show ?thesis
      unfolding expectedRiskScore_def using h(1) by simp
  qed
  show ?thesis
  proof (intro conjI impI allI)
    show "riskScore args = expectedRiskScore args" by (rule e)
    show "hallucinationRisk (performRealityCheck args) = high \<longleftrightarrow> expectedRiskScore args \<ge> 5"
      by (simp add: b)
    show "hallucinationRisk (performRealityCheck args) = medium \<longleftrightarrow>
          expectedRiskScore args \<ge> 2 \<and> expectedRiskScore args < 5"
      by (auto simp: b)
    show "hallucinationRisk (performRealityCheck args) = low \<longleftrightarrow> expectedRiskScore args < 2"
      by (auto simp: b)
  next
    assume h: "sessionField conversationLength args = Some 25
        \<and> (sessionField previousActions args = None \<or> sessionField previousActions args = Some [])
        \<and> foundKeywords (toLowerCase (userRequest args)) = []"
      and s: "sessionField stuckOnTask args = None"
    from h have "expectedRiskScore args =
      2 + (case sessionField stuckOnTask args of
             Some t \<Rightarrow> if t \<noteq> [] then 3 else 0 | None \<Rightarrow> 0)" by (intro c) simp_all
    with s show "hallucinationRisk (performRealityCheck args) = medium" by (simp add: b)
  next
    fix t
    assume h: "sessionField conversationLength args = Some 25
        \<and> (sessionField previousActions args = None \<or> sessionField previousActions args = Some [])
        \<and> foundKeywords (toLowerCase (userRequest args)) = []"
      and s: "sessionField stuckOnTask args = Some t \<and> t \<noteq> []"
    from h have "expectedRiskScore args =
      2 + (case sessionField stuckOnTask args of
             Some t \<Rightarrow> if t \<noteq> [] then 3 else 0 | None \<Rightarrow> 0)" by (intro c) simp_all
    with s show "hallucinationRisk (performRealityCheck args) = high" by (simp add: b)
  qed
qed

lemma realityArgs_fields:
  "sessionField conversationLength (realityArgs r len acts stuck) = len"
  "sessionField previousActions (realityArgs r len acts stuck) = acts"
  "sessionField stuckOnTask (realityArgs r len acts stuck) = stuck"
  "userRequest (realityArgs r len acts stuck) = r"
  by (simp_all add: realityArgs_def sessionField_def)

theorem performRealityCheck_risk_witness:
  "set [''smart_score'', ''smart_score'', ''smart_score'', ''smart_score'']
     \<inter> set objectPrototypeKeys = {}
   \<and> foundKeywords (toLowerCase ''Please continue'') = []
   \<and> hallucinationRisk (performRealityCheck
        (realityArgs ''Please continue'' (Some 25) (Some []) None)) = medium
   \<and> hallucinationRisk (performRealityCheck
        (realityArgs ''Please continue'' (Some 25) (Some []) (Some ''fix the build''))) = high
   \<and> expectedRiskScore (realityArgs ''I am stuck'' None
        (Some [''smart_score'', ''smart_score'', ''smart_score'', ''smart_score'']) None) = 2"
proof -
  have k: "foundKeywords (toLowerCase ''Please continue'') = []" by code_simp
  have s: "riskScore (realityArgs ''I am stuck'' None
        (Some [''smart_score'', ''smart_score'', ''smart_score'', ''smart_score'']) None) = 2"
    by code_simp
  have p: "set [''smart_score'', ''smart_score'', ''smart_score'', ''smart_score'']
      \<inter> set objectPrototypeKeys = {}" by (simp add: objectPrototypeKeys_def)
  show ?thesis
    using k s p
      performRealityCheck_risk
        [of "realityArgs ''Please continue'' (Some 25) (Some []) None"]
      performRealityCheck_risk
        [of "realityArgs ''Please continue'' (Some 25) (Some []) (Some ''fix the build'')"]
      performRealityCheck_risk
        [of "realityArgs ''I am stuck'' None
          (Some [''smart_score'', ''smart_score'', ''smart_score'', ''smart_score'']) None"]
    by (simp add: realityArgs_fields)
qed

text \<open>
  C7 as stated fails at two inputs.  A \<open>stuckOnTask\<close> that is set to the empty string adds
  nothing, so the context of the claim stays at risk medium; and tools named like members
  of \<open>Object.prototype\<close> are never counted as repeated, so two such tools used four
  times each leave the score at 0 and the risk low.
\<close>

theorem performRealityCheck_counterexample:
  "sessionField stuckOnTask (realityArgs ''Please continue'' (Some 25) None (Some [])) = Some []
   \<and> hallucinationRisk (performRealityCheck
        (realityArgs ''Please continue'' (Some 25) None (Some []))) = medium
   \<and> count_list [''toString'', ''toString'', ''toString'', ''toString'',
        ''valueOf'', ''valueOf'', ''valueOf'', ''valueOf''] ''toString'' = 4
   \<and> count_list [''toString'', ''toString'', ''toString'', ''toString'',
        ''valueOf'', ''valueOf'', ''valueOf'', ''valueOf''] ''valueOf'' = 4
   \<and> riskScore (realityArgs ''Please continue'' None
        (Some [''toString'', ''toString'', ''toString'', ''toString'',
               ''valueOf'', ''valueOf'', ''valueOf'', ''valueOf'']) None) = 0
   \<and> hallucinationRisk (performRealityCheck (realityArgs ''Please continue'' None
        (Some [''toString'', ''toString'', ''toString'', ''toString'',
               ''valueOf'', ''valueOf'', ''valueOf'', ''valueOf'']) None)) = low"
  by (intro conjI; code_simp)

subsection \<open>Provider configuration\<close>

lemma sub_l: "sublist k a \<Longrightarrow> sublist k (a @ b)"
proof -
  assume "sublist k a"
  then obtain ps ss where "a = ps @ k @ ss" by (auto simp: sublist_def)
  then have "a @ b = ps @ k @ (ss @ b)" by simp
  then show ?thesis unfolding sublist_def by blast
qed

lemma sub_r: "sublist k b \<Longrightarrow> sublist k (a @ b)"
  by (metis append.assoc sublist_def)

lemma sublist_join: "x \<in> set xs \<Longrightarrow> sublist x (join sep xs)"
proof (induction sep xs rule: join.induct)
  case (1 sep)
  then show ?case by simp
next
  case (2 sep y)
  then show ?case by simp
next
  case (3 sep y z zs)
  show ?case
  proof (cases "x = y")
    case True
    then show ?thesis by simp
  next
    case False
    with 3 have "sublist x (join sep (z # zs))" by simp
    then show ?thesis by (simp add: sub_r)
  qed
qed

lemma missing_azure:
  "provider cfg = ''azure'' \<Longrightarrow> missingFields cfg =
     (if orElse (azureEndpoint cfg) '''' = [] then [''AZURE_OPENAI_ENDPOINT''] else [])
               @ (if apiKey cfg = [] then [''AZURE_OPENAI_API_KEY''] else [])
               @ (if orElse (azureDeployment cfg) '''' = [] then [''AZURE_OPENAI_DEPLOYMENT'']
                  else [])"
  by (simp add: missingFields_def requiredFields_def)

lemma missing_other:
  "provider cfg \<noteq> ''azure'' \<Longrightarrow> missingFields cfg =
     (if apiKey cfg = [] then
        [if provider cfg = ''openai'' then ''OPENAI_API_KEY'' else ''OPENROUTER_API_KEY'']
      else [])"
  by (simp add: missingFields_def requiredFields_def)

lemma validate_throws_iff:
  "isl (validateProviderConfig cfg) \<longleftrightarrow>
     executionMode cfg = ''full'' \<and> missingFields cfg \<noteq> []"
proof (cases "provider cfg = ''azure''")
  case True
  then show ?thesis
    unfolding validateProviderConfig_def Let_def
    by (simp add: missing_azure del: append_is_Nil_conv)
next
  case False
  then show ?thesis
    unfolding validateProviderConfig_def Let_def
    by (simp add: missing_other)
qed

lemma azure_message:
  assumes "provider cfg = ''azure''" "validateProviderConfig cfg = Inl e"
  shows "errMessage e =
    ''Azure AI Foundry requires the following environment variables: ''
    @ join '', '' (missingFields cfg)
    @ (''. '' @ ''Set AI_PROVIDER=openrouter or AI_PROVIDER=openai to use a different provider, ''
    @ ''or set EXECUTION_MODE=prompt-only to disable AI execution.'')"
  using assms(2) unfolding validateProviderConfig_def Let_def missing_azure [OF assms(1), symmetric]
  by (auto simp: assms(1) newError_def split: if_splits)

lemma other_message:
  assumes "provider cfg \<noteq> ''azure''" "validateProviderConfig cfg = Inl e"
  shows "errMessage e =
    (if provider cfg = ''openai''
     then ''OpenAI requires OPENAI_API_KEY environment variable. ''
            @ ''Set AI_PROVIDER=openrouter or AI_PROVIDER=azure to use a different provider, ''
            @ ''or set EXECUTION_MODE=prompt-only to disable AI execution.''
     else ''OpenRouter requires OPENROUTER_API_KEY environment variable. ''
            @ ''Get your API key at https://openrouter.ai/keys. ''
            @ ''Set AI_PROVIDER=azure or AI_PROVIDER=openai to use a different provider, ''
            @ ''or set EXECUTION_MODE=prompt-only to disable AI execution.'')"
  using assms(2) unfolding validateProviderConfig_def Let_def
  by (auto simp: assms(1) newError_def split: if_splits)

lemma message_names:
  assumes "validateProviderConfig cfg = Inl e"
  shows "(\<forall>n \<in> set (missingFields cfg). includes_str (errMessage e) n)
    \<and> includes_str (errMessage e) (providerTitle cfg)
    \<and> includes_str (errMessage e) ''to use a different provider''
    \<and> includes_str (errMessage e) ''EXECUTION_MODE=prompt-only''"
proof (cases "provider cfg = ''azure''")
  case True
  note m = azure_message [OF True assms]
  have 1: "\<forall>n \<in> set (missingFields cfg). includes_str (errMessage e) n"
    unfolding m includes_str_def by (intro ballI sub_r sub_l sublist_join)
  have t: "sublist ''Azure AI Foundry''
      ''Azure AI Foundry requires the following environment variables: ''" by code_simp
  have pt: "providerTitle cfg = ''Azure AI Foundry''"
    using True by (simp add: providerTitle_def)
  have 2: "includes_str (errMessage e) (providerTitle cfg)"
    unfolding m includes_str_def pt by (intro sub_l t)
  have s1: "sublist ''to use a different provider''
      ''Set AI_PROVIDER=openrouter or AI_PROVIDER=openai to use a different provider, ''"
    by code_simp
  have 3: "includes_str (errMessage e) ''to use a different provider''"
    unfolding m includes_str_def by (intro sub_r sub_l s1)
  have s2: "sublist ''EXECUTION_MODE=prompt-only''
      ''or set EXECUTION_MODE=prompt-only to disable AI execution.''" by code_simp
  have 4: "includes_str (errMessage e) ''EXECUTION_MODE=prompt-only''"
    unfolding m includes_str_def by (intro sub_r s2)
  from 1 2 3 4 show ?thesis by blast
next
  case False
  note m = other_message [OF False assms]
  have k: "missingFields cfg = [] \<or> missingFields cfg = [''OPENAI_API_KEY'']
         \<and> provider cfg = ''openai''
      \<or> missingFields cfg = [''OPENROUTER_API_KEY''] \<and> provider cfg \<noteq> ''openai''"
    using False by (simp add: missing_other)
  show ?thesis
  proof (cases "provider cfg = ''openai''")
    case True
    have "includes_str (errMessage e) ''OPENAI_API_KEY''"
      "includes_str (errMessage e) ''OpenAI''"
      "includes_str (errMessage e) ''to use a different provider''"
      "includes_str (errMessage e) ''EXECUTION_MODE=prompt-only''"
      unfolding m if_P [OF True] by code_simp+
    with k True False show ?thesis by (auto simp: providerTitle_def)
  next
    case f: False
    have "includes_str (errMessage e) ''OPENROUTER_API_KEY''"
      "includes_str (errMessage e) ''OpenRouter''"
      "includes_str (errMessage e) ''to use a different provider''"
      "includes_str (errMessage e) ''EXECUTION_MODE=prompt-only''"
      unfolding m if_not_P [OF f] by code_simp+
    with k f False show ?thesis by (auto simp: providerTitle_def)
  qed
qed

lemma orElse_whenNonEmpty: "orElse (whenNonEmpty s) [] = s"
  by (simp add: orElse_def whenNonEmpty_def)

lemma configFromEnv_fields:
  "provider (configFromEnv e) = orElse (e ''AI_PROVIDER'') ''openrouter''"
  "executionMode (configFromEnv e) = orElse (e ''EXECUTION_MODE'') ''full''"
  "apiKey (configFromEnv e) =
     (if orElse (e ''AI_PROVIDER'') ''openrouter'' = ''azure''
      then orElse (e ''AZURE_OPENAI_API_KEY'') []
      else if orElse (e ''AI_PROVIDER'') ''openrouter'' = ''openai''
      then orElse (e ''OPENAI_API_KEY'') []
      else orElse (e ''OPENROUTER_API_KEY'') [])"
  "orElse (e ''AI_PROVIDER'') ''openrouter'' = ''azure'' \<Longrightarrow>
     azureEndpoint (configFromEnv e) = whenNonEmpty (orElse (e ''AZURE_OPENAI_ENDPOINT'') [])"
  "orElse (e ''AI_PROVIDER'') ''openrouter'' = ''azure'' \<Longrightarrow>
     azureDeployment (configFromEnv e) = whenNonEmpty (orElse (e ''AZURE_OPENAI_DEPLOYMENT'') [])"
  "AIConfig.temperature (configFromEnv e) = floatSetting e ''AI_TEMPERATURE'' (Num 0.1)"
  "maxRetries (configFromEnv e) = intSetting e ''AI_MAX_RETRIES'' 3"
  by (simp_all add: configFromEnv_def Let_def DEFAULT_AI_CONFIG_def split: prod.splits)

lemma missingFields_configFromEnv:
  "missingFields (configFromEnv e) =
     filter (\<lambda>k. orElse (e k) [] = [])
       (requiredEnv (orElse (e ''AI_PROVIDER'') ''openrouter''))"
  by (simp add: missingFields_def requiredFields_def requiredEnv_def configFromEnv_fields
      orElse_whenNonEmpty)

lemma loadAIConfig_isl:
  "isl (loadAIConfig e) = isl (validateProviderConfig (configFromEnv e))"
  by (simp add: loadAIConfig_def Let_def split: sum.splits)

lemma loadAIConfig_throws_iff:
  "isl (loadAIConfig e) \<longleftrightarrow>
     orElse (e ''EXECUTION_MODE'') ''full'' = ''full''
     \<and> (\<exists>k \<in> set (requiredEnv (orElse (e ''AI_PROVIDER'') ''openrouter'')).
           orElse (e k) [] = [])"
  unfolding loadAIConfig_isl validate_throws_iff missingFields_configFromEnv
  by (simp add: configFromEnv_fields filter_empty_conv)

text \<open>
  C4.  \<open>validateProviderConfig\<close> throws iff the execution mode is \<open>full\<close> and a
  required field of the active provider is empty; the message of the error names every
  missing field and the provider, and suggests a different provider or the prompt-only
  mode; in prompt-only mode it returns.  \<open>loadAIConfig\<close> throws exactly when the
  validation of the configuration it builds throws, that is when the mode read from the
  environment is \<open>full\<close> and a required variable of the provider is unset or empty.
\<close>

theorem validateProviderConfig_missing_fields:
  "(isl (validateProviderConfig cfg) \<longleftrightarrow>
      executionMode cfg = ''full'' \<and> missingFields cfg \<noteq> [])
   \<and> (\<forall>e. validateProviderConfig cfg = Inl e \<longrightarrow>
        (\<forall>n \<in> set (missingFields cfg). includes_str (errMessage e) n)
        \<and> includes_str (errMessage e) (providerTitle cfg)
        \<and> includes_str (errMessage e) ''to use a different provider''
        \<and> includes_str (errMessage e) ''EXECUTION_MODE=prompt-only'')
   \<and> (executionMode cfg = ''prompt-only'' \<longrightarrow> validateProviderConfig cfg = Inr ())
   \<and> (isl (loadAIConfig env) \<longleftrightarrow> isl (validateProviderConfig (configFromEnv env)))
   \<and> (isl (loadAIConfig env) \<longleftrightarrow>
        orElse (env ''EXECUTION_MODE'') ''full'' = ''full''
        \<and> (\<exists>k \<in> set (requiredEnv (orElse (env ''AI_PROVIDER'') ''openrouter'')).
              orElse (env k) [] = []))
   \<and> (env ''EXECUTION_MODE'' = Some ''prompt-only'' \<longrightarrow>
        loadAIConfig env = Inr (configFromEnv env))"
proof (intro conjI allI impI)
  show "isl (validateProviderConfig cfg) \<longleftrightarrow>
      executionMode cfg = ''full'' \<and> missingFields cfg \<noteq> []"
    by (rule validate_throws_iff)
  show "isl (loadAIConfig env) \<longleftrightarrow> isl (validateProviderConfig (configFromEnv env))"
    by (rule loadAIConfig_isl)
  show "isl (loadAIConfig env) \<longleftrightarrow>
        orElse (env ''EXECUTION_MODE'') ''full'' = ''full''
        \<and> (\<exists>k \<in> set (requiredEnv (orElse (env ''AI_PROVIDER'') ''openrouter'')).
              orElse (env k) [] = [])"
    by (rule loadAIConfig_throws_iff)
next
  fix e assume e: "validateProviderConfig cfg = Inl e"
  show "\<forall>n \<in> set (missingFields cfg). includes_str (errMessage e) n"
    "includes_str (errMessage e) (providerTitle cfg)"
    "includes_str (errMessage e) ''to use a different provider''"
    "includes_str (errMessage e) ''EXECUTION_MODE=prompt-only''"
    using message_names [OF e] by blast+
next
  assume "executionMode cfg = ''prompt-only''"
  then show "validateProviderConfig cfg = Inr ()"
    by (simp add: validateProviderConfig_def)
next
  assume "env ''EXECUTION_MODE'' = Some ''prompt-only''"
  then have "executionMode (configFromEnv env) = ''prompt-only''"
    by (simp add: configFromEnv_fields orElse_def)
  then have "validateProviderConfig (configFromEnv env) = Inr ()"
    by (simp add: validateProviderConfig_def)
  then show "loadAIConfig env = Inr (configFromEnv env)"
    by (simp add: loadAIConfig_def)
qed

lemma azureNoCredentials_load:
  "loadAIConfig azureNoCredentials = Inl (newError
     (''Azure AI Foundry requires the following environment variables: ''
      @ ''AZURE_OPENAI_ENDPOINT, AZURE_OPENAI_DEPLOYMENT. ''
      @ ''Set AI_PROVIDER=openrouter or AI_PROVIDER=openai to use a different provider, ''
      @ ''or set EXECUTION_MODE=prompt-only to disable AI execution.''))"
  by code_simp

theorem validateProviderConfig_missing_fields_witness:
  "executionMode (configFromEnv azureNoCredentials) = ''full''
   \<and> missingFields (configFromEnv azureNoCredentials)
       = [''AZURE_OPENAI_ENDPOINT'', ''AZURE_OPENAI_DEPLOYMENT'']
   \<and> isl (loadAIConfig azureNoCredentials)
   \<and> includes_str (errMessage (projl (validateProviderConfig (configFromEnv azureNoCredentials))))
        ''AZURE_OPENAI_ENDPOINT''
   \<and> includes_str (errMessage (projl (validateProviderConfig (configFromEnv azureNoCredentials))))
        ''AZURE_OPENAI_DEPLOYMENT''
   \<and> includes_str (errMessage (projl (validateProviderConfig (configFromEnv azureNoCredentials))))
        ''Azure AI Foundry''
   \<and> loadAIConfig (azureNoCredentials(''EXECUTION_MODE'' \<mapsto> ''prompt-only''))
       = Inr (configFromEnv (azureNoCredentials(''EXECUTION_MODE'' \<mapsto> ''prompt-only'')))"
proof -
  have m: "missingFields (configFromEnv azureNoCredentials)
       = [''AZURE_OPENAI_ENDPOINT'', ''AZURE_OPENAI_DEPLOYMENT'']"
    by (simp add: missingFields_configFromEnv requiredEnv_def azureNoCredentials_def orElse_def)
  have x: "executionMode (configFromEnv azureNoCredentials) = ''full''"
    by (simp add: configFromEnv_fields azureNoCredentials_def orElse_def)
  have p: "providerTitle (configFromEnv azureNoCredentials) = ''Azure AI Foundry''"
    by (simp add: providerTitle_def configFromEnv_fields azureNoCredentials_def orElse_def)
  have i: "isl (validateProviderConfig (configFromEnv azureNoCredentials))"
    using validateProviderConfig_missing_fields
      [of "configFromEnv azureNoCredentials" azureNoCredentials] m x by simp
  then obtain e where e: "validateProviderConfig (configFromEnv azureNoCredentials) = Inl e"
    by (cases "validateProviderConfig (configFromEnv azureNoCredentials)") auto
  show ?thesis
    using validateProviderConfig_missing_fields
      [of "configFromEnv azureNoCredentials" azureNoCredentials]
      validateProviderConfig_missing_fields
      [of "configFromEnv azureNoCredentials"
          "azureNoCredentials(''EXECUTION_MODE'' \<mapsto> ''prompt-only'')"]
      m x p e
    by simp
qed

lemma parse_zero: "parseFloat ''0'' = Num 0" "parseInt ''0'' = Some 0"
  "parseFloat [] = NaN" "parseInt [] = None"
  by code_simp+

lemma floatSetting_zero:
  "floatSetting (e(k \<mapsto> ''0'')) k d = d" "floatSetting (e(k := None)) k d = d"
  by (simp_all add: floatSetting_def orElse_def parse_zero)

lemma intSetting_zero:
  "intSetting (e(k \<mapsto> ''0'')) k d = d" "intSetting (e(k := None)) k d = d"
  by (simp_all add: intSetting_def orElse_def parse_zero)

lemma floatSetting_other: "k' \<noteq> k \<Longrightarrow> floatSetting (e(k := v)) k' d = floatSetting e k' d"
  by (simp add: floatSetting_def)

lemma intSetting_other: "k' \<noteq> k \<Longrightarrow> intSetting (e(k := v)) k' d = intSetting e k' d"
  by (simp add: intSetting_def)

lemma configFromEnv_zero_temperature:
  "configFromEnv (e(''AI_TEMPERATURE'' \<mapsto> ''0'')) = configFromEnv (e(''AI_TEMPERATURE'' := None))"
  unfolding configFromEnv_def
  by (simp add: Let_def case_prod_unfold floatSetting_zero intSetting_other)

lemma configFromEnv_zero_retries:
  "configFromEnv (e(''AI_MAX_RETRIES'' \<mapsto> ''0'')) = configFromEnv (e(''AI_MAX_RETRIES'' := None))"
  unfolding configFromEnv_def
  by (simp add: Let_def case_prod_unfold intSetting_zero intSetting_other floatSetting_other)

lemma loadAIConfig_zero_temperature:
  "loadAIConfig (e(''AI_TEMPERATURE'' \<mapsto> ''0'')) = loadAIConfig (e(''AI_TEMPERATURE'' := None))"
  by (simp only: loadAIConfig_def configFromEnv_zero_temperature)

lemma loadAIConfig_zero_retries:
  "loadAIConfig (e(''AI_MAX_RETRIES'' \<mapsto> ''0'')) = loadAIConfig (e(''AI_MAX_RETRIES'' := None))"
  by (simp only: loadAIConfig_def configFromEnv_zero_retries)

lemma loadAIConfig_Inr: "loadAIConfig e = Inr cfg \<Longrightarrow> cfg = configFromEnv e"
  by (auto simp: loadAIConfig_def Let_def split: sum.splits)

text \<open>
  C10.  The settings \<open>AI_TEMPERATURE = "0"\<close> and \<open>AI_MAX_RETRIES = "0"\<close> load exactly as
  if the variable were unset: the configuration has temperature 0.1 and 3 retries, although
  \<open>parseFloat\<close> reads \<open>"0"\<close> as 0 and 0 is a temperature that \<open>validateAIConfig\<close>
  accepts.
\<close>

theorem loadAIConfig_zero_is_default:
  "loadAIConfig (e(''AI_TEMPERATURE'' \<mapsto> ''0'')) = loadAIConfig (e(''AI_TEMPERATURE'' := None))
   \<and> loadAIConfig (e(''AI_MAX_RETRIES'' \<mapsto> ''0'')) = loadAIConfig (e(''AI_MAX_RETRIES'' := None))
   \<and> (\<forall>cfg. loadAIConfig (e(''AI_TEMPERATURE'' \<mapsto> ''0'')) = Inr cfg \<longrightarrow>
         AIConfig.temperature cfg = Num 0.1)
   \<and> (\<forall>cfg. loadAIConfig (e(''AI_MAX_RETRIES'' \<mapsto> ''0'')) = Inr cfg \<longrightarrow> maxRetries cfg = 3)
   \<and> parseFloat ''0'' = Num 0 \<and> parseInt ''0'' = Some 0
   \<and> validateAIConfig (DEFAULT_AI_CONFIG\<lparr>AIConfig.temperature := Num 0\<rparr>) = Inr ()"
proof (intro conjI allI impI)
  show "loadAIConfig (e(''AI_TEMPERATURE'' \<mapsto> ''0'')) = loadAIConfig (e(''AI_TEMPERATURE'' := None))"
    by (rule loadAIConfig_zero_temperature)
  show "loadAIConfig (e(''AI_MAX_RETRIES'' \<mapsto> ''0'')) = loadAIConfig (e(''AI_MAX_RETRIES'' := None))"
    by (rule loadAIConfig_zero_retries)
  show "parseFloat ''0'' = Num 0" "parseInt ''0'' = Some 0" by (rule parse_zero)+
  show "validateAIConfig (DEFAULT_AI_CONFIG\<lparr>AIConfig.temperature := Num 0\<rparr>) = Inr ()"
    by (simp add: validateAIConfig_def DEFAULT_AI_CONFIG_def)
next
  fix cfg assume "loadAIConfig (e(''AI_TEMPERATURE'' \<mapsto> ''0'')) = Inr cfg"
  then have "cfg = configFromEnv (e(''AI_TEMPERATURE'' \<mapsto> ''0''))" by (rule loadAIConfig_Inr)
  then show "AIConfig.temperature cfg = Num 0.1"
    by (simp add: configFromEnv_fields floatSetting_zero)
next
  fix cfg assume "loadAIConfig (e(''AI_MAX_RETRIES'' \<mapsto> ''0'')) = Inr cfg"
  then have "cfg = configFromEnv (e(''AI_MAX_RETRIES'' \<mapsto> ''0''))" by (rule loadAIConfig_Inr)
  then show "maxRetries cfg = 3"
    by (simp add: configFromEnv_fields intSetting_zero)
qed

theorem loadAIConfig_zero_is_default_witness:
  "loadAIConfig (zeroSettings(''AI_TEMPERATURE'' \<mapsto> ''0''))
     = Inr (configFromEnv (zeroSettings(''AI_TEMPERATURE'' \<mapsto> ''0'')))
   \<and> AIConfig.temperature (configFromEnv (zeroSettings(''AI_TEMPERATURE'' \<mapsto> ''0''))) = Num 0.1
   \<and> loadAIConfig (zeroSettings(''AI_MAX_RETRIES'' \<mapsto> ''0''))
     = Inr (configFromEnv (zeroSettings(''AI_MAX_RETRIES'' \<mapsto> ''0'')))
   \<and> maxRetries (configFromEnv (zeroSettings(''AI_MAX_RETRIES'' \<mapsto> ''0''))) = 3"
proof -
  have t: "\<not> isl (loadAIConfig (zeroSettings(''AI_TEMPERATURE'' \<mapsto> ''0'')))"
    by (simp add: loadAIConfig_throws_iff zeroSettings_def orElse_def requiredEnv_def)
  have r: "\<not> isl (loadAIConfig (zeroSettings(''AI_MAX_RETRIES'' \<mapsto> ''0'')))"
    by (simp add: loadAIConfig_throws_iff zeroSettings_def orElse_def requiredEnv_def)
  from t have t': "loadAIConfig (zeroSettings(''AI_TEMPERATURE'' \<mapsto> ''0''))
     = Inr (configFromEnv (zeroSettings(''AI_TEMPERATURE'' \<mapsto> ''0'')))"
    by (simp add: loadAIConfig_def Let_def split: sum.splits)
  from r have r': "loadAIConfig (zeroSettings(''AI_MAX_RETRIES'' \<mapsto> ''0''))
     = Inr (configFromEnv (zeroSettings(''AI_MAX_RETRIES'' \<mapsto> ''0'')))"
    by (simp add: loadAIConfig_def Let_def split: sum.splits)
  show ?thesis
    using loadAIConfig_zero_is_default [of zeroSettings] t' r' by simp
qed

subsection \<open>Prompt executor: retries\<close>

lemma callCount_call [simp]: "callCount (w\<lparr>trace := trace w @ [Call r]\<rparr>) = Suc (callCount w)"
  by (simp add: callCount_def)

lemma callCount_sleep [simp]: "callCount (sleep w d) = callCount w"
  by (simp add: callCount_def sleep_def)

lemma createCompletion_world:
  "snd (createCompletion w r) = w\<lparr>trace := trace w @ [Call r]\<rparr>"
  "fst (createCompletion w r) = respond w (callCount w) r"
  by (simp_all add: createCompletion_def)

lemma remainingTrace_last: "remainingTrace req n n = [Call req]"
  by (simp add: remainingTrace_def)

lemma remainingTrace_step:
  "r < n \<Longrightarrow> remainingTrace req r n = Call req # Sleep (backoffDelay (Suc r)) # remainingTrace req (Suc r) n"
  by (simp add: remainingTrace_def upt_conv_Cons del: upt_Suc)

lemma remainingTrace_0: "remainingTrace req 0 n = failingTrace req n"
  by (simp add: remainingTrace_def failingTrace_def backoffDelay_def)

lemma attemptLoop_fail_step:
  assumes "respond w (callCount w) (buildRequest ex prompt m options) = Inl e"
    and "int r \<le> maxRetries (config ex)"
  shows "attemptLoop w ex prompt m options key start r =
     (if int (Suc r) > maxRetries (config ex)
      then (Inl (executionFailed (maxRetries (config ex)) e),
            w\<lparr>trace := trace w @ [Call (buildRequest ex prompt m options)]\<rparr>, ex)
      else attemptLoop
             (sleep (w\<lparr>trace := trace w @ [Call (buildRequest ex prompt m options)]\<rparr>)
                (backoffDelay (Suc r)))
             ex prompt m options key start (Suc r))"
  by (subst attemptLoop.simps) (simp add: assms createCompletion_def Let_def executionFailed_def)

lemma attemptLoop_all_fail:
  assumes n: "maxRetries (config ex) = int n"
  shows "\<forall>i. isl (respond w i (buildRequest ex prompt m options)) \<Longrightarrow> r \<le> n \<Longrightarrow>
    attemptLoop w ex prompt m options key start r =
      (Inl (executionFailed (int n)
              (projl (respond w (callCount w + (n - r)) (buildRequest ex prompt m options)))),
       w\<lparr>trace := trace w @ remainingTrace (buildRequest ex prompt m options) r n\<rparr>, ex)"
proof (induction "n - r" arbitrary: r w)
  case 0
  then have r: "r = n" by simp
  let ?req = "buildRequest ex prompt m options"
  from 0 have "isl (respond w (callCount w) ?req)" by blast
  then obtain e where e: "respond w (callCount w) ?req = Inl e"
    by (cases "respond w (callCount w) ?req") auto
  have "int r \<le> maxRetries (config ex)" using r n by simp
  from attemptLoop_fail_step [OF e this]
  show ?case by (simp add: n r e remainingTrace_last)
next
  case (Suc d)
  then have r: "r < n" and d: "d = n - Suc r" by simp_all
  let ?req = "buildRequest ex prompt m options"
  from Suc have "isl (respond w (callCount w) ?req)" by blast
  then obtain e where e: "respond w (callCount w) ?req = Inl e"
    by (cases "respond w (callCount w) ?req") auto
  let ?w1 = "w\<lparr>trace := trace w @ [Call ?req]\<rparr>"
  let ?w2 = "sleep ?w1 (backoffDelay (Suc r))"
  have f2: "\<forall>i. isl (respond ?w2 i ?req)" using Suc.prems(1) by (simp add: sleep_def)
  have le: "Suc r \<le> n" using r by simp
  have ih: "attemptLoop ?w2 ex prompt m options key start (Suc r) =
      (Inl (executionFailed (int n)
              (projl (respond ?w2 (callCount ?w2 + (n - Suc r)) ?req))),
       ?w2\<lparr>trace := trace ?w2 @ remainingTrace ?req (Suc r) n\<rparr>, ex)"
    by (rule Suc.hyps(1) [OF d f2 le])
  have idx: "callCount ?w2 + (n - Suc r) = callCount w + (n - r)" using r by simp
  have rs: "respond ?w2 = respond w" by (simp add: sleep_def)
  have tr: "?w2\<lparr>trace := trace ?w2 @ remainingTrace ?req (Suc r) n\<rparr>
      = w\<lparr>trace := trace w @ remainingTrace ?req r n\<rparr>"
    using r by (simp add: sleep_def remainingTrace_step)
  have "int r \<le> maxRetries (config ex)" using r n by simp
  from attemptLoop_fail_step [OF e this]
  have "attemptLoop w ex prompt m options key start r =
      attemptLoop ?w2 ex prompt m options key start (Suc r)"
    using r n by simp
  also note ih
  finally show ?case by (simp only: idx rs tr)
qed

subsection \<open>Prompt executor: the gate before the cache\<close>

lemma initializeClient_keeps [simp]:
  "config (initializeClient ex) = config ex" "cache (initializeClient ex) = cache ex"
  by (simp_all add: initializeClient_def Let_def split: sum.splits)

lemma reloadConfig_cache:
  "reloadConfigIfNeeded w ex = Inr ex1 \<Longrightarrow> cache ex1 = cache ex"
  by (auto simp: reloadConfigIfNeeded_def split: sum.splits if_splits)

lemma reloadConfig_fixed:
  assumes "reloadConfigIfNeeded w ex = Inr ex1"
    and "processEnv w' = processEnv w" and "config ex' = config ex1"
  shows "reloadConfigIfNeeded w' ex' = Inr ex'"
  using assms
  by (auto simp: reloadConfigIfNeeded_def dest: loadAIConfig_Inr split: sum.splits if_splits)

lemma gate_Inr:
  assumes "gate w ex = Inr ex2"
  shows "reloadConfigIfNeeded w ex = Inr ex2" "cache ex2 = cache ex"
    "client ex2 \<noteq> None" "isAIExecutionEnabled (config ex2)"
proof -
  from assms obtain ex1 where r1: "reloadConfigIfNeeded w ex = Inr ex1"
    by (auto simp: gate_def split: sum.splits)
  then have r2: "reloadConfigIfNeeded w ex1 = Inr ex1"
    by (rule reloadConfig_fixed) simp_all
  with assms r1 have e: "ex2 = ex1" and a: "client ex1 \<noteq> None \<and> isAIExecutionEnabled (config ex1)"
    by (auto simp: gate_def isAvailable_def split: sum.splits if_splits)
  from r1 e show "reloadConfigIfNeeded w ex = Inr ex2" by simp
  from r1 e show "cache ex2 = cache ex" by (simp add: reloadConfig_cache)
  from a e show "client ex2 \<noteq> None" "isAIExecutionEnabled (config ex2)" by simp_all
qed

lemma gate_fixed:
  assumes "gate w ex = Inr ex2"
    and "processEnv w' = processEnv w" and "config ex' = config ex2" and "client ex' = client ex2"
  shows "gate w' ex' = Inr ex'"
proof -
  have r: "reloadConfigIfNeeded w' ex' = Inr ex'"
    using gate_Inr(1) [OF assms(1)] assms(2,3) by (rule reloadConfig_fixed)
  show ?thesis
    using gate_Inr(3,4) [OF assms(1)] assms(3,4)
    by (simp add: gate_def isAvailable_def r)
qed

lemma executePrompt_after_gate:
  assumes "gate w ex = Inr ex2"
  shows "executePrompt w ex prompt options =
    (let w1 = w\<lparr>ticks := Suc (ticks w)\<rparr>;
         startTime = clock w (ticks w);
         m = promptModel ex2 options;
         key = promptKey w ex2 prompt options
     in if cacheEnabled (config ex2)
        then (case getCachedResult w1 ex2 key of
                (Some cached', w2, ex3) \<Rightarrow> (Inr cached', w2, ex3)
              | (None, w2, ex3) \<Rightarrow> attemptLoop w2 ex3 prompt m options key startTime 0)
        else attemptLoop w1 ex2 prompt m options key startTime 0)"
proof -
  have r: "reloadConfigIfNeeded w ex = Inr ex2" by (rule gate_Inr(1) [OF assms])
  then have r2: "reloadConfigIfNeeded w ex2 = Inr ex2" by (rule reloadConfig_fixed) simp_all
  show ?thesis
    using gate_Inr(3,4) [OF assms]
    by (simp add: executePrompt_def r isAvailable_def r2 dateNow_def promptModel_def
        promptKey_def Let_def)
qed

lemma executePrompt_gate_error:
  "gate w ex = Inl err \<Longrightarrow> fst (executePrompt w ex prompt options) = Inl err"
  by (auto simp: gate_def executePrompt_def split: sum.splits if_splits prod.splits)

subsection \<open>Prompt executor: exhausting the retries\<close>

lemma getCachedResult_miss:
  assumes "\<not> cacheHit w ex key" "cacheEnabled (config ex)"
  obtains w2 ex3 where "getCachedResult (w\<lparr>ticks := Suc (ticks w)\<rparr>) ex key = (None, w2, ex3)"
    and "config ex3 = config ex" and "client ex3 = client ex" and "respond w2 = respond w"
    and "trace w2 = trace w" and "clock w2 = clock w" and "processEnv w2 = processEnv w"
    and "numberToString w2 = numberToString w" and "map_of (cache ex3) key = None"
    and "ticks w < ticks w2" and "ticks w2 \<le> ticks w + 2"
    and "\<And>k. k \<noteq> key \<Longrightarrow> map_of (cache ex3) k = map_of (cache ex) k"
proof (cases "map_of (cache ex) key")
  case None
  show ?thesis
    by (rule that [of "w\<lparr>ticks := Suc (ticks w)\<rparr>" ex])
      (simp_all add: getCachedResult_def None)
next
  case (Some entry)
  with assms have x: "clock w (Suc (ticks w)) > expiry entry" by (simp add: cacheHit_def)
  show ?thesis
    by (rule that [of "w\<lparr>ticks := Suc (Suc (ticks w))\<rparr>"
          "ex\<lparr>cache := AList.delete key (cache ex)\<rparr>"])
      (simp_all add: getCachedResult_def Some dateNow_def x delete_conv')
qed

lemma getCachedResult_hit:
  assumes "cacheHit w ex key"
  shows "\<exists>entry. map_of (cache ex) key = Some entry
    \<and> getCachedResult (w\<lparr>ticks := Suc (ticks w)\<rparr>) ex key
        = (Some (asCached (result entry)), w\<lparr>ticks := ticks w + 2\<rparr>, ex)"
  using assms
  by (auto simp: cacheHit_def getCachedResult_def dateNow_def asCached_def split: option.splits)

lemma callCount_trace: "trace w2 = trace w \<Longrightarrow> callCount w2 = callCount w"
  by (simp add: callCount_def)

lemma promptRequest_config:
  "config ex3 = config ex \<Longrightarrow> buildRequest ex3 prompt m options = buildRequest ex prompt m options"
  by (simp add: buildRequest_def split: option.splits)

lemma failingTrace_calls: "length (filter isCall (failingTrace req n)) = n + 1"
proof -
  have "length (filter isCall (concat (map (\<lambda>k. [Sleep (f k), Call req]) ks))) = length ks"
    for f :: "nat \<Rightarrow> int" and ks
    by (induction ks) simp_all
  then show ?thesis by (simp add: failingTrace_def)
qed

lemma failingTrace_sleeps:
  "sleepsOf (failingTrace req n) = map (\<lambda>k. min (1000 * 2 ^ (k - 1)) 10000) [1..<Suc n]"
proof -
  have "sleepsOf (concat (map (\<lambda>k. [Sleep (f k), Call req]) ks)) = map f ks"
    for f :: "nat \<Rightarrow> int" and ks
    by (induction ks) simp_all
  then show ?thesis by (simp add: failingTrace_def del: upt_Suc)
qed

lemma backoff_first_five:
  "map (\<lambda>k. min (1000 * 2 ^ (k - 1)) (10000::int)) [1..<6] = [1000, 2000, 4000, 8000, 10000]"
  by (simp add: upt_rec)

lemma backoff_capped:
  assumes "5 \<le> k" shows "min (1000 * 2 ^ (k - 1)) (10000::int) = 10000"
proof -
  from assms have "4 \<le> k - 1" by simp
  then have "(2::int) ^ 4 \<le> 2 ^ (k - 1)" by (rule power_increasing) simp
  then show ?thesis by simp
qed

text \<open>
  C3.  An execution that passes the gate, misses the cache and whose every provider call
  fails, with \<open>maxRetries \<ge> 0\<close>: it makes \<open>maxRetries + 1\<close> calls one after the other,
  waits \<open>min(1000 * 2^(k-1), 10000)\<close> ms before the \<open>k\<close>-th retry (1 s, 2 s, 4 s, 8 s, then
  10 s), and then raises one error with code \<open>AI_EXECUTION_FAILED\<close>, not retryable,
  whose \<open>originalError\<close> is the error of the last call.
\<close>

theorem executePrompt_retries_then_fails:
  assumes g: "gate w ex = Inr ex2"
    and miss: "\<not> cacheHit w ex2 (promptKey w ex2 prompt options)"
    and n: "0 \<le> maxRetries (config ex2)"
    and fails: "\<forall>i. isl (respond w i (promptRequest ex2 prompt options))"
  shows "(\<exists>w' ex'. executePrompt w ex prompt options =
            (Inl (executionFailed (maxRetries (config ex2))
                   (projl (respond w (callCount w + nat (maxRetries (config ex2)))
                             (promptRequest ex2 prompt options)))), w', ex')
          \<and> trace w' = trace w
                @ failingTrace (promptRequest ex2 prompt options) (nat (maxRetries (config ex2))))
    \<and> length (filter isCall
         (failingTrace (promptRequest ex2 prompt options) (nat (maxRetries (config ex2)))))
        = nat (maxRetries (config ex2)) + 1
    \<and> sleepsOf (failingTrace (promptRequest ex2 prompt options) (nat (maxRetries (config ex2))))
        = map (\<lambda>k. min (1000 * 2 ^ (k - 1)) 10000) [1..<Suc (nat (maxRetries (config ex2)))]
    \<and> map (\<lambda>k. min (1000 * 2 ^ (k - 1)) (10000::int)) [1..<6] = [1000, 2000, 4000, 8000, 10000]
    \<and> (\<forall>k \<ge> 5. min (1000 * 2 ^ (k - 1)) (10000::int) = 10000)
    \<and> (\<forall>m e. errCode (executionFailed m e) = Some ''AI_EXECUTION_FAILED''
           \<and> errRetryable (executionFailed m e) = Some False
           \<and> errOriginal (executionFailed m e) = Some e)"
proof -
  from n have "maxRetries (config ex2) = int (nat (maxRetries (config ex2)))" by simp
  then obtain k where mr: "maxRetries (config ex2) = int k" ..
  let ?m = "promptModel ex2 options"
  let ?key = "promptKey w ex2 prompt options"
  let ?req = "promptRequest ex2 prompt options"
  let ?w1 = "w\<lparr>ticks := Suc (ticks w)\<rparr>"
  let ?err = "executionFailed (int k) (projl (respond w (callCount w + k) ?req))"
  have run: "\<exists>w' ex'. executePrompt w ex prompt options = (Inl ?err, w', ex')
          \<and> trace w' = trace w @ failingTrace ?req k"
  proof (cases "cacheEnabled (config ex2)")
    case False
    have f1: "\<forall>i. isl (respond ?w1 i (buildRequest ex2 prompt ?m options))"
      using fails by (simp add: promptRequest_def)
    have al: "attemptLoop ?w1 ex2 prompt ?m options ?key (clock w (ticks w)) 0 =
      (Inl (executionFailed (int k)
              (projl (respond ?w1 (callCount ?w1 + (k - 0)) (buildRequest ex2 prompt ?m options)))),
       ?w1\<lparr>trace := trace ?w1 @ remainingTrace (buildRequest ex2 prompt ?m options) 0 k\<rparr>, ex2)"
      by (rule attemptLoop_all_fail [OF mr f1]) simp
    have ep: "executePrompt w ex prompt options
        = attemptLoop ?w1 ex2 prompt ?m options ?key (clock w (ticks w)) 0"
      using False by (simp add: executePrompt_after_gate [OF g] Let_def)
    have e1: "projl (respond ?w1 (callCount ?w1 + (k - 0)) (buildRequest ex2 prompt ?m options))
        = projl (respond w (callCount w + k) ?req)"
      by (simp add: promptRequest_def callCount_def)
    have t1: "trace (?w1\<lparr>trace := trace ?w1 @ remainingTrace (buildRequest ex2 prompt ?m options) 0 k\<rparr>)
        = trace w @ failingTrace ?req k"
      by (simp add: remainingTrace_0 promptRequest_def)
    show ?thesis
    proof (intro exI conjI)
      show "executePrompt w ex prompt options = (Inl ?err,
        ?w1\<lparr>trace := trace ?w1 @ remainingTrace (buildRequest ex2 prompt ?m options) 0 k\<rparr>, ex2)"
        by (simp only: ep al e1)
      show "trace (?w1\<lparr>trace := trace ?w1 @ remainingTrace (buildRequest ex2 prompt ?m options) 0 k\<rparr>)
        = trace w @ failingTrace ?req k" by (rule t1)
    qed
  next
    case True
    from miss True
    obtain w2 ex3 where gc: "getCachedResult ?w1 ex2 ?key = (None, w2, ex3)"
      and c: "config ex3 = config ex2" and rs: "respond w2 = respond w"
      and tr: "trace w2 = trace w" by (rule getCachedResult_miss)
    have rq: "buildRequest ex3 prompt ?m options = ?req"
      by (simp add: promptRequest_def promptRequest_config [OF c])
    have f1: "\<forall>i. isl (respond w2 i (buildRequest ex3 prompt ?m options))"
      using fails by (simp add: rq rs)
    have mr3: "maxRetries (config ex3) = int k" using mr c by simp
    have al: "attemptLoop w2 ex3 prompt ?m options ?key (clock w (ticks w)) 0 =
      (Inl (executionFailed (int k)
              (projl (respond w2 (callCount w2 + (k - 0)) (buildRequest ex3 prompt ?m options)))),
       w2\<lparr>trace := trace w2 @ remainingTrace (buildRequest ex3 prompt ?m options) 0 k\<rparr>, ex3)"
      by (rule attemptLoop_all_fail [OF mr3 f1]) simp
    have ep: "executePrompt w ex prompt options
        = attemptLoop w2 ex3 prompt ?m options ?key (clock w (ticks w)) 0"
      using True by (simp add: executePrompt_after_gate [OF g] Let_def gc)
    have e1: "projl (respond w2 (callCount w2 + (k - 0)) (buildRequest ex3 prompt ?m options))
        = projl (respond w (callCount w + k) ?req)"
      by (simp add: rq rs callCount_trace [OF tr])
    have t1: "trace (w2\<lparr>trace := trace w2 @ remainingTrace (buildRequest ex3 prompt ?m options) 0 k\<rparr>)
        = trace w @ failingTrace ?req k"
      by (simp add: remainingTrace_0 rq tr)
    show ?thesis
    proof (intro exI conjI)
      show "executePrompt w ex prompt options = (Inl ?err,
        w2\<lparr>trace := trace w2 @ remainingTrace (buildRequest ex3 prompt ?m options) 0 k\<rparr>, ex3)"
        by (simp only: ep al e1)
      show "trace (w2\<lparr>trace := trace w2 @ remainingTrace (buildRequest ex3 prompt ?m options) 0 k\<rparr>)
        = trace w @ failingTrace ?req k" by (rule t1)
    qed
  qed
  have props: "\<forall>m e. errCode (executionFailed m e) = Some ''AI_EXECUTION_FAILED''
           \<and> errRetryable (executionFailed m e) = Some False
           \<and> errOriginal (executionFailed m e) = Some e"
    by (simp add: executionFailed_def createError_def)
  have cap: "\<forall>k \<ge> 5. min (1000 * 2 ^ (k - 1)) (10000::int) = 10000"
    using backoff_capped by blast
  show ?thesis
    unfolding mr nat_int
    by (intro conjI run failingTrace_calls failingTrace_sleeps backoff_first_five cap props)
qed

lemma executePrompt_cache_hit:
  assumes g: "gate w ex = Inr ex2"
    and hit: "cacheHit w ex2 (promptKey w ex2 prompt options)"
  shows "\<exists>entry. map_of (cache ex2) (promptKey w ex2 prompt options) = Some entry
    \<and> executePrompt w ex prompt options
        = (Inr (asCached (result entry)), w\<lparr>ticks := ticks w + 2\<rparr>, ex2)"
proof -
  from getCachedResult_hit [OF hit] obtain entry where
    e: "map_of (cache ex2) (promptKey w ex2 prompt options) = Some entry"
    and gc: "getCachedResult (w\<lparr>ticks := Suc (ticks w)\<rparr>) ex2 (promptKey w ex2 prompt options)
        = (Some (asCached (result entry)), w\<lparr>ticks := ticks w + 2\<rparr>, ex2)" by blast
  from hit have "cacheEnabled (config ex2)" by (simp add: cacheHit_def)
  then have "executePrompt w ex prompt options
        = (Inr (asCached (result entry)), w\<lparr>ticks := ticks w + 2\<rparr>, ex2)"
    by (simp add: executePrompt_after_gate [OF g] Let_def gc)
  with e show ?thesis by blast
qed

lemma exampleExecutor_gate:
  "gate (exampleWorld keyEnv r) (exampleExecutor keyEnv) = Inr (exampleExecutor keyEnv)"
  by (simp add: exampleWorld_def) code_simp

lemma exampleExecutor_config:
  "maxRetries (config (exampleExecutor keyEnv)) = 3"
  "cacheEnabled (config (exampleExecutor keyEnv))"
  "cache (exampleExecutor keyEnv) = []"
  "cacheTTL (config (exampleExecutor keyEnv)) = 3600"
  by code_simp+

theorem executePrompt_retries_then_fails_witness:
  "gate (exampleWorld keyEnv failingProvider) (exampleExecutor keyEnv)
     = Inr (exampleExecutor keyEnv)
   \<and> \<not> cacheHit (exampleWorld keyEnv failingProvider) (exampleExecutor keyEnv)
         (promptKey (exampleWorld keyEnv failingProvider) (exampleExecutor keyEnv)
            ''hello'' noOptions)
   \<and> 0 \<le> maxRetries (config (exampleExecutor keyEnv))
   \<and> (\<forall>i. isl (respond (exampleWorld keyEnv failingProvider) i
          (promptRequest (exampleExecutor keyEnv) ''hello'' noOptions)))
   \<and> fst (executePrompt (exampleWorld keyEnv failingProvider) (exampleExecutor keyEnv)
          ''hello'' noOptions)
       = Inl (executionFailed 3 (JsError ''APIError'' ''attempt 3 failed'' None None None))
   \<and> sleepsOf (trace (fst (snd (executePrompt (exampleWorld keyEnv failingProvider)
          (exampleExecutor keyEnv) ''hello'' noOptions)))) = [1000, 2000, 4000]"
proof -
  let ?w = "exampleWorld keyEnv failingProvider"
  let ?ex = "exampleExecutor keyEnv"
  have g: "gate ?w ?ex = Inr ?ex" by (rule exampleExecutor_gate)
  have miss: "\<not> cacheHit ?w ?ex (promptKey ?w ?ex ''hello'' noOptions)"
    by (simp add: cacheHit_def exampleExecutor_config)
  have n: "0 \<le> maxRetries (config ?ex)" by (simp add: exampleExecutor_config)
  have fails: "\<forall>i. isl (respond ?w i (promptRequest ?ex ''hello'' noOptions))"
    by (simp add: exampleWorld_def failingProvider_def)
  have c0: "callCount ?w = 0" by (simp add: callCount_def exampleWorld_def)
  have t0: "trace ?w = []" by (simp add: exampleWorld_def)
  have l: "projl (respond ?w 3 (promptRequest ?ex ''hello'' noOptions))
      = JsError ''APIError'' ''attempt 3 failed'' None None None"
    by (simp add: exampleWorld_def failingProvider_def) code_simp
  from executePrompt_retries_then_fails [OF g miss n fails]
  obtain w' ex' where
    "executePrompt ?w ?ex ''hello'' noOptions =
       (Inl (executionFailed (maxRetries (config ?ex))
          (projl (respond ?w (callCount ?w + nat (maxRetries (config ?ex)))
             (promptRequest ?ex ''hello'' noOptions)))), w', ex')"
    and "trace w' = trace ?w
       @ failingTrace (promptRequest ?ex ''hello'' noOptions) (nat (maxRetries (config ?ex)))"
    and "sleepsOf (failingTrace (promptRequest ?ex ''hello'' noOptions)
            (nat (maxRetries (config ?ex))))
        = map (\<lambda>k. min (1000 * 2 ^ (k - 1)) 10000) [1..<Suc (nat (maxRetries (config ?ex)))]"
    by blast
  then show ?thesis
    using g miss n fails
    by (simp add: exampleExecutor_config c0 t0 l upt_rec)
qed

subsection \<open>Prompt executor: cache hits\<close>

lemma map_of_filter_keep:
  "map_of xs k = Some v \<Longrightarrow> P (k, v) \<Longrightarrow> map_of (filter P xs) k = Some v"
  by (induction xs) (auto split: if_splits)

lemma setCachedResult_effect:
  assumes "setCachedResult w3 ex key v = (w', ex')"
  defines "stored \<equiv> AList.update key
      \<lparr>result = v, expiry = clock w3 (ticks w3) + cacheTTL (config ex) * 1000\<rparr> (cache ex)"
  shows "config ex' = config ex" "client ex' = client ex"
    "processEnv w' = processEnv w3" "clock w' = clock w3" "respond w' = respond w3"
    "numberToString w' = numberToString w3" "trace w' = trace w3"
    "length stored > 100 \<Longrightarrow> ticks w' = ticks w3 + 2
       \<and> cache ex' = filter (\<lambda>(k, e). \<not> clock w3 (Suc (ticks w3)) > expiry e) stored"
    "\<not> length stored > 100 \<Longrightarrow> ticks w' = Suc (ticks w3) \<and> cache ex' = stored"
  using assms(1) unfolding stored_def
  by (auto simp: setCachedResult_def cleanupCache_def dateNow_def Let_def split: if_splits)

lemma attemptLoop_effect:
  "attemptLoop w ex prompt m options key start r = (res, w', ex') \<Longrightarrow>
     config ex' = config ex \<and> client ex' = client ex
     \<and> processEnv w' = processEnv w \<and> clock w' = clock w \<and> respond w' = respond w
     \<and> numberToString w' = numberToString w
     \<and> (case res of
           Inl e \<Rightarrow> ex' = ex \<and> ticks w' = ticks w
         | Inr v \<Rightarrow>
             \<not> cached (metadata v)
             \<and> (\<exists>w3. ticks w3 = ticks w + 2 \<and> clock w3 = clock w
                   \<and> (w', ex') = (if cacheEnabled (config ex)
                                  then setCachedResult w3 ex key v else (w3, ex))))"
proof (induction w ex prompt m options key start r arbitrary: res w' ex' rule: attemptLoop.induct)
  case (1 w ex prompt m options key start r)
  let ?req = "buildRequest ex prompt m options"
  let ?w1 = "w\<lparr>trace := trace w @ [Call ?req]\<rparr>"
  show ?case
  proof (cases "int r \<le> maxRetries (config ex)")
    case False
    with "1.prems" show ?thesis
      by (subst (asm) attemptLoop.simps) (auto simp: Let_def)
  next
    case True
    show ?thesis
    proof (cases "respond w (callCount w) ?req")
      case (Inl e)
      show ?thesis
      proof (cases "int (Suc r) > maxRetries (config ex)")
        case t: True
        with "1.prems" True Inl show ?thesis
          by (subst (asm) attemptLoop.simps) (auto simp: Let_def createCompletion_def)
      next
        case f: False
        let ?w2 = "sleep ?w1 (backoffDelay (Suc r))"
        from "1.prems" True Inl f
        have rec: "attemptLoop ?w2 ex prompt m options key start (Suc r) = (res, w', ex')"
          by (subst (asm) attemptLoop.simps) (simp add: Let_def createCompletion_def)
        have cc: "(Inl e, ?w1) = createCompletion w ?req"
          by (simp add: createCompletion_def Inl)
        have f': "\<not> maxRetries (config ex) < int (r + 1)" using f by simp
        have rec': "attemptLoop (sleep ?w1 (backoffDelay (r + 1))) ex prompt m options key start (r + 1)
            = (res, w', ex')" using rec by simp
        note "1.IH" [OF refl True cc refl f' rec']
        then show ?thesis by (cases res) (simp_all add: sleep_def)
      qed
    next
      case (Inr c)
      let ?w3 = "?w1\<lparr>ticks := ticks w + 2\<rparr>"
      let ?v = "\<lparr>content = orElse (choiceContent c) '''',
                 AIExecutionResult.model = completionModel c,
                 usage = completionUsage c,
                 metadata = \<lparr>executionTime = clock w (ticks w) - start, cached = False,
                              retryCount = r, timestamp = clock w (Suc (ticks w))\<rparr>\<rparr>"
      from "1.prems" True Inr
      have "res = Inr ?v \<and> (w', ex') = (if cacheEnabled (config ex)
                                  then setCachedResult ?w3 ex key ?v else (?w3, ex))"
        by (subst (asm) attemptLoop.simps)
          (auto simp: Let_def createCompletion_def dateNow_def split: prod.splits if_splits)
      moreover have "cacheEnabled (config ex) \<Longrightarrow> (w', ex') = setCachedResult ?w3 ex key ?v \<Longrightarrow>
          config ex' = config ex \<and> client ex' = client ex
           \<and> processEnv w' = processEnv w \<and> clock w' = clock w \<and> respond w' = respond w
           \<and> numberToString w' = numberToString w"
        using setCachedResult_effect(1-6) [of ?w3 ex key ?v w' ex'] by simp
      ultimately show ?thesis
        by (cases "cacheEnabled (config ex)") (auto intro!: exI [of _ ?w3])
    qed
  qed
qed

lemma executePrompt_success_gate:
  assumes "executePrompt w ex prompt options = (Inr r, w1, ex1)"
  obtains ex2 where "gate w ex = Inr ex2"
proof (cases "gate w ex")
  case (Inl err)
  then have "fst (executePrompt w ex prompt options) = Inl err"
    by (rule executePrompt_gate_error)
  with assms show ?thesis by simp
next
  case (Inr ex2)
  then show ?thesis by (rule that)
qed

lemma promptKey_same:
  "numberToString w1 = numberToString w \<Longrightarrow> config ex1 = config ex2 \<Longrightarrow>
     promptKey w1 ex1 prompt options = promptKey w ex2 prompt options"
  by (simp add: promptKey_def promptModel_def)

lemma executePrompt_second_hit:
  assumes first: "executePrompt w ex prompt options = (Inr r1, w1, ex1)"
    and fresh: "\<not> cached (metadata r1)"
    and enabled: "cacheEnabled (config ex1)"
    and mono: "\<forall>i j. i \<le> j \<longrightarrow> clock w i \<le> clock w j"
    and within: "clock w (Suc (ticks w1)) \<le> clock w (ticks w) + cacheTTL (config ex1) * 1000"
  shows "executePrompt w1 ex1 prompt options
    = (Inr (asCached r1), w1\<lparr>ticks := ticks w1 + 2\<rparr>, ex1)"
proof -
  from first obtain ex2 where g: "gate w ex = Inr ex2" by (rule executePrompt_success_gate)
  let ?key = "promptKey w ex2 prompt options"
  let ?m = "promptModel ex2 options"
  let ?w1 = "w\<lparr>ticks := Suc (ticks w)\<rparr>"
  note ep = executePrompt_after_gate [OF g, of prompt options]
  show ?thesis
  proof (cases "cacheEnabled (config ex2)")
    case False
    with first ep have "attemptLoop ?w1 ex2 prompt ?m options ?key (clock w (ticks w)) 0
        = (Inr r1, w1, ex1)" by (simp add: Let_def)
    from attemptLoop_effect [OF this] have "config ex1 = config ex2" by simp
    with False enabled show ?thesis by simp
  next
    case True
    show ?thesis
    proof (cases "cacheHit w ex2 ?key")
      case hit: True
      from executePrompt_cache_hit [OF g hit] first have "cached (metadata r1)"
        by (auto simp: asCached_def)
      with fresh show ?thesis by simp
    next
      case miss: False
      from miss True obtain w2 ex3 where
        gc: "getCachedResult ?w1 ex2 ?key = (None, w2, ex3)"
        and c3: "config ex3 = config ex2" and cl3: "client ex3 = client ex2"
        and k2: "clock w2 = clock w" and e2: "processEnv w2 = processEnv w"
        and n2: "numberToString w2 = numberToString w"
        and t2: "ticks w < ticks w2"
        by (rule getCachedResult_miss)
      from first ep True gc
      have al: "attemptLoop w2 ex3 prompt ?m options ?key (clock w (ticks w)) 0
          = (Inr r1, w1, ex1)" by (simp add: Let_def)
      from attemptLoop_effect [OF al] True c3
      obtain w3 where c1: "config ex1 = config ex2" and cl1: "client ex1 = client ex2"
        and e1: "processEnv w1 = processEnv w" and k1: "clock w1 = clock w"
        and n1: "numberToString w1 = numberToString w"
        and t3: "ticks w3 = ticks w2 + 2" and k3: "clock w3 = clock w"
        and st: "setCachedResult w3 ex3 ?key r1 = (w1, ex1)"
        by (auto simp: cl3 k2 e2 n2)
      let ?e = "\<lparr>result = r1, expiry = clock w (ticks w3) + cacheTTL (config ex1) * 1000\<rparr>"
      let ?stored = "AList.update ?key ?e (cache ex3)"
      note se = setCachedResult_effect(8,9) [OF st, unfolded k3 c3 c1 [symmetric]]
      have ms: "map_of ?stored ?key = Some ?e" by (simp add: update_conv')
      have tk: "ticks w \<le> ticks w3" using t2 t3 by simp
      have present: "map_of (cache ex1) ?key = Some ?e \<and> ticks w3 < ticks w1"
      proof (cases "length ?stored > 100")
        case False
        with se(2) ms show ?thesis by simp
      next
        case big: True
        with se(1) have tw: "ticks w1 = ticks w3 + 2"
          and ce: "cache ex1 = filter (\<lambda>(k, e). \<not> clock w (Suc (ticks w3)) > expiry e) ?stored"
          by simp_all
        have "clock w (Suc (ticks w3)) \<le> clock w (Suc (ticks w1))" using mono tw by simp
        also note within
        also have "clock w (ticks w) \<le> clock w (ticks w3)" using mono tk by blast
        finally have "\<not> clock w (Suc (ticks w3)) > expiry ?e" by simp
        then have "map_of (filter (\<lambda>(k, e). \<not> clock w (Suc (ticks w3)) > expiry e) ?stored) ?key
            = Some ?e"
          by (intro map_of_filter_keep ms) simp
        with ce tw show ?thesis by simp
      qed
      have g1: "gate w1 ex1 = Inr ex1" using g e1 c1 cl1 by (rule gate_fixed)
      have key1: "promptKey w1 ex1 prompt options = ?key" using n1 c1 by (rule promptKey_same)
      have "clock w (ticks w) \<le> clock w (ticks w3)" using mono tk by blast
      with within have live: "\<not> clock w (Suc (ticks w1)) > expiry ?e" by simp
      have hit1: "cacheHit w1 ex1 (promptKey w1 ex1 prompt options)"
        unfolding key1 cacheHit_def using enabled present live by (simp add: k1)
      from executePrompt_cache_hit [OF g1 hit1] present show ?thesis
        by (auto simp: key1)
    qed
  qed
qed

lemma asCached_fields:
  "content (asCached r) = content r"
  "retryCount (metadata (asCached r)) = retryCount (metadata r)"
  "cached (metadata (asCached r))"
  by (simp_all add: asCached_def)

text \<open>
  Claim C2, with the availability check that precedes the cache check made a condition.
  An execution that passes the gate (the configuration loads and the executor is
  available) with caching enabled and finds an unexpired entry under its key returns the
  stored result marked \<open>cached\<close> and leaves the trace as it was: no provider call is
  made.  Hence, after an execution that returned a fresh result \<open>r1\<close> with caching
  enabled, the same execution repeated within the TTL (on a clock that does not run
  backwards), on the world and the executor that the first one left, returns \<open>r1\<close>
  marked \<open>cached\<close>, with the content and the retry count of \<open>r1\<close>, and makes no
  provider call.
\<close>

theorem executePrompt_cache_idempotent:
  "(gate w ex = Inr ex2 \<and> cacheHit w ex2 (promptKey w ex2 prompt options) \<longrightarrow>
      (\<exists>entry. map_of (cache ex2) (promptKey w ex2 prompt options) = Some entry
         \<and> executePrompt w ex prompt options
             = (Inr (asCached (result entry)), w\<lparr>ticks := ticks w + 2\<rparr>, ex2)))
   \<and> (executePrompt w ex prompt options = (Inr r1, w1, ex1)
       \<and> \<not> cached (metadata r1) \<and> cacheEnabled (config ex1)
       \<and> (\<forall>i j. i \<le> j \<longrightarrow> clock w i \<le> clock w j)
       \<and> clock w (Suc (ticks w1)) \<le> clock w (ticks w) + cacheTTL (config ex1) * 1000 \<longrightarrow>
         executePrompt w1 ex1 prompt options
           = (Inr (asCached r1), w1\<lparr>ticks := ticks w1 + 2\<rparr>, ex1))
   \<and> content (asCached r) = content r
   \<and> retryCount (metadata (asCached r)) = retryCount (metadata r)
   \<and> cached (metadata (asCached r))
   \<and> trace (w\<lparr>ticks := n\<rparr>) = trace w \<and> callCount (w\<lparr>ticks := n\<rparr>) = callCount w"
proof (intro conjI impI)
  assume "gate w ex = Inr ex2 \<and> cacheHit w ex2 (promptKey w ex2 prompt options)"
  then show "\<exists>entry. map_of (cache ex2) (promptKey w ex2 prompt options) = Some entry
         \<and> executePrompt w ex prompt options
             = (Inr (asCached (result entry)), w\<lparr>ticks := ticks w + 2\<rparr>, ex2)"
    using executePrompt_cache_hit by blast
next
  assume a: "executePrompt w ex prompt options = (Inr r1, w1, ex1)
       \<and> \<not> cached (metadata r1) \<and> cacheEnabled (config ex1)
       \<and> (\<forall>i j. i \<le> j \<longrightarrow> clock w i \<le> clock w j)
       \<and> clock w (Suc (ticks w1)) \<le> clock w (ticks w) + cacheTTL (config ex1) * 1000"
  show "executePrompt w1 ex1 prompt options
           = (Inr (asCached r1), w1\<lparr>ticks := ticks w1 + 2\<rparr>, ex1)"
    by (rule executePrompt_second_hit) (use a in blast)+
qed (simp_all add: asCached_def callCount_def)

lemma firstRun_result:
  "fst firstRun = Inr firstResult"
  "ticks (fst (snd firstRun)) = 4"
  "cacheEnabled (config (snd (snd firstRun)))"
  "cacheTTL (config (snd (snd firstRun))) = 3600"
  "trace (fst (snd firstRun))
     = [Call \<lparr>requestModel = ''anthropic/claude-3-sonnet'',
              messages = [(''user'', ''Analyze this ADR: one'')],
              requestTemperature = Num (1 / 10), max_tokens = 4000\<rparr>]"
  by code_simp+

theorem executePrompt_cache_idempotent_witness:
  "executePrompt (exampleWorld keyEnv echoProvider) (exampleExecutor keyEnv)
     ''Analyze this ADR: one'' noOptions
     = (Inr firstResult, fst (snd firstRun), snd (snd firstRun))
   \<and> \<not> cached (metadata firstResult) \<and> cacheEnabled (config (snd (snd firstRun)))
   \<and> clock (exampleWorld keyEnv echoProvider) 2 \<le> clock (exampleWorld keyEnv echoProvider) 3
   \<and> clock (exampleWorld keyEnv echoProvider) (Suc (ticks (fst (snd firstRun))))
       \<le> clock (exampleWorld keyEnv echoProvider) (ticks (exampleWorld keyEnv echoProvider))
           + cacheTTL (config (snd (snd firstRun))) * 1000
   \<and> fst repeatedRun = Inr (asCached firstResult)
   \<and> trace (fst (snd repeatedRun)) = trace (fst (snd firstRun))
   \<and> content (asCached firstResult) = ''Analyze this ADR: one''"
proof -
  let ?w = "exampleWorld keyEnv echoProvider"
  have f: "executePrompt ?w (exampleExecutor keyEnv) ''Analyze this ADR: one'' noOptions
     = (Inr firstResult, fst (snd firstRun), snd (snd firstRun))"
    using firstRun_result(1) by (simp add: firstRun_def prod_eq_iff)
  have fresh: "\<not> cached (metadata firstResult)" by (simp add: firstResult_def)
  have mono: "\<forall>i j. i \<le> j \<longrightarrow> clock ?w i \<le> clock ?w j" by (simp add: exampleWorld_def)
  have within: "clock ?w (Suc (ticks (fst (snd firstRun))))
       \<le> clock ?w (ticks ?w) + cacheTTL (config (snd (snd firstRun))) * 1000"
    by (simp add: firstRun_result exampleWorld_def)
  from executePrompt_cache_idempotent
    [of ?w "exampleExecutor keyEnv" _ "''Analyze this ADR: one''" noOptions firstResult
       "fst (snd firstRun)" "snd (snd firstRun)"]
    f fresh firstRun_result(3) mono within
  have "executePrompt (fst (snd firstRun)) (snd (snd firstRun)) ''Analyze this ADR: one'' noOptions
      = (Inr (asCached firstResult),
         (fst (snd firstRun))\<lparr>ticks := ticks (fst (snd firstRun)) + 2\<rparr>, snd (snd firstRun))"
    by blast
  then have "fst repeatedRun = Inr (asCached firstResult)"
    "trace (fst (snd repeatedRun)) = trace (fst (snd firstRun))"
    by (simp_all add: repeatedRun_def)
  moreover have "clock ?w 2 \<le> clock ?w 3" using mono by simp
  ultimately show ?thesis
    using f fresh firstRun_result(3) within
    by (simp add: asCached_def firstResult_def)
qed

text \<open>
  The unconditional claim C2 fails: \<open>executePrompt\<close> reloads the configuration and checks
  the availability of the executor before it consults the cache.  After the first run the
  cache holds an unexpired entry under the key of the prompt and caching is enabled.  When
  the environment then sets \<open>EXECUTION_MODE=prompt-only\<close>, or when \<open>updateConfig\<close> has set a
  temperature outside the valid range and thereby cleared the client, the repeated
  execution throws \<open>AI_UNAVAILABLE\<close> although the entry is still there and unexpired.
\<close>

theorem executePrompt_unavailable_counterexample:
  "cacheHit (fst (snd firstRun)) (snd (snd firstRun))
     (promptKey (fst (snd firstRun)) (snd (snd firstRun)) ''Analyze this ADR: one'' noOptions)
   \<and> fst switchedOffRun = Inl unavailable
   \<and> cacheHit (fst (snd switchedOffRun)) (snd (snd switchedOffRun))
         (promptKey (fst (snd switchedOffRun)) (snd (snd switchedOffRun))
            ''Analyze this ADR: one'' noOptions)
   \<and> fst reconfiguredRun = Inl unavailable
   \<and> cacheHit (fst (snd reconfiguredRun)) (snd (snd reconfiguredRun))
         (promptKey (fst (snd reconfiguredRun)) (snd (snd reconfiguredRun))
            ''Analyze this ADR: one'' noOptions)
   \<and> errCode unavailable = Some ''AI_UNAVAILABLE''"
  by code_simp
subsection \<open>Prompt executor: pruning the cache\<close>

lemma setCachedResult_keeps:
  assumes st: "setCachedResult w ex key v = (w', ex')"
    and k: "k \<noteq> key" and m: "map_of (cache ex) k = Some e"
    and live: "\<not> clock w (Suc (ticks w)) > expiry e"
  shows "map_of (cache ex') k = Some e"
proof -
  let ?stored = "AList.update key
      \<lparr>result = v, expiry = clock w (ticks w) + cacheTTL (config ex) * 1000\<rparr> (cache ex)"
  have ms: "map_of ?stored k = Some e" using k m by (simp add: update_conv')
  show ?thesis
  proof (cases "length ?stored > 100")
    case True
    from setCachedResult_effect(8) [OF st True]
    have "cache ex' = filter (\<lambda>(k, e). \<not> clock w (Suc (ticks w)) > expiry e) ?stored" by simp
    moreover have "map_of (filter (\<lambda>(k, e). \<not> clock w (Suc (ticks w)) > expiry e) ?stored) k
        = Some e"
      by (intro map_of_filter_keep ms) (use live in simp)
    ultimately show ?thesis by simp
  next
    case False
    from setCachedResult_effect(9) [OF st False] ms show ?thesis by simp
  qed
qed

lemma setCachedResult_prunes:
  assumes st: "setCachedResult w ex key v = (w', ex')"
  defines "stored \<equiv> AList.update key
      \<lparr>result = v, expiry = clock w (ticks w) + cacheTTL (config ex) * 1000\<rparr> (cache ex)"
  shows "length stored > 100 \<Longrightarrow>
           set (cache ex') = {p \<in> set stored. \<not> clock w (Suc (ticks w)) > expiry (snd p)}"
    and "\<not> length stored > 100 \<Longrightarrow> cache ex' = stored"
  using setCachedResult_effect(8,9) [OF st] unfolding stored_def
  by (auto simp: case_prod_unfold)

lemma getCachedResult_keeps:
  assumes gc: "getCachedResult w ex key = (r, w', ex')"
    and m: "map_of (cache ex) k = Some e"
    and live: "k \<noteq> key \<or> \<not> clock w (ticks w) > expiry e"
  shows "map_of (cache ex') k = Some e" "config ex' = config ex" "client ex' = client ex"
  using assms
  by (auto simp: getCachedResult_def dateNow_def delete_conv' split: option.splits if_splits)

lemma executePrompt_gate_error_cache:
  "gate w ex = Inl err \<Longrightarrow> executePrompt w ex prompt options = (r, w', ex') \<Longrightarrow>
     cache ex' = cache ex \<and> w' = w"
  by (auto simp: gate_def executePrompt_def isAvailable_def reloadConfig_cache
      split: sum.splits if_splits prod.splits)

lemma attemptLoop_keeps:
  assumes al: "attemptLoop w ex prompt m options key start r = (res, w', ex')"
    and absent: "cacheEnabled (config ex) \<longrightarrow> k \<noteq> key"
    and me: "map_of (cache ex) k = Some e"
    and live: "\<forall>i. ticks w \<le> i \<and> i < ticks w' \<longrightarrow> clock w i \<le> expiry e"
  shows "map_of (cache ex') k = Some e"
proof (cases res)
  case (Inl err)
  with attemptLoop_effect [OF al] me show ?thesis by simp
next
  case (Inr v)
  with attemptLoop_effect [OF al] obtain w3 where t3: "ticks w3 = ticks w + 2"
    and k3: "clock w3 = clock w"
    and st: "(w', ex') = (if cacheEnabled (config ex)
                                  then setCachedResult w3 ex key v else (w3, ex))" by auto
  show ?thesis
  proof (cases "cacheEnabled (config ex)")
    case False
    with st me show ?thesis by simp
  next
    case True
    with st have s: "setCachedResult w3 ex key v = (w', ex')" by simp
    from True absent have kk: "k \<noteq> key" by simp
    let ?stored = "AList.update key
      \<lparr>result = v, expiry = clock w3 (ticks w3) + cacheTTL (config ex) * 1000\<rparr> (cache ex)"
    show ?thesis
    proof (cases "length ?stored > 100")
      case big: True
      from setCachedResult_effect(8) [OF s big] have "ticks w' = ticks w3 + 2" by simp
      with t3 live have "clock w (Suc (ticks w3)) \<le> expiry e" by simp
      then have "\<not> clock w3 (Suc (ticks w3)) > expiry e" by (simp add: k3)
      with s kk me show ?thesis by (rule setCachedResult_keeps)
    next
      case small: False
      from setCachedResult_effect(9) [OF s small] kk me show ?thesis
        by (simp add: update_conv')
    qed
  qed
qed

lemma attemptLoop_ticks:
  "attemptLoop w ex prompt m options key start r = (res, w', ex') \<Longrightarrow> ticks w \<le> ticks w'"
proof -
  assume al: "attemptLoop w ex prompt m options key start r = (res, w', ex')"
  show ?thesis
  proof (cases res)
    case (Inl err)
    with attemptLoop_effect [OF al] show ?thesis by simp
  next
    case (Inr v)
    with attemptLoop_effect [OF al] obtain w3 where t3: "ticks w3 = ticks w + 2"
      and st: "(w', ex') = (if cacheEnabled (config ex)
                                  then setCachedResult w3 ex key v else (w3, ex))" by auto
    show ?thesis
    proof (cases "cacheEnabled (config ex)")
      case False
      with st t3 show ?thesis by simp
    next
      case True
      with st have s: "setCachedResult w3 ex key v = (w', ex')" by simp
      from setCachedResult_effect(8,9) [OF s] t3 show ?thesis by (metis add_leD1 le_add1 le_SucI add_2_eq_Suc')
    qed
  qed
qed

lemma executePrompt_keeps:
  assumes ep: "executePrompt w ex prompt options = (res, w', ex')"
    and me: "map_of (cache ex) k = Some e"
    and live: "\<forall>i. ticks w \<le> i \<and> i < ticks w' \<longrightarrow> clock w i \<le> expiry e"
  shows "map_of (cache ex') k = Some e"
proof (cases "gate w ex")
  case (Inl err)
  from executePrompt_gate_error_cache [OF Inl ep] me show ?thesis by simp
next
  case (Inr ex2)
  note g = this
  let ?key = "promptKey w ex2 prompt options"
  let ?m = "promptModel ex2 options"
  let ?w1 = "w\<lparr>ticks := Suc (ticks w)\<rparr>"
  note ep' = executePrompt_after_gate [OF g, of prompt options]
  have me2: "map_of (cache ex2) k = Some e" using gate_Inr(2) [OF g] me by simp
  show ?thesis
  proof (cases "cacheEnabled (config ex2)")
    case False
    with ep ep' have al: "attemptLoop ?w1 ex2 prompt ?m options ?key (clock w (ticks w)) 0
        = (res, w', ex')" by (simp add: Let_def)
    have "\<forall>i. ticks ?w1 \<le> i \<and> i < ticks w' \<longrightarrow> clock ?w1 i \<le> expiry e" using live by simp
    with al show ?thesis using False me2 by (intro attemptLoop_keeps [OF al]) simp_all
  next
    case True
    show ?thesis
    proof (cases "cacheHit w ex2 ?key")
      case hit: True
      from executePrompt_cache_hit [OF g hit] ep have "ex' = ex2" by auto
      with me2 show ?thesis by simp
    next
      case miss: False
      from miss True obtain w2 ex3 where
        gc: "getCachedResult ?w1 ex2 ?key = (None, w2, ex3)"
        and c3: "config ex3 = config ex2"
        and k2: "clock w2 = clock w"
        and t2: "ticks w < ticks w2"
        and absent: "map_of (cache ex3) ?key = None"
        and others: "\<forall>k. k \<noteq> ?key \<longrightarrow> map_of (cache ex3) k = map_of (cache ex2) k"
        by (rule getCachedResult_miss) blast
      from ep ep' True gc
      have al: "attemptLoop w2 ex3 prompt ?m options ?key (clock w (ticks w)) 0
          = (res, w', ex')" by (simp add: Let_def)
      have t2': "ticks w2 \<le> ticks w'" using al by (rule attemptLoop_ticks)
      have kk: "k \<noteq> ?key"
      proof
        assume eq: "k = ?key"
        with me2 have p: "map_of (cache ex2) ?key = Some e" by simp
        from t2 t2' have "ticks w \<le> Suc (ticks w) \<and> Suc (ticks w) < ticks w'"
          using gc p miss True
          by (auto simp: getCachedResult_def dateNow_def cacheHit_def split: if_splits)
        with live have "clock w (Suc (ticks w)) \<le> expiry e" by blast
        with p True have "cacheHit w ex2 ?key" by (simp add: cacheHit_def)
        with miss show False by simp
      qed
      have me3: "map_of (cache ex3) k = Some e" using others kk me2 by simp
      have l3: "\<forall>i. ticks w2 \<le> i \<and> i < ticks w' \<longrightarrow> clock w2 i \<le> expiry e"
        using live t2 by (simp add: k2)
      show ?thesis
        by (rule attemptLoop_keeps [OF al _ me3 l3]) (simp add: kk)
    qed
  qed
qed

lemma getCachedResult_retrieves:
  "map_of (cache ex) k = Some e \<Longrightarrow> \<not> clock w (ticks w) > expiry e \<Longrightarrow>
     fst (getCachedResult w ex k) = Some (asCached (result e))"
  by (simp add: getCachedResult_def dateNow_def asCached_def)

text \<open>
  C9.  Storing a result puts it under its key; when the cache then holds more than 100
  entries, the entries that remain are exactly those whose expiry has not passed at the
  reading of the cleanup, and otherwise nothing is removed; every other entry that is
  unexpired at that reading is still in the cache, and a lookup before its expiry returns
  it.  An execution of a prompt keeps every entry that is unexpired at all readings of the
  clock it takes; a lookup removes at most the expired entry of its own key; reloading the
  configuration, checking availability, reinitializing the client and updating the
  configuration leave the cache as it is; \<open>clearCache\<close> empties it.
\<close>

theorem cache_pruning_keeps_unexpired:
  "(setCachedResult w ex key v = (w', ex') \<longrightarrow>
      (length (AList.update key
          \<lparr>result = v, expiry = clock w (ticks w) + cacheTTL (config ex) * 1000\<rparr> (cache ex)) > 100
        \<longrightarrow> set (cache ex') =
            {p \<in> set (AList.update key
               \<lparr>result = v, expiry = clock w (ticks w) + cacheTTL (config ex) * 1000\<rparr> (cache ex)).
             \<not> clock w (Suc (ticks w)) > expiry (snd p)})
      \<and> (\<not> length (AList.update key
          \<lparr>result = v, expiry = clock w (ticks w) + cacheTTL (config ex) * 1000\<rparr> (cache ex)) > 100
        \<longrightarrow> cache ex' = AList.update key
          \<lparr>result = v, expiry = clock w (ticks w) + cacheTTL (config ex) * 1000\<rparr> (cache ex))
      \<and> (\<forall>k e. k \<noteq> key \<and> map_of (cache ex) k = Some e \<and> \<not> clock w (Suc (ticks w)) > expiry e
            \<longrightarrow> map_of (cache ex') k = Some e))
   \<and> (\<forall>k e. map_of (cache ex) k = Some e \<and> \<not> clock w (ticks w) > expiry e \<longrightarrow>
         fst (getCachedResult w ex k) = Some (asCached (result e)))
   \<and> (executePrompt w ex prompt options = (res, w2, ex2) \<longrightarrow>
        (\<forall>k e. map_of (cache ex) k = Some e
           \<and> (\<forall>i. ticks w \<le> i \<and> i < ticks w2 \<longrightarrow> clock w i \<le> expiry e)
           \<longrightarrow> map_of (cache ex2) k = Some e))
   \<and> (getCachedResult w ex key = (r, w3, ex3) \<longrightarrow>
        (\<forall>k e. map_of (cache ex) k = Some e \<and> (k \<noteq> key \<or> \<not> clock w (ticks w) > expiry e)
           \<longrightarrow> map_of (cache ex3) k = Some e))
   \<and> cache (initializeClient ex) = cache ex
   \<and> cache (updateConfig ex f) = cache ex
   \<and> (\<forall>ex1. reloadConfigIfNeeded w ex = Inr ex1 \<longrightarrow> cache ex1 = cache ex)
   \<and> (\<forall>b ex1. isAvailable w ex = Inr (b, ex1) \<longrightarrow> cache ex1 = cache ex)
   \<and> cache (clearCache ex) = []"
proof (intro conjI impI allI)
  assume st: "setCachedResult w ex key v = (w', ex')"
  show "set (cache ex') =
            {p \<in> set (AList.update key
               \<lparr>result = v, expiry = clock w (ticks w) + cacheTTL (config ex) * 1000\<rparr> (cache ex)).
             \<not> clock w (Suc (ticks w)) > expiry (snd p)}"
    if "length (AList.update key
          \<lparr>result = v, expiry = clock w (ticks w) + cacheTTL (config ex) * 1000\<rparr> (cache ex)) > 100"
    using setCachedResult_prunes(1) [OF st that] .
  show "cache ex' = AList.update key
          \<lparr>result = v, expiry = clock w (ticks w) + cacheTTL (config ex) * 1000\<rparr> (cache ex)"
    if "\<not> length (AList.update key
          \<lparr>result = v, expiry = clock w (ticks w) + cacheTTL (config ex) * 1000\<rparr> (cache ex)) > 100"
    using setCachedResult_prunes(2) [OF st that] .
  show "map_of (cache ex') k = Some e"
    if "k \<noteq> key \<and> map_of (cache ex) k = Some e \<and> \<not> clock w (Suc (ticks w)) > expiry e" for k e
    using that setCachedResult_keeps [OF st] by blast
next
  fix k e assume "map_of (cache ex) k = Some e \<and> \<not> clock w (ticks w) > expiry e"
  then show "fst (getCachedResult w ex k) = Some (asCached (result e))"
    using getCachedResult_retrieves by blast
next
  fix k e
  assume ep: "executePrompt w ex prompt options = (res, w2, ex2)"
    and "map_of (cache ex) k = Some e
           \<and> (\<forall>i. ticks w \<le> i \<and> i < ticks w2 \<longrightarrow> clock w i \<le> expiry e)"
  then show "map_of (cache ex2) k = Some e"
    using executePrompt_keeps [OF ep] by blast
next
  fix k e
  assume gc: "getCachedResult w ex key = (r, w3, ex3)"
    and "map_of (cache ex) k = Some e \<and> (k \<noteq> key \<or> \<not> clock w (ticks w) > expiry e)"
  then show "map_of (cache ex3) k = Some e"
    using getCachedResult_keeps(1) [OF gc] by blast
next
  show "cache (initializeClient ex) = cache ex" by simp
  show "cache (updateConfig ex f) = cache ex" by (simp add: updateConfig_def)
  show "cache (clearCache ex) = []" by (simp add: clearCache_def)
next
  fix ex1 assume "reloadConfigIfNeeded w ex = Inr ex1"
  then show "cache ex1 = cache ex" by (rule reloadConfig_cache)
next
  fix b ex1 assume "isAvailable w ex = Inr (b, ex1)"
  then show "cache ex1 = cache ex"
    by (auto simp: isAvailable_def reloadConfig_cache split: sum.splits)
qed

lemma fullCache_store:
  "length (cache fullCacheExecutor) = 101"
  "map_of (cache fullCacheExecutor) ''100'' = Some \<lparr>result = firstResult, expiry = 1050\<rparr>"
  "map_of (cache (snd (setCachedResult (exampleWorld keyEnv echoProvider) fullCacheExecutor
      ''new'' firstResult))) ''0'' = None"
  "length (cache (snd (setCachedResult (exampleWorld keyEnv echoProvider) fullCacheExecutor
      ''new'' firstResult))) = 51"
  by code_simp+

theorem cache_pruning_keeps_unexpired_witness:
  "setCachedResult (exampleWorld keyEnv echoProvider) fullCacheExecutor ''new'' firstResult
     = (fst (setCachedResult (exampleWorld keyEnv echoProvider) fullCacheExecutor ''new'' firstResult),
        snd (setCachedResult (exampleWorld keyEnv echoProvider) fullCacheExecutor ''new'' firstResult))
   \<and> ''100'' \<noteq> ''new''
   \<and> map_of (cache fullCacheExecutor) ''100'' = Some \<lparr>result = firstResult, expiry = 1050\<rparr>
   \<and> \<not> clock (exampleWorld keyEnv echoProvider) (Suc (ticks (exampleWorld keyEnv echoProvider)))
         > expiry \<lparr>result = firstResult, expiry = 1050\<rparr>
   \<and> map_of (cache (snd (setCachedResult (exampleWorld keyEnv echoProvider) fullCacheExecutor
        ''new'' firstResult))) ''100'' = Some \<lparr>result = firstResult, expiry = 1050\<rparr>
   \<and> map_of (cache (snd (setCachedResult (exampleWorld keyEnv echoProvider) fullCacheExecutor
        ''new'' firstResult))) ''0'' = None
   \<and> length (cache (snd (setCachedResult (exampleWorld keyEnv echoProvider) fullCacheExecutor
        ''new'' firstResult))) = 51"
proof -
  let ?w = "exampleWorld keyEnv echoProvider"
  let ?e = "\<lparr>result = firstResult, expiry = 1050\<rparr>"
  have live: "\<not> clock ?w (Suc (ticks ?w)) > expiry ?e" by (simp add: exampleWorld_def)
  from cache_pruning_keeps_unexpired
    [of ?w fullCacheExecutor "''new''" firstResult
       "fst (setCachedResult ?w fullCacheExecutor ''new'' firstResult)"
       "snd (setCachedResult ?w fullCacheExecutor ''new'' firstResult)"]
  have "\<forall>k e. k \<noteq> ''new'' \<and> map_of (cache fullCacheExecutor) k = Some e
            \<and> \<not> clock ?w (Suc (ticks ?w)) > expiry e
            \<longrightarrow> map_of (cache (snd (setCachedResult ?w fullCacheExecutor ''new'' firstResult))) k
                  = Some e"
    by simp
  then have "map_of (cache (snd (setCachedResult ?w fullCacheExecutor ''new'' firstResult))) ''100''
      = Some ?e"
    using fullCache_store(2) live by simp
  with live fullCache_store show ?thesis by simp
qed

subsection \<open>Prompt executor: the cache key\<close>

lemma utf8_append: "utf8 (a @ b) = utf8 a @ utf8 b"
  by (simp add: utf8_def)

lemma base64_take: "3 * n \<le> length bs \<Longrightarrow> take (4 * n) (base64 bs) = base64 (take (3 * n) bs)"
proof (induction n arbitrary: bs)
  case 0
  show ?case by simp
next
  case (Suc n)
  then obtain a b c rest where bs: "bs = a # b # c # rest"
    by (cases bs rule: base64.cases) auto
  with Suc.prems have "3 * n \<le> length rest" by simp
  then have ih: "take (4 * n) (base64 rest) = base64 (take (3 * n) rest)" by (rule Suc.IH)
  have four: "4 * Suc n = Suc (Suc (Suc (Suc (4 * n))))"
    and three: "3 * Suc n = Suc (Suc (Suc (3 * n)))" by simp_all
  show ?case
    unfolding bs four three by (simp add: ih)
qed

lemma key_prefix_bytes:
  "utf8 (''{'' @ quoteJSONString ''prompt'' @ '':'' @ [CHR 0x22])
     = [123, 34, 112, 114, 111, 109, 112, 116, 34, 58, 34]"
  by code_simp

lemma generateCacheKey_bytes:
  assumes "13 \<le> length (escapedBytes prompt)"
  shows "generateCacheKey toStr prompt m options =
    base64 ([123, 34, 112, 114, 111, 109, 112, 116, 34, 58, 34] @ take 13 (escapedBytes prompt))"
proof -
  define rest where "rest = [CHR 0x22] @ '','' @ quoteJSONString ''model'' @ '':'' @ quoteJSONString m
                @ '','' @ quoteJSONString ''options'' @ '':'' @ stringifyOptions toStr options
                @ ''}''"
  define key where "key = (''{'' @ quoteJSONString ''prompt'' @ '':'' @ [CHR 0x22])
      @ concat (map escapeChar prompt) @ rest"
  have k: "generateCacheKey toStr prompt m options = take 32 (base64 (utf8 key))"
    by (simp add: generateCacheKey_def key_def rest_def quoteJSONString_def Let_def)
  have u: "utf8 key = [123, 34, 112, 114, 111, 109, 112, 116, 34, 58, 34]
      @ escapedBytes prompt @ utf8 rest"
    unfolding key_def escapedBytes_def
    by (simp only: utf8_append [of "''{'' @ quoteJSONString ''prompt'' @ '':'' @ [CHR 0x22]"]
        utf8_append [of "concat (map escapeChar prompt)"] key_prefix_bytes)
  have l: "3 * 8 \<le> length (utf8 key)" using assms by (simp add: u)
  have "take 32 (base64 (utf8 key)) = take (4 * 8) (base64 (utf8 key))" by simp
  also have "\<dots> = base64 (take (3 * 8) (utf8 key))" using l by (rule base64_take)
  also have "take (3 * 8) (utf8 key)
      = [123, 34, 112, 114, 111, 109, 112, 116, 34, 58, 34] @ take 13 (escapedBytes prompt)"
    using assms by (simp add: u)
  finally show ?thesis by (simp only: k)
qed

lemma generateCacheKey_collide:
  assumes "13 \<le> length (escapedBytes p1)"
    and "take 13 (escapedBytes p1) = take 13 (escapedBytes p2)"
  shows "generateCacheKey f p1 m1 o1 = generateCacheKey g p2 m2 o2"
proof -
  from assms have "length (take 13 (escapedBytes p2)) = 13" by (metis length_take min.absorb2)
  then have "13 \<le> length (escapedBytes p2)" by simp
  then show ?thesis using assms by (simp add: generateCacheKey_bytes)
qed

lemma otherRun_result:
  "fst otherRun = Inr (asCached firstResult)"
  "trace (fst (snd otherRun)) = trace (fst (snd firstRun))"
  by code_simp+

lemma echo_other:
  "echoProvider n (promptRequest (exampleExecutor keyEnv) ''Analyze this ADR: two'' noOptions)
     = Inr \<lparr>choiceContent = Some ''Analyze this ADR: two'',
            completionModel = ''anthropic/claude-3-sonnet'', completionUsage = None\<rparr>"
  by code_simp


lemma example_prompt_bytes:
  "13 \<le> length (escapedBytes ''Analyze this ADR: one'')"
  "take 13 (escapedBytes ''Analyze this ADR: one'') = take 13 (escapedBytes ''Analyze this ADR: two'')"
  by code_simp+

text \<open>
  C5.  The cache key is the Base64 text of the first 24 bytes of the serialization, that is
  of \<open>{"prompt":"\<close> and the first 13 bytes of the escaped prompt: two prompts that agree
  on these bytes have the same key, whatever the models and the options.  The prompts
  \<open>Analyze this ADR: one\<close> and \<open>Analyze this ADR: two\<close> are distinct and collide, and with
  caching enabled an execution of the second, after one of the first, returns the content
  produced for the first, marked as a cache hit, without calling the provider, which would
  have answered otherwise.
\<close>

theorem generateCacheKey_not_injective:
  "(13 \<le> length (escapedBytes p1) \<and> take 13 (escapedBytes p1) = take 13 (escapedBytes p2)
      \<longrightarrow> generateCacheKey f p1 m1 o1 = generateCacheKey g p2 m2 o2)
   \<and> (13 \<le> length (escapedBytes p1) \<longrightarrow>
        generateCacheKey f p1 m1 o1 =
          base64 ([123, 34, 112, 114, 111, 109, 112, 116, 34, 58, 34] @ take 13 (escapedBytes p1)))
   \<and> ''Analyze this ADR: one'' \<noteq> ''Analyze this ADR: two''
   \<and> generateCacheKey f ''Analyze this ADR: one'' m1 o1
       = generateCacheKey f ''Analyze this ADR: two'' m1 o1
   \<and> fst firstRun = Inr firstResult
   \<and> fst otherRun = Inr (asCached firstResult)
   \<and> content (asCached firstResult) = ''Analyze this ADR: one''
   \<and> cached (metadata (asCached firstResult))
   \<and> trace (fst (snd otherRun)) = trace (fst (snd firstRun))
   \<and> echoProvider n (promptRequest (exampleExecutor keyEnv) ''Analyze this ADR: two'' noOptions)
       = Inr \<lparr>choiceContent = Some ''Analyze this ADR: two'',
              completionModel = ''anthropic/claude-3-sonnet'', completionUsage = None\<rparr>"
proof (intro conjI impI)
  assume "13 \<le> length (escapedBytes p1) \<and> take 13 (escapedBytes p1) = take 13 (escapedBytes p2)"
  then show "generateCacheKey f p1 m1 o1 = generateCacheKey g p2 m2 o2"
    using generateCacheKey_collide by blast
next
  assume "13 \<le> length (escapedBytes p1)"
  then show "generateCacheKey f p1 m1 o1 =
          base64 ([123, 34, 112, 114, 111, 109, 112, 116, 34, 58, 34] @ take 13 (escapedBytes p1))"
    by (rule generateCacheKey_bytes)
next
  show "generateCacheKey f ''Analyze this ADR: one'' m1 o1
       = generateCacheKey f ''Analyze this ADR: two'' m1 o1"
    using example_prompt_bytes by (rule generateCacheKey_collide)
  show "fst firstRun = Inr firstResult" by (rule firstRun_result(1))
  show "fst otherRun = Inr (asCached firstResult)" by (rule otherRun_result(1))
  show "trace (fst (snd otherRun)) = trace (fst (snd firstRun))" by (rule otherRun_result(2))
  show "echoProvider n (promptRequest (exampleExecutor keyEnv) ''Analyze this ADR: two'' noOptions)
       = Inr \<lparr>choiceContent = Some ''Analyze this ADR: two'',
              completionModel = ''anthropic/claude-3-sonnet'', completionUsage = None\<rparr>"
    by (rule echo_other)
qed (simp_all add: asCached_def firstResult_def)

theorem generateCacheKey_not_injective_witness:
  "13 \<le> length (escapedBytes ''Analyze this ADR: one'')
   \<and> take 13 (escapedBytes ''Analyze this ADR: one'')
       = take 13 (escapedBytes ''Analyze this ADR: two'')
   \<and> generateCacheKey (\<lambda>x. ''0'') ''Analyze this ADR: one'' ''openai/gpt-4o'' noOptions
       = generateCacheKey (\<lambda>x. ''1'') ''Analyze this ADR: two'' ''anthropic/claude-3-haiku''
           (noOptions\<lparr>systemPrompt := Some ''Answer in JSON''\<rparr>)
   \<and> generateCacheKey (\<lambda>x. ''0'') ''Analyze this ADR: one'' ''openai/gpt-4o'' noOptions
       = ''eyJwcm9tcHQiOiJBbmFseXplIHRoaXMg''"
proof -
  note i = generateCacheKey_not_injective
        [of "''Analyze this ADR: one''" "''Analyze this ADR: two''" "\<lambda>x. ''0''"
            "''openai/gpt-4o''" noOptions "\<lambda>x. ''1''" "''anthropic/claude-3-haiku''"
            "noOptions\<lparr>systemPrompt := Some ''Answer in JSON''\<rparr>"]
  have k: "base64 ([123, 34, 112, 114, 111, 109, 112, 116, 34, 58, 34]
        @ take 13 (escapedBytes ''Analyze this ADR: one'')) = ''eyJwcm9tcHQiOiJBbmFseXplIHRoaXMg''"
    by code_simp
  from i example_prompt_bytes
  have c: "generateCacheKey (\<lambda>x. ''0'') ''Analyze this ADR: one'' ''openai/gpt-4o'' noOptions
       = generateCacheKey (\<lambda>x. ''1'') ''Analyze this ADR: two'' ''anthropic/claude-3-haiku''
           (noOptions\<lparr>systemPrompt := Some ''Answer in JSON''\<rparr>)"
    by blast
  from i example_prompt_bytes(1)
  have "generateCacheKey (\<lambda>x. ''0'') ''Analyze this ADR: one'' ''openai/gpt-4o'' noOptions
       = base64 ([123, 34, 112, 114, 111, 109, 112, 116, 34, 58, 34]
        @ take 13 (escapedBytes ''Analyze this ADR: one''))"
    by blast
  then have v: "generateCacheKey (\<lambda>x. ''0'') ''Analyze this ADR: one'' ''openai/gpt-4o'' noOptions
       = ''eyJwcm9tcHQiOiJBbmFseXplIHRoaXMg''"
    by (simp only: k)
  from example_prompt_bytes c v show ?thesis by blast
qed

section \<open>Extraction of JSON from a response\<close>

subsection \<open>Trimming\<close>

lemma trim_Nil [simp]: "trim [] = []"
  by (simp add: trim_def)

lemma trim_noop:
  assumes "s \<noteq> []" "\<not> isWhiteSpace (hd s)" "\<not> isWhiteSpace (last s)"
  shows "trim s = s"
proof -
  from assms(1,2) have d: "dropWhile isWhiteSpace s = s"
    by (cases s) simp_all
  from assms(1,3) have "dropWhile isWhiteSpace (rev s) = rev s"
    by (cases "rev s") (simp_all add: last_rev [symmetric] hd_rev)
  with d show ?thesis by (simp add: trim_def)
qed

lemma trim_ends:
  assumes "trim s \<noteq> []"
  shows "\<not> isWhiteSpace (hd (trim s))" and "\<not> isWhiteSpace (last (trim s))"
proof -
  let ?d = "dropWhile isWhiteSpace s"
  let ?e = "dropWhile isWhiteSpace (rev ?d)"
  from assms have e: "?e \<noteq> []" by (simp add: trim_def)
  then have d: "?d \<noteq> []" by (cases "dropWhile isWhiteSpace s = []") simp_all
  from e have "\<not> isWhiteSpace (hd ?e)" by (rule hd_dropWhile)
  with e show "\<not> isWhiteSpace (last (trim s))" by (simp add: trim_def last_rev)
  obtain zs where zs: "rev ?d = zs @ ?e"
    by (metis takeWhile_dropWhile_id)
  with e have "last ?e = last (rev ?d)" by (metis last_appendR)
  also from d have "\<dots> = hd ?d" by (simp add: last_rev)
  finally have "hd (trim s) = hd ?d" using e by (simp add: trim_def hd_rev)
  moreover from d have "\<not> isWhiteSpace (hd ?d)" by (rule hd_dropWhile)
  ultimately show "\<not> isWhiteSpace (hd (trim s))" by simp
qed

lemma trim_idem: "trim (trim s) = trim s"
proof (cases "trim s = []")
  case True
  then show ?thesis by simp
next
  case False
  then show ?thesis by (intro trim_noop trim_ends)
qed

lemma trim_dropWhile: "trim (dropWhile isWhiteSpace s) = trim s"
  by (simp add: trim_def dropWhile_idem)

lemma set_trim: "set (trim s) \<subseteq> set s"
proof -
  have "set (trim s) \<subseteq> set (dropWhile isWhiteSpace s)"
    unfolding trim_def using set_dropWhileD by fastforce
  also have "\<dots> \<subseteq> set s" using set_dropWhileD by fastforce
  finally show ?thesis .
qed

lemma trim_start:
  assumes "trim s \<noteq> []"
  shows "dropWhile isWhiteSpace s \<noteq> []"
    and "s \<noteq> []"
    and "isWhiteSpace (hd s) \<or> hd s = hd (trim s)"
proof -
  let ?d = "dropWhile isWhiteSpace s"
  from assms show d: "?d \<noteq> []"
    by (cases "dropWhile isWhiteSpace s = []") (simp_all add: trim_def)
  then show s: "s \<noteq> []" by auto
  show "isWhiteSpace (hd s) \<or> hd s = hd (trim s)"
  proof (cases "isWhiteSpace (hd s)")
    case True
    then show ?thesis by simp
  next
    case False
    with s have "?d = s" by (cases s) simp_all
    moreover have "trim ?d = trim s" by (rule trim_dropWhile)
    moreover from assms have "hd (trim s) = hd ?d"
    proof -
      let ?e = "dropWhile isWhiteSpace (rev ?d)"
      from assms have e: "?e \<noteq> []" by (simp add: trim_def)
      obtain zs where zs: "rev ?d = zs @ ?e" by (metis takeWhile_dropWhile_id)
      with e have "last ?e = last (rev ?d)" by (metis last_appendR)
      also from d have "\<dots> = hd ?d" by (simp add: last_rev)
      finally show ?thesis using e by (simp add: trim_def hd_rev)
    qed
    ultimately show ?thesis by simp
  qed
qed

subsection \<open>Matching\<close>

lemma anyChar_True [simp]: "anyChar c"
  by (simp add: anyChar_def)

lemma star_run:
  assumes "\<forall>x\<in>set xs. p x" "ys = [] \<or> \<not> p (hd ys)" "k ys g = Some r"
  shows "matchRe (Star p) n (xs @ ys) g k = Some r"
  using assms
proof (induction xs)
  case Nil
  then show ?case by (cases ys) simp_all
next
  case (Cons x xs)
  then show ?case by simp
qed

lemma star_none:
  "\<forall>i\<le>length ys. k (drop i ys) g = None \<Longrightarrow> matchRe (Star p) n ys g k = None"
proof (induction ys)
  case Nil
  then show ?case by simp
next
  case (Cons y ys)
  have "\<forall>i\<le>length ys. k (drop i ys) g = None"
  proof (intro allI impI)
    fix i assume "i \<le> length ys"
    with Cons.prems have "k (drop (Suc i) (y # ys)) g = None" by (metis Suc_le_mono length_Cons)
    then show "k (drop i ys) g = None" by simp
  qed
  with Cons.IH have "matchRe (Star p) n ys g k = None" .
  moreover from Cons.prems have "k (drop 0 (y # ys)) g = None" by blast
  ultimately show ?case by simp
qed

lemma star_longest:
  assumes "k ys g = Some r" "\<forall>i. 0 < i \<and> i \<le> length ys \<longrightarrow> k (drop i ys) g = None"
  shows "matchRe (Star anyChar) n (xs @ ys) g k = Some r"
  unfolding anyChar_def
proof (induction xs)
  case Nil
  show ?case
  proof (cases ys)
    case Nil
    with assms(1) show ?thesis by simp
  next
    case (Cons y zs)
    have "\<forall>i\<le>length zs. k (drop i zs) g = None"
    proof (intro allI impI)
      fix i assume "i \<le> length zs"
      moreover from assms(2)
      have "0 < Suc i \<and> Suc i \<le> length ys \<longrightarrow> k (drop (Suc i) ys) g = None" by blast
      ultimately show "k (drop i zs) g = None" using Cons by simp
    qed
    then have "matchRe (Star (\<lambda>c. True)) n zs g k = None" by (rule star_none)
    with assms(1) Cons show ?thesis by simp
  qed
next
  case (Cons x xs)
  then show ?case by simp
qed

lemma lazy_shortest:
  assumes "k ys g = Some r" "\<forall>i<length xs. k (drop i xs @ ys) g = None"
  shows "matchRe (LazyStar anyChar) n (xs @ ys) g k = Some r"
  using assms(2) unfolding anyChar_def
proof (induction xs)
  case Nil
  with assms(1) show ?case by (cases ys) simp_all
next
  case (Cons x xs)
  have "\<forall>i<length xs. k (drop i xs @ ys) g = None"
  proof (intro allI impI)
    fix i assume "i < length xs"
    with Cons.prems have "k (drop (Suc i) (x # xs) @ ys) g = None" by (metis Suc_less_eq length_Cons)
    then show "k (drop i xs @ ys) g = None" by simp
  qed
  with Cons.IH have "matchRe (LazyStar (\<lambda>c. True)) n (xs @ ys) g k = Some r" .
  moreover from Cons.prems have "k (drop 0 (x # xs) @ ys) g = None" by (metis length_greater_0_conv list.distinct(1))
  ultimately show ?case by simp
qed

lemma searchFrom_Bol:
  "length s < n \<Longrightarrow> searchFrom (Seq Bol r) n s = None"
  by (induction s) simp_all

lemma regexMatch_Bol:
  "regexMatch (seqs (Bol # rs)) s = matchRe (seqs rs) (length s) s None (\<lambda>s' g. Some g)"
proof (cases s)
  case Nil
  then show ?thesis by (simp add: regexMatch_def seqs_def)
next
  case (Cons c cs)
  have "searchFrom (Seq Bol (seqs rs)) (length s) cs = None"
    using Cons by (intro searchFrom_Bol) simp
  with Cons show ?thesis
    by (simp add: regexMatch_def seqs_def split: option.splits)
qed

lemma matchRe_Lit_append [simp]: "matchRe (Lit l) n (l @ s) g k = k s g"
  by simp

lemma matchRe_Opt_Some: "matchRe r n s g k = Some x \<Longrightarrow> matchRe (Opt r) n s g k = Some x"
  by simp

lemma matchRe_Opt_skip: "\<not> prefix l s \<Longrightarrow> matchRe (Opt (Lit l)) n s g k = k s g"
  by simp

lemma lit_end:
  "matchRe (Seq (Lit l) (Seq Eol (Lit []))) n t g (\<lambda>s' g'. Some g') = (if t = l then Some g else None)"
proof (cases "prefix l t")
  case True
  then obtain u where "t = l @ u" by (auto simp add: prefix_def)
  then show ?thesis by simp
next
  case False
  then show ?thesis by auto
qed

lemma opt_then_end:
  assumes "\<And>u g'. k u g' = (if u = f then Some g' else None)" "f \<noteq> []" "hd f \<noteq> c"
  shows "matchRe (Opt (Lit [c])) n t g k = (if t = c # f \<or> t = f then Some g else None)"
proof (cases t)
  case Nil
  with assms show ?thesis by auto
next
  case (Cons x xs)
  with assms show ?thesis by (cases f) auto
qed

lemma fence_end:
  "matchRe (seqs [Opt (Lit [newline]), Lit (replicate 3 backtick), Eol]) n t g (\<lambda>s' g'. Some g')
   = (if t = newline # replicate 3 backtick \<or> t = replicate 3 backtick then Some g else None)"
proof -
  let ?k = "\<lambda>s' g'. matchRe (Seq (Lit (replicate 3 backtick)) (Seq Eol (Lit []))) n s' g'
              (\<lambda>s' g'. Some g')"
  have "matchRe (seqs [Opt (Lit [newline]), Lit (replicate 3 backtick), Eol]) n t g (\<lambda>s' g'. Some g')
        = matchRe (Opt (Lit [newline])) n t g ?k"
    by (simp add: seqs_def)
  also have "\<dots> = (if t = newline # replicate 3 backtick \<or> t = replicate 3 backtick
                     then Some g else None)"
  proof (rule opt_then_end)
    show "?k u g' = (if u = replicate 3 backtick then Some g' else None)" for u g'
      by (rule lit_end)
    show "replicate 3 backtick \<noteq> []" by simp
    show "hd (replicate 3 backtick) \<noteq> newline"
      by (simp add: newline_def backtick_def numeral_3_eq_3)
  qed
  finally show ?thesis .
qed

lemma codeBlock_fenced:
  assumes "trim s \<noteq> []"
  shows "regexMatch codeBlockPattern (fenced s) = Some (Some (dropWhile isWhiteSpace s))"
proof -
  let ?n = "length (fenced s)"
  let ?f = "replicate 3 backtick"
  let ?d = "dropWhile isWhiteSpace s"
  let ?p = "takeWhile isWhiteSpace s"
  let ?K = "\<lambda>(s' :: string) (g' :: string option). Some g'"
  let ?k5 = "\<lambda>s' g'. matchRe (seqs [Opt (Lit [newline]), Lit ?f, Eol]) ?n s' g' ?K"
  let ?k4 = "\<lambda>s' g'. matchRe (Group (LazyStar anyChar)) ?n s' g' ?k5"
  let ?k3 = "\<lambda>s' g'. matchRe (Opt (Lit [newline])) ?n s' g' ?k4"
  let ?k2 = "\<lambda>s' g'. matchRe (Star isWhiteSpace) ?n s' g' ?k3"
  let ?k1 = "\<lambda>s' g'. matchRe (Opt (Lit ''json'')) ?n s' g' ?k2"
  let ?t = "newline # ?f"
  from assms have d: "?d \<noteq> []" by (rule trim_start)
  then have hd: "\<not> isWhiteSpace (hd ?d)" by (rule hd_dropWhile)
  have ws: "isWhiteSpace newline" by (simp add: isWhiteSpace_def newline_def)
  have s: "s = ?p @ ?d" by simp
  have k4: "?k4 (?d @ ?t) None = Some (Some ?d)"
  proof -
    let ?k = "\<lambda>s' (g' :: string option).
                ?k5 s' (Some (take (length (?d @ ?t) - length s') (?d @ ?t)))"
    have "?k ?t None = Some (Some ?d)"
      by (simp only: fence_end) simp
    moreover have "\<forall>i<length ?d. ?k (drop i ?d @ ?t) None = None"
    proof (intro allI impI)
      fix i assume "i < length ?d"
      then have "length (drop i ?d @ ?t) \<noteq> length ?t" "length (drop i ?d @ ?t) \<noteq> length ?f"
        by simp_all
      then have "drop i ?d @ ?t \<noteq> ?t" "drop i ?d @ ?t \<noteq> ?f"
        by (metis, metis)
      then show "?k (drop i ?d @ ?t) None = None"
        by (simp only: fence_end) simp
    qed
    ultimately have "matchRe (LazyStar anyChar) ?n (?d @ ?t) None ?k = Some (Some ?d)"
      by (rule lazy_shortest)
    then show ?thesis by simp
  qed
  from d hd ws have np: "\<not> prefix [newline] (?d @ ?t)"
    by (cases ?d) auto
  from k4 have "?k3 (?d @ ?t) None = Some (Some ?d)"
    by (simp only: matchRe_Opt_skip [OF np])
  moreover have "\<forall>x\<in>set (newline # ?p). isWhiteSpace x"
    using ws by (auto dest: set_takeWhileD)
  moreover from d hd have "?d @ ?t = [] \<or> \<not> isWhiteSpace (hd (?d @ ?t))" by simp
  ultimately have "matchRe (Star isWhiteSpace) ?n ((newline # ?p) @ (?d @ ?t)) None ?k3
                   = Some (Some ?d)"
    by (intro star_run)
  then have "?k2 (newline # s @ ?t) None = Some (Some ?d)"
    using s by (metis append_Cons append_assoc)
  then have "?k1 (''json'' @ newline # s @ ?t) None = Some (Some ?d)"
    by (intro matchRe_Opt_Some) (simp only: matchRe_Lit_append)
  then have "matchRe (Lit ?f) ?n (?f @ ''json'' @ newline # s @ ?t) None ?k1 = Some (Some ?d)"
    by (simp only: matchRe_Lit_append)
  moreover have "fenced s = ?f @ ''json'' @ newline # s @ ?t"
    by (simp add: fenced_def)
  ultimately show ?thesis
    unfolding codeBlockPattern_def regexMatch_Bol
    by (simp add: seqs_def)
qed

lemma codeBlock_none:
  assumes "c = [] \<or> hd c \<noteq> backtick"
  shows "regexMatch codeBlockPattern c = None"
proof -
  from assms have "\<not> prefix (replicate 3 backtick) c"
    by (cases c) (auto simp add: numeral_3_eq_3)
  then show ?thesis
    unfolding codeBlockPattern_def regexMatch_Bol by (simp add: seqs_def)
qed

lemma codeBlock_inlined:
  assumes "s \<noteq> []" "hd s \<noteq> backtick"
  shows "regexMatch codeBlockPattern (inlined s) = None"
proof -
  from assms have "\<not> prefix (replicate 3 backtick) (inlined s)"
    by (cases s) (auto simp add: numeral_3_eq_3 inlined_def)
  then show ?thesis
    unfolding codeBlockPattern_def regexMatch_Bol by (simp add: seqs_def)
qed

lemma inlineCode_none:
  assumes "c = [] \<or> hd c \<noteq> backtick"
  shows "regexMatch inlineCodePattern c = None"
proof -
  from assms have "\<not> prefix [backtick] c"
    by (cases c) auto
  then show ?thesis
    unfolding inlineCodePattern_def regexMatch_Bol by (simp add: seqs_def)
qed

lemma inlineCode_inlined: "regexMatch inlineCodePattern (inlined s) = Some (Some s)"
proof -
  let ?n = "length (inlined s)"
  let ?K = "\<lambda>(s' :: string) (g' :: string option). Some g'"
  let ?k2 = "\<lambda>s' g'. matchRe (Seq (Lit [backtick]) (Seq Eol (Lit []))) ?n s' g' ?K"
  let ?k = "\<lambda>s' (g' :: string option).
              ?k2 s' (Some (take (length (s @ [backtick]) - length s') (s @ [backtick])))"
  have "?k [backtick] None = Some (Some s)"
    by (simp only: lit_end) simp
  moreover have "\<forall>i<length s. ?k (drop i s @ [backtick]) None = None"
  proof (intro allI impI)
    fix i assume "i < length s"
    then have "length (drop i s @ [backtick]) \<noteq> length [backtick]" by simp
    then have "drop i s @ [backtick] \<noteq> [backtick]" by metis
    then show "?k (drop i s @ [backtick]) None = None"
      by (simp only: lit_end) simp
  qed
  ultimately have "matchRe (LazyStar anyChar) ?n (s @ [backtick]) None ?k = Some (Some s)"
    by (rule lazy_shortest)
  then have "matchRe (Group (LazyStar anyChar)) ?n (s @ [backtick]) None ?k2 = Some (Some s)"
    by simp
  then have "matchRe (Lit [backtick]) ?n ([backtick] @ s @ [backtick]) None
               (\<lambda>s' g'. matchRe (Group (LazyStar anyChar)) ?n s' g' ?k2) = Some (Some s)"
    by (simp only: matchRe_Lit_append)
  then show ?thesis
    unfolding inlineCodePattern_def regexMatch_Bol
    by (simp add: seqs_def inlined_def)
qed

lemma delimited_whole:
  assumes "2 \<le> length t" "hd t = a" "last t = b"
  shows "matchRe (seqs [Lit [a], Star anyChar, Lit [b]]) n t g
           (\<lambda>s' g'. Some (Some (take (length t - length s') t))) = Some (Some t)"
proof -
  from assms(1) obtain x xs where x: "t = x # xs" and xs: "xs \<noteq> []"
    by (cases t; cases "tl t") auto
  from xs have "xs = butlast xs @ [last xs]" by simp
  moreover from x xs assms(2,3) have "x = a" "last xs = b" by simp_all
  ultimately have t: "t = [a] @ butlast xs @ [b]" using x by simp
  define m where "m = butlast xs"
  let ?k = "\<lambda>s' g'. matchRe (Seq (Lit [b]) (Lit [])) n s' g'
              (\<lambda>s' (g' :: string option). Some (Some (take (length t - length s') t)))"
  have "?k [b] g = Some (Some t)" by simp
  moreover have "\<forall>i. 0 < i \<and> i \<le> length [b] \<longrightarrow> ?k (drop i [b]) g = None" by simp
  ultimately have "matchRe (Star anyChar) n (m @ [b]) g ?k = Some (Some t)"
    by (rule star_longest)
  then have "matchRe (Lit [a]) n ([a] @ m @ [b]) g (\<lambda>s' g'. matchRe (Star anyChar) n s' g' ?k)
             = Some (Some t)"
    by (simp only: matchRe_Lit_append)
  moreover from t have "t = [a] @ m @ [b]" by (simp add: m_def)
  ultimately show ?thesis
    by (simp add: seqs_def)
qed

lemma json_whole:
  assumes "bracketed t"
  shows "regexMatch jsonPattern t = Some (Some t)"
proof -
  from assms have len: "2 \<le> length t"
    and shape: "hd t = CHR ''{'' \<and> last t = CHR ''}'' \<or> hd t = CHR ''['' \<and> last t = CHR '']''"
    by (simp_all add: bracketed_def)
  let ?k = "\<lambda>s' (g' :: string option). Some (Some (take (length t - length s') t))"
  let ?a = "seqs [Lit ''{'', Star anyChar, Lit ''}'']"
  let ?b = "seqs [Lit ''['', Star anyChar, Lit '']'']"
  have "matchRe (Alt ?a ?b) (length t) t None ?k = Some (Some t)"
  proof (cases "hd t = CHR ''{''")
    case True
    with shape have "last t = CHR ''}''" by auto
    with len True have "matchRe ?a (length t) t None ?k = Some (Some t)"
      by (intro delimited_whole)
    then show ?thesis by simp
  next
    case False
    with shape have b: "hd t = CHR ''[''" "last t = CHR '']''" by auto
    from len False have "\<not> prefix ''{'' t" by (cases t) auto
    then have "matchRe ?a (length t) t None ?k = None" by (simp add: seqs_def)
    moreover from len b have "matchRe ?b (length t) t None ?k = Some (Some t)"
      by (intro delimited_whole)
    ultimately show ?thesis by simp
  qed
  moreover from len obtain c cs where "t = c # cs" by (cases t) auto
  ultimately show ?thesis
    by (simp add: regexMatch_def jsonPattern_def)
qed

lemma json_search_none:
  "CHR ''{'' \<notin> set t \<Longrightarrow> CHR ''['' \<notin> set t \<Longrightarrow> searchFrom jsonPattern n t = None"
  by (induction t) (simp_all add: jsonPattern_def seqs_def)

lemma json_none:
  "CHR ''{'' \<notin> set t \<Longrightarrow> CHR ''['' \<notin> set t \<Longrightarrow> regexMatch jsonPattern t = None"
  by (simp add: regexMatch_def json_search_none)

lemma backtick_not_space: "\<not> isWhiteSpace backtick"
  by (simp add: isWhiteSpace_def backtick_def)

lemma trim_fenced: "trim (fenced s) = fenced s"
  by (rule trim_noop) (simp_all add: fenced_def backtick_not_space numeral_3_eq_3)

lemma trim_inlined: "trim (inlined s) = inlined s"
  by (rule trim_noop) (simp_all add: inlined_def backtick_not_space)

lemma extract_fenced:
  assumes "trim s \<noteq> []"
  shows "extractJsonFromResponse (fenced s) = trim s"
proof -
  from assms have "dropWhile isWhiteSpace s \<noteq> []" by (rule trim_start)
  then show ?thesis
    by (simp add: extractJsonFromResponse_def trim_fenced codeBlock_fenced [OF assms]
        capture1_def trim_dropWhile)
qed

lemma extract_inlined:
  assumes "trim s \<noteq> []" "hd (trim s) \<noteq> backtick"
  shows "extractJsonFromResponse (inlined s) = trim s"
proof -
  from assms(1) have s: "s \<noteq> []" by (rule trim_start)
  from assms(1) have "isWhiteSpace (hd s) \<or> hd s = hd (trim s)" by (rule trim_start)
  with assms(2) have "hd s \<noteq> backtick" using backtick_not_space by auto
  with s have "regexMatch codeBlockPattern (inlined s) = None" by (rule codeBlock_inlined)
  with s show ?thesis
    by (simp add: extractJsonFromResponse_def trim_inlined inlineCode_inlined capture1_def)
qed

lemma extract_raw:
  assumes "hd (trim s) \<noteq> backtick"
    and "bracketed (trim s) \<or> CHR ''{'' \<notin> set s \<and> CHR ''['' \<notin> set s"
  shows "extractJsonFromResponse s = trim s"
proof -
  from assms(1) have c: "trim s = [] \<or> hd (trim s) \<noteq> backtick" by simp
  from assms(2) show ?thesis
  proof
    assume b: "bracketed (trim s)"
    then have "trim s \<noteq> []" by (auto simp add: bracketed_def)
    with b show ?thesis
      by (simp add: extractJsonFromResponse_def codeBlock_none [OF c] inlineCode_none [OF c]
          json_whole capture1_def trim_idem)
  next
    assume "CHR ''{'' \<notin> set s \<and> CHR ''['' \<notin> set s"
    with set_trim [of s] have "CHR ''{'' \<notin> set (trim s)" "CHR ''['' \<notin> set (trim s)" by auto
    then show ?thesis
      by (simp add: extractJsonFromResponse_def codeBlock_none [OF c] inlineCode_none [OF c]
          json_none capture1_def)
  qed
qed

text \<open>
  Claim C6, with the unwrapped case restricted.  Let \<open>s\<close> be a text that is not blank
  and whose first character after trimming is not a backtick, as every JSON text is.
  From the response that fences \<open>s\<close> in a \<open>```json\<close> block and from the response that wraps
  \<open>s\<close> in single backticks, \<open>extractJsonFromResponse\<close> returns \<open>s\<close> trimmed.  From \<open>s\<close>
  itself it returns \<open>s\<close> trimmed when the trimmed text opens with a brace and closes with
  one, or opens with a bracket and closes with one, or when \<open>s\<close> holds no opening brace
  and no opening bracket at all; in these cases the three responses give
  \<open>executeStructuredPrompt\<close> the same parsed data, or the same error, for every parser and
  every schema.
\<close>

theorem extractJsonFromResponse_wrappers:
  assumes "trim s \<noteq> []" and "hd (trim s) \<noteq> backtick"
  shows "extractJsonFromResponse (fenced s) = trim s
       \<and> extractJsonFromResponse (inlined s) = trim s
       \<and> (bracketed (trim s) \<or> CHR ''{'' \<notin> set s \<and> CHR ''['' \<notin> set s
            \<longrightarrow> extractJsonFromResponse s = trim s
              \<and> structuredData jsonParse schema (r\<lparr>content := fenced s\<rparr>)
                  = structuredData jsonParse schema (r\<lparr>content := s\<rparr>)
              \<and> structuredData jsonParse schema (r\<lparr>content := inlined s\<rparr>)
                  = structuredData jsonParse schema (r\<lparr>content := s\<rparr>))"
proof (intro conjI impI)
  show f: "extractJsonFromResponse (fenced s) = trim s"
    using assms(1) by (rule extract_fenced)
  show i: "extractJsonFromResponse (inlined s) = trim s"
    using assms by (rule extract_inlined)
  assume "bracketed (trim s) \<or> CHR ''{'' \<notin> set s \<and> CHR ''['' \<notin> set s"
  with assms(2) show raw: "extractJsonFromResponse s = trim s"
    by (rule extract_raw)
  have data: "structuredData jsonParse schema (r\<lparr>content := c\<rparr>)
              = (case jsonParse (extractJsonFromResponse c) of
                   Inl error \<Rightarrow> Inl (jsonParseError error)
                 | Inr d \<Rightarrow>
                     (case schema of
                        None \<Rightarrow> Inr d
                      | Some parse \<Rightarrow>
                          (case parse d of
                             Inl error \<Rightarrow> Inl (jsonParseError error)
                           | Inr u \<Rightarrow> Inr d)))" for c
    by (simp add: structuredData_def parseStructuredResponse_def
        split: sum.splits option.splits)
  show "structuredData jsonParse schema (r\<lparr>content := fenced s\<rparr>)
        = structuredData jsonParse schema (r\<lparr>content := s\<rparr>)"
    by (simp only: data f raw)
  show "structuredData jsonParse schema (r\<lparr>content := inlined s\<rparr>)
        = structuredData jsonParse schema (r\<lparr>content := s\<rparr>)"
    by (simp only: data i raw)
qed

text \<open>
  The three responses for the object \<open>{"a": [1, 2]}\<close> with blanks around it: each gives
  the object without the blanks.
\<close>

theorem extractJsonFromResponse_wrappers_witness:
  "trim '' {\"a\": [1, 2]} '' = ''{\"a\": [1, 2]}''
   \<and> bracketed (trim '' {\"a\": [1, 2]} '')
   \<and> extractJsonFromResponse (fenced '' {\"a\": [1, 2]} '') = ''{\"a\": [1, 2]}''
   \<and> extractJsonFromResponse (inlined '' {\"a\": [1, 2]} '') = ''{\"a\": [1, 2]}''
   \<and> extractJsonFromResponse '' {\"a\": [1, 2]} '' = ''{\"a\": [1, 2]}''"
proof -
  have t: "trim '' {\"a\": [1, 2]} '' = ''{\"a\": [1, 2]}''"
    by (simp add: trim_def isWhiteSpace_def)
  have b: "bracketed ''{\"a\": [1, 2]}''"
    by (simp add: bracketed_def)
  have "trim '' {\"a\": [1, 2]} '' \<noteq> []" "hd (trim '' {\"a\": [1, 2]} '') \<noteq> backtick"
    by (simp_all add: t backtick_def)
  from extractJsonFromResponse_wrappers
         [OF this, where jsonParse = "Inr :: string \<Rightarrow> jsError + string" and schema = None
            and r = firstResult]
    t b
  show ?thesis by simp
qed

text \<open>
  The unrestricted claim C6 fails for the JSON string \<open>"{}"\<close>.  Unwrapped, the search for
  an object finds the braces inside the quotes and returns \<open>{}\<close>, an empty object; fenced
  or wrapped in backticks, the whole string \<open>"{}"\<close> is returned.
\<close>

theorem extractJsonFromResponse_string_counterexample:
  "trim quotedBraces = quotedBraces
   \<and> extractJsonFromResponse quotedBraces = ''{}''
   \<and> extractJsonFromResponse (inlined quotedBraces) = quotedBraces
   \<and> extractJsonFromResponse (fenced quotedBraces) = quotedBraces
   \<and> extractJsonFromResponse quotedBraces \<noteq> trim quotedBraces"
  by code_simp
section \<open>Intent analysis: the keyword fallback\<close>

lemma setInsertAll_set: "set (setInsertAll seen xs) = set seen \<union> set xs"
  by (induction xs arbitrary: seen) auto

lemma setInsertAll_distinct: "distinct seen \<Longrightarrow> distinct (setInsertAll seen xs)"
  by (induction xs arbitrary: seen) auto

lemma newSet_set [simp]: "set (newSet xs) = set xs"
  by (simp add: newSet_def setInsertAll_set)

lemma newSet_distinct [simp]: "distinct (newSet xs)"
  by (simp add: newSet_def setInsertAll_distinct)

lemma matchedTools_empty:
  "matchedTools request = [] \<longleftrightarrow> \<not> (\<exists>keyword \<in> set (map fst keywordMap). includes_str request keyword)"
  by (simp add: matchedTools_def keywordMap_def)

lemma fallback_fields:
  "suggestedTools (fallbackIntentAnalysis request)
     = take 5 (newSet (matchedTools (toLowerCase request)))"
  "confidence (fallbackIntentAnalysis request)
     = (if matchedTools (toLowerCase request) \<noteq> [] then 7 / 10 else 3 / 10)"
  by (simp_all add: fallbackIntentAnalysis_def Let_def case_prod_unfold)

text \<open>
  An execution that passes the gate, misses the cache and whose every provider call fails
  ends in an error.
\<close>

lemma executePrompt_all_fail:
  assumes g: "gate w ex = Inr ex2"
    and miss: "\<not> cacheHit w ex2 (promptKey w ex2 prompt options)"
    and n: "0 \<le> maxRetries (config ex2)"
    and fails: "\<forall>i. isl (respond w i (promptRequest ex2 prompt options))"
  shows "isl (fst (executePrompt w ex prompt options))"
proof -
  from n have "maxRetries (config ex2) = int (nat (maxRetries (config ex2)))" by simp
  then obtain k where mr: "maxRetries (config ex2) = int k" ..
  let ?m = "promptModel ex2 options"
  let ?key = "promptKey w ex2 prompt options"
  let ?req = "promptRequest ex2 prompt options"
  let ?w1 = "w\<lparr>ticks := Suc (ticks w)\<rparr>"
  show ?thesis
  proof (cases "cacheEnabled (config ex2)")
    case False
    have f1: "\<forall>i. isl (respond ?w1 i (buildRequest ex2 prompt ?m options))"
      using fails by (simp add: promptRequest_def)
    have al: "attemptLoop ?w1 ex2 prompt ?m options ?key (clock w (ticks w)) 0 =
      (Inl (executionFailed (int k)
              (projl (respond ?w1 (callCount ?w1 + (k - 0)) (buildRequest ex2 prompt ?m options)))),
       ?w1\<lparr>trace := trace ?w1 @ remainingTrace (buildRequest ex2 prompt ?m options) 0 k\<rparr>, ex2)"
      by (rule attemptLoop_all_fail [OF mr f1]) simp
    have ep: "executePrompt w ex prompt options
        = attemptLoop ?w1 ex2 prompt ?m options ?key (clock w (ticks w)) 0"
      using False by (simp add: executePrompt_after_gate [OF g] Let_def)
    show ?thesis by (simp only: ep al fst_conv sum.disc)
  next
    case True
    from miss True
    obtain w2 ex3 where gc: "getCachedResult ?w1 ex2 ?key = (None, w2, ex3)"
      and c: "config ex3 = config ex2" and rs: "respond w2 = respond w"
      by (rule getCachedResult_miss)
    have rq: "buildRequest ex3 prompt ?m options = ?req"
      by (simp add: promptRequest_def promptRequest_config [OF c])
    have f1: "\<forall>i. isl (respond w2 i (buildRequest ex3 prompt ?m options))"
      using fails by (simp add: rq rs)
    have mr3: "maxRetries (config ex3) = int k" using mr c by simp
    have al: "attemptLoop w2 ex3 prompt ?m options ?key (clock w (ticks w)) 0 =
      (Inl (executionFailed (int k)
              (projl (respond w2 (callCount w2 + (k - 0)) (buildRequest ex3 prompt ?m options)))),
       w2\<lparr>trace := trace w2 @ remainingTrace (buildRequest ex3 prompt ?m options) 0 k\<rparr>, ex3)"
      by (rule attemptLoop_all_fail [OF mr3 f1]) simp
    have ep: "executePrompt w ex prompt options
        = attemptLoop w2 ex3 prompt ?m options ?key (clock w (ticks w)) 0"
      using True by (simp add: executePrompt_after_gate [OF g] Let_def gc)
    show ?thesis by (simp only: ep al fst_conv sum.disc)
  qed
qed

lemma executeStructuredPrompt_error:
  assumes "isl (fst (executePrompt w ex prompt
             (options\<lparr>systemPrompt := Some (orElse (systemPrompt options) structuredSystemPrompt),
                promptOptions.temperature :=
                  Some (case promptOptions.temperature options of
                          None \<Rightarrow> Num (1 / 10) | Some t \<Rightarrow> t)\<rparr>)))"
  shows "isl (fst (executeStructuredPrompt w ex jsonParse schema prompt options))"
  using assms
  by (auto simp add: executeStructuredPrompt_def Let_def split: prod.splits sum.splits)

lemma intentOptions_fixed:
  "intentOptions\<lparr>systemPrompt := Some (orElse (systemPrompt intentOptions) structuredSystemPrompt),
     promptOptions.temperature :=
       Some (case promptOptions.temperature intentOptions of
               None \<Rightarrow> Num (1 / 10) | Some t \<Rightarrow> t)\<rparr> = intentOptions"
proof -
  have "intentSystemPrompt \<noteq> []"
    by (simp add: intentSystemPrompt_def)
  then show ?thesis
    by (simp add: intentOptions_def orElse_def)
qed

lemma loadAIConfig_keyEnv: "loadAIConfig keyEnv = Inr (configFromEnv keyEnv)"
  by code_simp

lemma loadAIConfig_promptOnly:
  "loadAIConfig promptOnlyEnv = Inr (configFromEnv promptOnlyEnv)"
  "\<not> isAIExecutionEnabled (configFromEnv promptOnlyEnv)"
  by code_simp+

lemma fallback_example: "fallbackIntentAnalysis ''analyze this project'' = analyzeThisProject"
  by (simp add: fallbackIntentAnalysis_def analyzeThisProject_def Let_def) code_simp

text \<open>
  Claim C8, for a configuration that loads.  When \<open>loadAIConfig\<close> returns a configuration
  with AI execution disabled, \<open>analyzeUserIntent\<close> returns the keyword analysis of the
  request and touches neither the world nor the executor.  With execution enabled, it
  returns the same analysis when the executor cannot be obtained or when
  \<open>executeStructuredPrompt\<close> throws.  The suggested tools of the keyword analysis are the
  first five distinct tools of the matched keywords, so they are without duplicates and at
  most five; the confidence is 0.7 when at least one keyword of the table occurs in the
  lowercased request and 0.3 otherwise.  For the request \<open>analyze this project\<close> the
  category is \<open>analysis\<close>, the suggested tools contain \<open>analyze_project_ecosystem\<close> and
  the confidence is 0.7.
\<close>

theorem analyzeUserIntent_fallback:
  "(loadAIConfig (processEnv w) = Inr cfg \<and> \<not> isAIExecutionEnabled cfg
      \<longrightarrow> analyzeUserIntent w g jsonParse args
            = (Inr (Inl (fallbackIntentAnalysis (userRequest args))), w, g))
   \<and> (loadAIConfig (processEnv w) = Inr cfg \<and> isAIExecutionEnabled cfg
        \<and> (isl (getAIExecutor w g)
            \<or> getAIExecutor w g = Inr ex
              \<and> isl (fst (executeStructuredPrompt w ex jsonParse None (intentPrompt args)
                            intentOptions)))
      \<longrightarrow> fst (analyzeUserIntent w g jsonParse args)
            = Inr (Inl (fallbackIntentAnalysis (userRequest args))))
   \<and> suggestedTools (fallbackIntentAnalysis request)
       = take 5 (newSet (matchedTools (toLowerCase request)))
   \<and> distinct (suggestedTools (fallbackIntentAnalysis request))
   \<and> length (suggestedTools (fallbackIntentAnalysis request)) \<le> 5
   \<and> set (suggestedTools (fallbackIntentAnalysis request))
       \<subseteq> set (matchedTools (toLowerCase request))
   \<and> confidence (fallbackIntentAnalysis request)
       = (if keywordMatched request then 7 / 10 else 3 / 10)
   \<and> category (fallbackIntentAnalysis ''analyze this project'') = ''analysis''
   \<and> ''analyze_project_ecosystem''
       \<in> set (suggestedTools (fallbackIntentAnalysis ''analyze this project''))
   \<and> confidence (fallbackIntentAnalysis ''analyze this project'') = 7 / 10"
proof (intro conjI impI)
  let ?fb = "fallbackIntentAnalysis (userRequest args)"
  show "analyzeUserIntent w g jsonParse args = (Inr (Inl ?fb), w, g)"
    if "loadAIConfig (processEnv w) = Inr cfg \<and> \<not> isAIExecutionEnabled cfg"
    using that by (simp add: analyzeUserIntent_def)
  show "fst (analyzeUserIntent w g jsonParse args) = Inr (Inl ?fb)"
    if h: "loadAIConfig (processEnv w) = Inr cfg \<and> isAIExecutionEnabled cfg
        \<and> (isl (getAIExecutor w g)
            \<or> getAIExecutor w g = Inr ex
              \<and> isl (fst (executeStructuredPrompt w ex jsonParse None (intentPrompt args)
                            intentOptions)))"
  proof -
    from h have c: "loadAIConfig (processEnv w) = Inr cfg" "isAIExecutionEnabled cfg" by simp_all
    from h consider (a) "isl (getAIExecutor w g)"
      | (b) "getAIExecutor w g = Inr ex"
            "isl (fst (executeStructuredPrompt w ex jsonParse None (intentPrompt args)
                         intentOptions))"
      by blast
    then show ?thesis
    proof cases
      case a
      then obtain err where "getAIExecutor w g = Inl err"
        by (cases "getAIExecutor w g") auto
      with c show ?thesis by (simp add: analyzeUserIntent_def)
    next
      case b
      from b(2) obtain err w' ex' where
        "executeStructuredPrompt w ex jsonParse None (intentPrompt args) intentOptions
           = (Inl err, w', ex')"
        by (cases "executeStructuredPrompt w ex jsonParse None (intentPrompt args) intentOptions";
            cases "fst (executeStructuredPrompt w ex jsonParse None (intentPrompt args)
                          intentOptions)") auto
      with c b(1) show ?thesis by (simp add: analyzeUserIntent_def)
    qed
  qed
  show "suggestedTools (fallbackIntentAnalysis request)
        = take 5 (newSet (matchedTools (toLowerCase request)))"
    by (rule fallback_fields)
  show "distinct (suggestedTools (fallbackIntentAnalysis request))"
    by (simp add: fallback_fields)
  show "length (suggestedTools (fallbackIntentAnalysis request)) \<le> 5"
    by (simp add: fallback_fields)
  show "set (suggestedTools (fallbackIntentAnalysis request))
        \<subseteq> set (matchedTools (toLowerCase request))"
    using set_take_subset [of 5 "newSet (matchedTools (toLowerCase request))"]
    by (simp add: fallback_fields)
  show "confidence (fallbackIntentAnalysis request)
        = (if keywordMatched request then 7 / 10 else 3 / 10)"
    by (simp only: fallback_fields keywordMatched_def matchedTools_empty) simp
  show "category (fallbackIntentAnalysis ''analyze this project'') = ''analysis''"
    by (simp add: fallback_example analyzeThisProject_def)
  show "''analyze_project_ecosystem''
        \<in> set (suggestedTools (fallbackIntentAnalysis ''analyze this project''))"
    by (simp add: fallback_example analyzeThisProject_def)
  show "confidence (fallbackIntentAnalysis ''analyze this project'') = 7 / 10"
    by (simp add: fallback_example analyzeThisProject_def)
qed

text \<open>
  Two runs for the request \<open>analyze this project\<close>: one in an environment that sets
  \<open>EXECUTION_MODE=prompt-only\<close>, one with an OpenRouter key and a provider whose every call
  fails.  Both return the keyword analysis with category \<open>analysis\<close>, the two tools of the
  keyword \<open>analyze\<close> and confidence 0.7.
\<close>

theorem analyzeUserIntent_fallback_witness:
  "loadAIConfig (processEnv (exampleWorld promptOnlyEnv echoProvider))
     = Inr (configFromEnv promptOnlyEnv)
   \<and> \<not> isAIExecutionEnabled (configFromEnv promptOnlyEnv)
   \<and> analyzeUserIntent (exampleWorld promptOnlyEnv echoProvider) None
        (Inr :: string \<Rightarrow> jsError + string) (intentArgs ''analyze this project'')
       = (Inr (Inl analyzeThisProject), exampleWorld promptOnlyEnv echoProvider, None)
   \<and> loadAIConfig (processEnv (exampleWorld keyEnv failingProvider))
       = Inr (configFromEnv keyEnv)
   \<and> isAIExecutionEnabled (configFromEnv keyEnv)
   \<and> getAIExecutor (exampleWorld keyEnv failingProvider) None = Inr (exampleExecutor keyEnv)
   \<and> isl (fst (executeStructuredPrompt (exampleWorld keyEnv failingProvider)
                 (exampleExecutor keyEnv) (Inr :: string \<Rightarrow> jsError + string) None
                 (intentPrompt (intentArgs ''analyze this project'')) intentOptions))
   \<and> fst (analyzeUserIntent (exampleWorld keyEnv failingProvider) None
            (Inr :: string \<Rightarrow> jsError + string) (intentArgs ''analyze this project''))
       = Inr (Inl analyzeThisProject)
   \<and> keywordMatched ''analyze this project''
   \<and> confidence analyzeThisProject = 7 / 10"
proof -
  let ?w1 = "exampleWorld promptOnlyEnv echoProvider"
  let ?w2 = "exampleWorld keyEnv failingProvider"
  let ?ex = "exampleExecutor keyEnv"
  let ?p = "Inr :: string \<Rightarrow> jsError + string"
  let ?a = "intentArgs ''analyze this project''"
  have fb: "fallbackIntentAnalysis (userRequest ?a) = analyzeThisProject"
    by (simp add: intentArgs_def fallback_example)
  have l1: "loadAIConfig (processEnv ?w1) = Inr (configFromEnv promptOnlyEnv)"
    by (simp add: exampleWorld_def loadAIConfig_promptOnly)
  have d1: "\<not> isAIExecutionEnabled (configFromEnv promptOnlyEnv)"
    by (rule loadAIConfig_promptOnly)
  have l2: "loadAIConfig (processEnv ?w2) = Inr (configFromEnv keyEnv)"
    by (simp add: exampleWorld_def loadAIConfig_keyEnv)
  have e2: "isAIExecutionEnabled (configFromEnv keyEnv)"
    by code_simp
  have g2: "getAIExecutor ?w2 None = Inr ?ex"
    by (simp add: getAIExecutor_def l2 exampleExecutor_def)
  have gate2: "gate ?w2 ?ex = Inr ?ex" by (rule exampleExecutor_gate)
  have miss: "\<not> cacheHit ?w2 ?ex (promptKey ?w2 ?ex (intentPrompt ?a) intentOptions)"
    by (simp add: cacheHit_def exampleExecutor_config)
  have n: "0 \<le> maxRetries (config ?ex)" by (simp add: exampleExecutor_config)
  have fails: "\<forall>i. isl (respond ?w2 i (promptRequest ?ex (intentPrompt ?a) intentOptions))"
    by (simp add: exampleWorld_def failingProvider_def)
  have "isl (fst (executePrompt ?w2 ?ex (intentPrompt ?a) intentOptions))"
    using gate2 miss n fails by (rule executePrompt_all_fail)
  then have s2: "isl (fst (executeStructuredPrompt ?w2 ?ex ?p None (intentPrompt ?a) intentOptions))"
    by (intro executeStructuredPrompt_error) (simp only: intentOptions_fixed)
  have r1: "analyzeUserIntent ?w1 None ?p ?a = (Inr (Inl analyzeThisProject), ?w1, None)"
    using analyzeUserIntent_fallback
            [where w = ?w1 and cfg = "configFromEnv promptOnlyEnv" and g = None
               and jsonParse = ?p and args = ?a and ex = ?ex
               and request = "''analyze this project''"] l1 d1
    by (simp only: fb) simp
  have t2: "fst (analyzeUserIntent ?w2 None ?p ?a) = Inr (Inl analyzeThisProject)
            \<and> confidence (fallbackIntentAnalysis ''analyze this project'')
                = (if keywordMatched ''analyze this project'' then 7 / 10 else 3 / 10)
            \<and> confidence (fallbackIntentAnalysis ''analyze this project'') = 7 / 10"
    using analyzeUserIntent_fallback
            [where w = ?w2 and cfg = "configFromEnv keyEnv" and g = None
               and jsonParse = ?p and args = ?a and ex = ?ex
               and request = "''analyze this project''"] l2 e2 g2 s2
    by (simp only: fb) simp
  then have "(if keywordMatched ''analyze this project'' then 7 / 10 else 3 / 10) = (7 / 10 :: real)"
    by metis
  then have km: "keywordMatched ''analyze this project''"
    by (simp split: if_splits)
  have c: "confidence analyzeThisProject = 7 / 10"
    by (simp add: analyzeThisProject_def)
  from l1 d1 r1 l2 e2 g2 s2 t2 km c show ?thesis
    by (intro conjI) simp_all
qed

text \<open>
  The claim C8 as stated fails when execution is disabled by a missing key.  In an
  environment without any setting the mode is \<open>full\<close> and the key is empty, so execution
  is not enabled; \<open>loadAIConfig\<close> throws before \<open>analyzeUserIntent\<close> reaches its check,
  and the call ends in that error instead of the keyword analysis.
\<close>

theorem analyzeUserIntent_missing_key_counterexample:
  "\<not> isAIExecutionEnabled (configFromEnv noKeyEnv)
   \<and> executionMode (configFromEnv noKeyEnv) = ''full''
   \<and> isl (fst (analyzeUserIntent (exampleWorld noKeyEnv echoProvider) None
                 (Inr :: string \<Rightarrow> jsError + string) (intentArgs ''analyze this project'')))
   \<and> includes_str
         (errMessage (projl (fst (analyzeUserIntent (exampleWorld noKeyEnv echoProvider) None
            (Inr :: string \<Rightarrow> jsError + string) (intentArgs ''analyze this project'')))))
         ''OpenRouter requires OPENROUTER_API_KEY''
   \<and> fst (analyzeUserIntent (exampleWorld noKeyEnv echoProvider) None
            (Inr :: string \<Rightarrow> jsError + string) (intentArgs ''analyze this project''))
       \<noteq> Inr (Inl (fallbackIntentAnalysis ''analyze this project''))"
  by code_simp
end
